(* ===== verification/Prelude.thy ===== *)
theory Prelude
  imports Main "HOL-Library.Word"
begin

text \<open>
  Shared vocabulary of the development: the widths of the C integer types, results that may
  end in a fault, the bit and carry lemmas on words that the flag computations need, and the
  interface of a byte-addressed store with the little-endian word operations proved over it.

  Collections: \<open>bit_eqs\<close> turns the masks of the C code into tests of one bit,
  \<open>result_eqs\<close> runs sequenced results.
\<close>

unbundle bit_operations_syntax

named_theorems bit_eqs \<open>single-bit masks of the C code read as bit tests\<close>
named_theorems result_eqs \<open>sequencing of results that may end in a fault\<close>

type_synonym u8 = "8 word"
type_synonym u16 = "16 word"
type_synonym u32 = "32 word"
type_synonym u64 = "64 word"

section \<open>Results that may end in a fault\<close>

text \<open>
  A C function that may reach a failed \<open>ASSERT\<close>, \<open>illins\<close>, \<open>unhandled\<close>
  or an access outside an array returns \<open>Inl\<close> of the reason; otherwise \<open>Inr\<close> of
  its value. \<open>bindR\<close> is the sequencing of two such computations.
\<close>

fun bindR :: "'e + 'a \<Rightarrow> ('a \<Rightarrow> 'e + 'b) \<Rightarrow> 'e + 'b" where
  "bindR (Inl e) f = Inl e"
| "bindR (Inr x) f = f x"

lemma bindR_assoc: "bindR (bindR m f) g = bindR m (\<lambda>x. bindR (f x) g)"
  by (cases m) auto

lemma bindR_Inr_iff [result_eqs]: "bindR m f = Inr y \<longleftrightarrow> (\<exists>x. m = Inr x \<and> f x = Inr y)"
  by (cases m) auto

lemma bindR_Inl_iff [result_eqs]:
  "bindR m f = Inl e \<longleftrightarrow> m = Inl e \<or> (\<exists>x. m = Inr x \<and> f x = Inl e)"
  by (cases m) auto

lemma bindR_InrE:
  assumes "bindR m f = Inr y"
  obtains x where "m = Inr x" "f x = Inr y"
  using assms by (cases m) auto

lemma bindR_InlE:
  assumes "bindR m f = Inl e"
  obtains "m = Inl e" | x where "m = Inr x" "f x = Inl e"
  using assms by (cases m) auto

lemma bindR_split:
  "P (bindR m f) \<longleftrightarrow> (\<forall>e. m = Inl e \<longrightarrow> P (Inl e)) \<and> (\<forall>x. m = Inr x \<longrightarrow> P (f x))"
  by (cases m) auto

lemma bindR_if: "bindR (if c then m else n) f = (if c then bindR m f else bindR n f)"
  by simp

section \<open>Masks with one bit\<close>

lemma mask_u8 [bit_eqs]:
  fixes w :: u8
  shows "w AND 1 = 0 \<longleftrightarrow> \<not> bit w 0" "w AND 2 = 0 \<longleftrightarrow> \<not> bit w 1"
    "w AND 4 = 0 \<longleftrightarrow> \<not> bit w 2" "w AND 8 = 0 \<longleftrightarrow> \<not> bit w 3"
    "w AND 16 = 0 \<longleftrightarrow> \<not> bit w 4" "w AND 32 = 0 \<longleftrightarrow> \<not> bit w 5"
    "w AND 64 = 0 \<longleftrightarrow> \<not> bit w 6" "w AND 128 = 0 \<longleftrightarrow> \<not> bit w 7"
  using and_exp_eq_0_iff_not_bit [of w 0] and_exp_eq_0_iff_not_bit [of w 1]
    and_exp_eq_0_iff_not_bit [of w 2] and_exp_eq_0_iff_not_bit [of w 3]
    and_exp_eq_0_iff_not_bit [of w 4] and_exp_eq_0_iff_not_bit [of w 5]
    and_exp_eq_0_iff_not_bit [of w 6] and_exp_eq_0_iff_not_bit [of w 7]
  by simp_all

lemma mask_u8_left [bit_eqs]:
  fixes w :: u8
  shows "1 AND w = 0 \<longleftrightarrow> \<not> bit w 0" "8 AND w = 0 \<longleftrightarrow> \<not> bit w 3" "128 AND w = 0 \<longleftrightarrow> \<not> bit w 7"
  using mask_u8 [of w] by (simp_all add: and.commute)

lemma mask_u16 [bit_eqs]:
  fixes w :: u16
  shows "w AND 1 = 0 \<longleftrightarrow> \<not> bit w 0" "w AND 32768 = 0 \<longleftrightarrow> \<not> bit w 15"
    "32768 AND w = 0 \<longleftrightarrow> \<not> bit w 15"
  using and_exp_eq_0_iff_not_bit [of w 0] and_exp_eq_0_iff_not_bit [of w 15]
  by (simp_all add: and.commute)

section \<open>Carries, borrows and signed overflow\<close>

text \<open>
  The flag formulas of the C code look at the top bit of the operands and of the result.
  With operands below \<open>2 * M\<close> (\<open>M\<close> the weight of that bit) they say whether the
  unbounded sum leaves the unsigned, or the two's complement, range. Subtraction reads the
  same formulas on the sum result + subtrahend.
\<close>

lemma carry_nat:
  fixes M x y r c :: nat
  assumes "x < 2 * M" "y < 2 * M" "c \<le> 1" "r = (x + y + c) mod (2 * M)"
  shows "(M \<le> x \<and> M \<le> y) \<or> (M \<le> y \<and> \<not> M \<le> r) \<or> (\<not> M \<le> r \<and> M \<le> x) \<longleftrightarrow> 2 * M \<le> x + y + c"
proof (cases "2 * M \<le> x + y + c")
  case True
  with assms have "r = x + y + c - 2 * M"
    by (simp add: mod_if)
  with True assms(1-3) show ?thesis by linarith
next
  case False
  with assms have "r = x + y + c" by simp
  with False assms(1-3) show ?thesis by linarith
qed

lemma borrow_nat:
  fixes M x y r c :: nat
  assumes "x < 2 * M" "y < 2 * M" "c \<le> 1" "r < 2 * M" "x = (r + y + c) mod (2 * M)"
  shows "2 * M \<le> r + y + c \<longleftrightarrow> x < y + c"
proof (cases "2 * M \<le> r + y + c")
  case True
  with assms have "x = r + y + c - 2 * M"
    by (simp add: mod_if)
  with True assms(1-4) show ?thesis by linarith
next
  case False
  with assms have "x = r + y + c" by simp
  with False show ?thesis by linarith
qed

text \<open>The two's complement value of a number below \<open>2 * M\<close>.\<close>

definition signed_of :: "nat \<Rightarrow> nat \<Rightarrow> int" where
  "signed_of M x = (if M \<le> x then int x - 2 * int M else int x)"

lemma signed_carry_nat:
  fixes M x y r c :: nat
  assumes "x < 2 * M" "y < 2 * M" "c \<le> 1" "r = (x + y + c) mod (2 * M)"
  defines "t \<equiv> signed_of M x + signed_of M y + int c"
  shows "(M \<le> x \<and> M \<le> y \<and> \<not> M \<le> r) \<or> (\<not> M \<le> x \<and> \<not> M \<le> y \<and> M \<le> r) \<longleftrightarrow> t < - int M \<or> int M \<le> t"
   "(M \<le> r) \<noteq> ((M \<le> x \<and> M \<le> y \<and> \<not> M \<le> r) \<or> (\<not> M \<le> x \<and> \<not> M \<le> y \<and> M \<le> r)) \<longleftrightarrow> t < 0"
proof -
  have r: "r = (if 2 * M \<le> x + y + c then x + y + c - 2 * M else x + y + c)"
    using assms by (simp add: mod_if)
  show "(M \<le> x \<and> M \<le> y \<and> \<not> M \<le> r) \<or> (\<not> M \<le> x \<and> \<not> M \<le> y \<and> M \<le> r) \<longleftrightarrow> t < - int M \<or> int M \<le> t"
    unfolding r t_def signed_of_def using assms(1-3) by (auto split: if_splits)
  show "(M \<le> r) \<noteq> ((M \<le> x \<and> M \<le> y \<and> \<not> M \<le> r) \<or> (\<not> M \<le> x \<and> \<not> M \<le> y \<and> M \<le> r)) \<longleftrightarrow> t < 0"
    unfolding r t_def signed_of_def using assms(1-3) by (auto split: if_splits)
qed

lemma odd_top_bit_nat: "odd (n div m) \<longleftrightarrow> m \<le> n" if "n < 2 * m" for n m :: nat
proof (cases "m \<le> n")
  case True
  with that have "n div m = 1" by (simp add: div_nat_eqI)
  with True show ?thesis by simp
qed simp

lemma bit_unat: "bit w k \<longleftrightarrow> odd (unat w div 2 ^ k)" for w :: "'a::len word"
  using bit_iff_odd [of "unat w" k] bit_unsigned_iff [of w k, where ?'a = nat]
  by (auto dest: bit_imp_le_length)

lemma bit_u8_7: "bit (w :: u8) 7 \<longleftrightarrow> 128 \<le> unat w"
  using odd_top_bit_nat [of "unat w" 128] unsigned_less [of w, where ?'a = nat]
  by (simp add: bit_unat)

lemma bit_u8_3: "bit (w :: u8) 3 \<longleftrightarrow> 8 \<le> unat w mod 16"
proof -
  have "odd (unat w mod 16 div 8) \<longleftrightarrow> 8 \<le> unat w mod 16"
    by (rule odd_top_bit_nat) simp
  moreover have "unat w mod 16 div 8 = unat w div 8 mod 2"
    using mod_mult2_eq [of "unat w" 8 2] by simp
  ultimately show ?thesis
    by (simp add: bit_unat odd_iff_mod_2_eq_one)
qed

lemma bit_u16_15: "bit (w :: u16) 15 \<longleftrightarrow> 32768 \<le> unat w"
  using odd_top_bit_nat [of "unat w" 32768] unsigned_less [of w, where ?'a = nat]
  by (simp add: bit_unat)

lemma sint_u8: "sint (w :: u8) = signed_of 128 (unat w)"
proof -
  have "sint w = int (unat w) - (if bit w 7 then 256 else 0)"
    unfolding sint_uint by (simp add: signed_take_bit_eq_take_bit_minus bit_uint_iff bintr_uint)
  then show ?thesis by (simp add: signed_of_def bit_u8_7)
qed

lemma sint_u16: "sint (w :: u16) = signed_of 32768 (unat w)"
proof -
  have "sint w = int (unat w) - (if bit w 15 then 65536 else 0)"
    unfolding sint_uint by (simp add: signed_take_bit_eq_take_bit_minus bit_uint_iff bintr_uint)
  then show ?thesis by (simp add: signed_of_def bit_u16_15)
qed

lemma signed_borrow_nat:
  fixes M x y r c :: nat
  assumes "x < 2 * M" "y < 2 * M" "r < 2 * M" "c \<le> 1" "x = (r + y + c) mod (2 * M)"
  defines "t \<equiv> signed_of M x - signed_of M y - int c"
  shows "(M \<le> x \<and> \<not> M \<le> y \<and> \<not> M \<le> r) \<or> (\<not> M \<le> x \<and> M \<le> y \<and> M \<le> r) \<longleftrightarrow> t < - int M \<or> int M \<le> t"
    "(M \<le> r) \<noteq> ((M \<le> x \<and> \<not> M \<le> y \<and> \<not> M \<le> r) \<or> (\<not> M \<le> x \<and> M \<le> y \<and> M \<le> r)) \<longleftrightarrow> t < 0"
proof -
  have x: "x = (if 2 * M \<le> r + y + c then r + y + c - 2 * M else r + y + c)"
    using assms by (simp add: mod_if)
  show "(M \<le> x \<and> \<not> M \<le> y \<and> \<not> M \<le> r) \<or> (\<not> M \<le> x \<and> M \<le> y \<and> M \<le> r) \<longleftrightarrow> t < - int M \<or> int M \<le> t"
    unfolding x t_def signed_of_def using assms(1-4) by (auto split: if_splits)
  show "(M \<le> r) \<noteq> ((M \<le> x \<and> \<not> M \<le> y \<and> \<not> M \<le> r) \<or> (\<not> M \<le> x \<and> M \<le> y \<and> M \<le> r)) \<longleftrightarrow> t < 0"
    unfolding x t_def signed_of_def using assms(1-4) by (auto split: if_splits)
qed

section \<open>Bytes of a 16-bit word\<close>

definition le_word :: "u8 \<Rightarrow> u8 \<Rightarrow> u16" where
  "le_word lo hi = ucast lo OR push_bit 8 (ucast hi)"

definition lo_byte :: "u16 \<Rightarrow> u8" where
  "lo_byte w = ucast (w AND 0xff)"

definition hi_byte :: "u16 \<Rightarrow> u8" where
  "hi_byte w = ucast (drop_bit 8 w)"

lemma and_255_u16: "(w :: u16) AND 255 = take_bit 8 w"
  by (simp add: take_bit_eq_mask mask_eq_exp_minus_1)

lemma bit_le_word: "bit (le_word lo hi) n \<longleftrightarrow> (if n < 8 then bit lo n else bit hi (n - 8))"
  by (auto simp: le_word_def bit_simps dest: bit_imp_le_length)

lemma bit_lo_byte: "bit (lo_byte w) n \<longleftrightarrow> n < 8 \<and> bit w n"
  unfolding lo_byte_def and_255_u16 by (auto simp: bit_simps)

lemma bit_hi_byte: "bit (hi_byte w) n \<longleftrightarrow> n < 8 \<and> bit w (n + 8)"
  by (auto simp: hi_byte_def bit_simps add.commute)

lemma le_word_bytes [simp]: "le_word (lo_byte w) (hi_byte w) = w"
  by (rule bit_word_eqI) (auto simp: bit_le_word bit_lo_byte bit_hi_byte dest: bit_imp_le_length)

lemma lo_byte_le_word [simp]: "lo_byte (le_word lo hi) = lo"
  by (rule bit_word_eqI) (auto simp: bit_le_word bit_lo_byte)

lemma hi_byte_le_word [simp]: "hi_byte (le_word lo hi) = hi"
  by (rule bit_word_eqI) (auto simp: bit_le_word bit_hi_byte)

lemma unat_u8_less: "unat (w :: u8) < 256"
  using unsigned_less [of w, where ?'a = nat] by simp

lemma unat_u16_less: "unat (w :: u16) < 65536"
  using unsigned_less [of w, where ?'a = nat] by simp

lemma unat_le_word: "unat (le_word lo hi) = unat lo + 256 * unat hi"
proof -
  have "le_word lo hi = ucast lo + push_bit 8 (ucast hi)"
    unfolding le_word_def
    by (rule disjunctive_add_eq_or [symmetric], rule bit_word_eqI)
      (auto simp: bit_simps dest: bit_imp_le_length)
  moreover have "unat (push_bit 8 (ucast hi) :: u16) = 256 * unat hi"
    using unat_u8_less [of hi]
    by (simp add: push_bit_eq_mult unat_word_ariths unsigned_ucast_eq take_bit_nat_eq_self mult.commute)
  ultimately show ?thesis
    using unat_u8_less [of hi] unat_u8_less [of lo]
    by (simp add: unat_word_ariths unsigned_ucast_eq take_bit_nat_eq_self)
qed

section \<open>Sums and differences with a carry\<close>

lemma unat_add_carry: "unat (a + b + of_bool c :: u8) = (unat a + unat b + of_bool c) mod 256"
  by (cases c) (simp_all add: unat_word_ariths mod_simps)

lemma zero_u8_iff: "(w :: u8) = 0 \<longleftrightarrow> unat w = 0"
  by (simp add: unat_eq_0)

lemma low_nibble_add: "(x + y + k) mod 256 mod 16 = (x mod 16 + y mod 16 + k) mod (16 :: nat)"
  using mod_add_left_eq [of "x mod 16 + y mod 16" 16 k] mod_add_left_eq [of "x + y" 16 k]
    mod_add_eq [of x 16 y]
  by (simp add: mod_mod_cancel)

lemma uint_sub_borrow: "uint (a - b - of_bool c :: u8) = (uint a - uint b - of_bool c) mod 256"
  by (cases c) (simp_all add: uint_word_ariths mod_simps)

lemma uint_borrow_iff: "uint a - uint b - of_bool c < 0 \<longleftrightarrow> unat a < unat b + of_bool c"
  for a b :: u8
  unfolding uint_nat by (cases c) (simp_all only: of_bool_eq, linarith+)

section \<open>Address checks\<close>

lemma and_not_mask_eq_0:
  fixes w :: "'a::len word"
  shows "w AND NOT (mask n) = 0 \<longleftrightarrow> unat w < 2 ^ n"
proof -
  have "w AND NOT (mask n) = 0 \<longleftrightarrow> w AND mask n = w"
  proof
    assume *: "w AND NOT (mask n) = 0"
    show "w AND mask n = w"
    proof (rule bit_word_eqI)
      fix k assume "k < LENGTH('a)"
      moreover have "bit (w AND NOT (mask n)) k \<longleftrightarrow> bit (0 :: 'a word) k" using * by simp
      ultimately show "bit (w AND mask n) k \<longleftrightarrow> bit w k" by (auto simp: bit_simps)
    qed
  next
    assume "w AND mask n = w"
    then have "w AND NOT (mask n) = (w AND mask n) AND NOT (mask n)" by simp
    then show "w AND NOT (mask n) = 0" by (simp add: and.assoc)
  qed
  also have "\<dots> \<longleftrightarrow> uint w < 2 ^ n"
    by (rule mask_eq_iff)
  also have "\<dots> \<longleftrightarrow> unat w < 2 ^ n"
    using of_nat_less_iff [of "unat w" "2 ^ n", where ?'a = int] by simp
  finally show ?thesis .
qed

lemma data_range_check: "addr AND NOT 0xffffff = 0 \<longleftrightarrow> unat addr < 0x1000000" for addr :: u32
  using and_not_mask_eq_0 [of addr 24] by (simp add: mask_eq_exp_minus_1)

lemma program_range_check: "addr AND NOT 0x7fffff = 0 \<longleftrightarrow> unat addr < 0x800000" for addr :: u32
  using and_not_mask_eq_0 [of addr 23] by (simp add: mask_eq_exp_minus_1)

lemma even_u32: "addr AND 1 = 0 \<longleftrightarrow> even (unat addr)" for addr :: u32
  using and_exp_eq_0_iff_not_bit [of addr 0] bit_unat [of addr 0] by simp

lemma unat_even_plus_1: "unat (addr + 1) = unat addr + 1" if "addr AND 1 = 0" for addr :: u32
proof -
  have "unat addr \<noteq> 4294967295" using that by (auto simp: even_u32)
  moreover have "unat addr < 4294967296"
    using unsigned_less [of addr, where ?'a = nat] by simp
  ultimately show ?thesis by (simp add: unat_word_ariths)
qed

lemma unat_and_mask: "unat (w AND mask n) = unat w mod 2 ^ n" for w :: "'a::len word"
proof -
  have "unat (w AND mask n) = unat (take_bit n w)" by (simp only: take_bit_eq_mask)
  also have "\<dots> = take_bit n (unat w)" by (rule unsigned_take_bit_eq)
  finally show ?thesis by (simp only: take_bit_eq_mod)
qed

lemma unat_and_ffffff: "unat (a AND 0xffffff) = unat a mod 0x1000000" for a :: u32
  using unat_and_mask [of a 24] by (simp add: mask_eq_exp_minus_1)

lemma unat_and_ffff: "unat (a AND 0xffff) = unat a mod 0x10000" for a :: u32
  using unat_and_mask [of a 16] by (simp add: mask_eq_exp_minus_1)

lemma unat_and_ff: "unat (a AND 0xff) = unat a mod 0x100" for a :: u32
  using unat_and_mask [of a 8] by (simp add: mask_eq_exp_minus_1)

lemma unat_ucast_u16 [simp]: "unat (ucast (w :: u16) :: u32) = unat w"
  using unat_u16_less [of w] by (simp add: unsigned_ucast_eq take_bit_nat_eq_self)

lemma unat_addr24: "unat (ucast w OR push_bit 16 (ucast b) :: u32) = unat (w :: u16) + 65536 * unat (b :: u8)"
proof -
  have "(ucast w OR push_bit 16 (ucast b) :: u32) = ucast w + push_bit 16 (ucast b)"
    by (rule disjunctive_add_eq_or [symmetric], rule bit_word_eqI)
      (auto simp: bit_simps dest: bit_imp_le_length)
  moreover have "unat (push_bit 16 (ucast b) :: u32) = 65536 * unat b"
    using unat_u8_less [of b]
    by (simp add: push_bit_eq_mult unat_word_ariths unsigned_ucast_eq take_bit_nat_eq_self mult.commute)
  ultimately show ?thesis
    using unat_u8_less [of b] unat_u16_less [of w]
    by (simp add: unat_word_ariths)
qed

lemma addr24_less [simp]: "unat (ucast (w :: u16) OR push_bit 16 (ucast (b :: u8)) :: u32) < 16777216"
  using unat_u16_less [of w] unat_u8_less [of b] by (simp add: unat_addr24)

lemma addr16_less [simp]: "unat (w :: u16) < 16777216"
  using unat_u16_less [of w] by simp

lemma masked_less [simp]:
  "unat ((a :: u32) AND 0xffffff) < 16777216" "unat ((a :: u32) AND 0xffff) < 16777216"
  "unat ((a :: u32) AND 0xff) < 16777216"
proof -
  have "n mod 65536 < 16777216" "n mod 256 < 16777216" for n :: nat
    by (rule less_le_trans [OF mod_less_divisor]; simp)+
  then show "unat (a AND 0xffffff) < 16777216" "unat (a AND 0xffff) < 16777216"
    "unat (a AND 0xff) < 16777216"
    by (simp_all add: unat_and_ffffff unat_and_ffff unat_and_ff)
qed

section \<open>The interface of a byte-addressed store\<close>

text \<open>
  What the word operations rely on: a read returns what the last write to that address put
  there. \<open>rd\<close> reads a byte of a state, \<open>wr\<close> writes one.
\<close>

locale byte_store =
  fixes rd :: "'s \<Rightarrow> nat \<Rightarrow> u8"
    and wr :: "nat \<Rightarrow> u8 \<Rightarrow> 's \<Rightarrow> 's"
  assumes rd_wr: "rd (wr i v s) j = (if j = i then v else rd s j)"
begin

lemma rd_wr_same: "rd (wr i v s) i = v"
  by (simp add: rd_wr)

lemma rd_wr_other: "j \<noteq> i \<Longrightarrow> rd (wr i v s) j = rd s j"
  by (simp add: rd_wr)

lemma word_after_write:
  "le_word (rd (wr (Suc i) (hi_byte w) (wr i (lo_byte w) s)) i)
           (rd (wr (Suc i) (hi_byte w) (wr i (lo_byte w) s)) (Suc i)) = w"
  by (simp add: rd_wr)

lemma word_after_write_rev:
  "le_word (rd (wr i (lo_byte w) (wr (Suc i) (hi_byte w) s)) i)
           (rd (wr i (lo_byte w) (wr (Suc i) (hi_byte w) s)) (Suc i)) = w"
  by (simp add: rd_wr)

lemma frame_after_write:
  "j \<noteq> i \<Longrightarrow> j \<noteq> Suc i \<Longrightarrow> rd (wr (Suc i) v (wr i u s)) j = rd s j"
  by (simp add: rd_wr)

end

end
