(* ===== verification/Machine.thy ===== *)
theory Machine
  imports Prelude
begin

text \<open>
  The machine state of \<open>main.c\<close> and the accessors of \<open>emu.h\<close>: the global
  variables as one record, the constants of the data-memory map, bit selection, the stack
  pointer, byte and word accesses to data memory and word reads of program memory.

  Data memory and flash are total functions on indices; the C arrays end at
  \<open>MEM_SIZE\<close> and \<open>FLASH_SIZE\<close>. An index of type \<open>uint8_t\<close> or
  \<open>uint16_t\<close>, or one of these plus a small constant, cannot leave the array, so the
  model reads \<open>memory\<close> directly there; every access through a \<open>uint32_t\<close> goes
  through \<open>mem_at\<close>, \<open>mem_put\<close> or an accessor that reports
  \<open>Array_bounds\<close> when the index is outside.
\<close>

unbundle bit_operations_syntax

section \<open>Constants\<close>

definition MEM_SIZE :: nat where [simp]: "MEM_SIZE = 0x1000000"
definition FLASH_SIZE :: nat where [simp]: "FLASH_SIZE = 0x800000"

definition REGP_Z :: u8 where [simp]: "REGP_Z = 30"
definition REGP_Y :: u8 where [simp]: "REGP_Y = 28"
definition REGP_X :: u8 where [simp]: "REGP_X = 26"

definition SREG :: nat where [simp]: "SREG = 0x5F"
definition SP_HI :: nat where [simp]: "SP_HI = 0x5E"
definition SP_LO :: nat where [simp]: "SP_LO = 0x5D"
definition EIND :: nat where [simp]: "EIND = 0x5C"
definition RAMPZ :: u8 where [simp]: "RAMPZ = 0x5B"
definition RAMPY :: u8 where [simp]: "RAMPY = 0x5A"
definition RAMPX :: u8 where [simp]: "RAMPX = 0x59"
definition RAMPD :: nat where [simp]: "RAMPD = 0x58"

definition IO_BASE :: nat where [simp]: "IO_BASE = 0x20"

definition SREG_C :: u8 where [simp]: "SREG_C = 0x01"
definition SREG_Z :: u8 where [simp]: "SREG_Z = 0x02"
definition SREG_N :: u8 where [simp]: "SREG_N = 0x04"
definition SREG_V :: u8 where [simp]: "SREG_V = 0x08"
definition SREG_S :: u8 where [simp]: "SREG_S = 0x10"
definition SREG_H :: u8 where [simp]: "SREG_H = 0x20"
definition SREG_T :: u8 where [simp]: "SREG_T = 0x40"
definition SREG_I :: u8 where [simp]: "SREG_I = 0x80"

section \<open>State and faults\<close>

text \<open>
  The ways a run of the C program ends abnormally: one constructor per \<open>ASSERT\<close> that
  the emulation core contains, the two aborting reports \<open>illins\<close> and
  \<open>unhandled\<close>, and the access outside an array, which C leaves undefined.
\<close>

datatype fault =
    Data_load_range u32
  | Word_load_unaligned u32
  | Word_store_unaligned u32
  | Program_load_range u32
  | Overlapped_flags u8
  | Bad_instr_size u32
  | Illegal_instr u16
  | Not_implemented u16
  | Array_bounds nat

text \<open>
  The global variables. \<open>tracefile\<close> is \<open>None\<close> for a null \<open>FILE *\<close> and
  otherwise the bytes written so far; \<open>start\<close> (wall-clock time) is left out.
\<close>

record machine =
  pc :: u32
  pc_start :: u32
  instr_size :: u32
  skip_next_instruction :: bool
  memory :: "nat \<Rightarrow> u8"
  flash :: "nat \<Rightarrow> u16"
  pc22 :: bool
  pc_mem_max_64k :: bool
  pc_mem_max_256b :: bool
  insns :: u64
  insnlimit :: u64
  insnreplaylim :: u64
  off :: bool
  replay_mode :: bool
  stepone :: bool
  tracehex :: bool
  tracefile :: "u8 list option"

text \<open>\<open>init\<close> resets the program counter, the machine model and the counters, and leaves
  data memory and flash alone (its \<open>memset\<close> is commented out).\<close>

definition init :: "machine \<Rightarrow> machine" where
  "init s = s\<lparr>pc := 0, pc22 := False, pc_mem_max_256b := False, pc_mem_max_64k := False,
     insns := 0, off := False, skip_next_instruction := False\<rparr>"

section \<open>Data memory\<close>

text \<open>The assignment \<open>memory[i] = v\<close> at an index that is in the array by its type.\<close>

definition mem_upd :: "nat \<Rightarrow> u8 \<Rightarrow> machine \<Rightarrow> machine" where
  "mem_upd i v s = s\<lparr>memory := (memory s)(i := v)\<rparr>"

definition mem_at :: "u32 \<Rightarrow> machine \<Rightarrow> fault + u8" where
  "mem_at a s = (if unat a < MEM_SIZE then Inr (memory s (unat a))
     else Inl (Array_bounds (unat a)))"

definition mem_put :: "u32 \<Rightarrow> u8 \<Rightarrow> machine \<Rightarrow> fault + machine" where
  "mem_put a v s = (if unat a < MEM_SIZE then Inr (mem_upd (unat a) v s)
     else Inl (Array_bounds (unat a)))"

lemma mem_upd_simps [simp]:
  "memory (mem_upd i v s) = (memory s)(i := v)"
  "pc (mem_upd i v s) = pc s" "pc_start (mem_upd i v s) = pc_start s"
  "instr_size (mem_upd i v s) = instr_size s"
  "skip_next_instruction (mem_upd i v s) = skip_next_instruction s"
  "flash (mem_upd i v s) = flash s" "pc22 (mem_upd i v s) = pc22 s"
  "pc_mem_max_64k (mem_upd i v s) = pc_mem_max_64k s"
  "pc_mem_max_256b (mem_upd i v s) = pc_mem_max_256b s"
  "insns (mem_upd i v s) = insns s" "insnlimit (mem_upd i v s) = insnlimit s"
  "insnreplaylim (mem_upd i v s) = insnreplaylim s"
  "off (mem_upd i v s) = off s" "replay_mode (mem_upd i v s) = replay_mode s"
  "stepone (mem_upd i v s) = stepone s" "tracehex (mem_upd i v s) = tracehex s"
  "tracefile (mem_upd i v s) = tracefile s"
  by (simp_all add: mem_upd_def)

interpretation mem: byte_store memory mem_upd
  by unfold_locales simp

section \<open>Accessors of emu.h\<close>

text \<open>
  Bit selection keeps the bits \<open>min..max\<close> in place. The mask is computed in
  \<open>unsigned\<close> and truncated to 16 bits. Its two \<open>ASSERT\<close>s constrain the position
  arguments only; every call site passes literals, collected in \<open>bits_call_sites\<close>.
\<close>

definition bits :: "u16 \<Rightarrow> nat \<Rightarrow> nat \<Rightarrow> u16" where
  "bits v mx mn =
     (let mask = (ucast (push_bit (mx + 1) (1 :: u32) - 1) :: u16);
          mask = (if mn > 0 then mask AND NOT (ucast (push_bit mn (1 :: u32) - 1)) else mask)
      in v AND mask)"

definition bits_assert :: "nat \<Rightarrow> nat \<Rightarrow> bool" where
  "bits_assert mx mn \<longleftrightarrow> (mx < 16 \<and> mx \<ge> mn) \<and> mn < 16"

definition getsp :: "machine \<Rightarrow> u16" where
  "getsp s = push_bit 8 (ucast (memory s SP_HI)) OR ucast (memory s SP_LO)"

definition setsp :: "u16 \<Rightarrow> machine \<Rightarrow> machine" where
  "setsp sp s = mem_upd SP_HI (ucast (drop_bit 8 sp)) (mem_upd SP_LO (ucast (sp AND 0xff)) s)"

definition membyte :: "u32 \<Rightarrow> machine \<Rightarrow> fault + u16" where
  "membyte addr s =
     (if addr AND NOT 0xffffff \<noteq> 0 then Inl (Data_load_range addr)
      else Inr (ucast (memory s (unat addr))))"

definition memword :: "u32 \<Rightarrow> machine \<Rightarrow> fault + u16" where
  "memword addr s =
     (if addr AND 1 \<noteq> 0 then Inl (Word_load_unaligned addr)
      else if addr AND NOT 0xffffff \<noteq> 0 then Inl (Data_load_range addr)
      else Inr (ucast (memory s (unat addr)) OR push_bit 8 (ucast (memory s (unat (addr + 1))))))"

definition memwriteword :: "u32 \<Rightarrow> u16 \<Rightarrow> machine \<Rightarrow> fault + machine" where
  "memwriteword addr w s =
     (if addr AND 1 \<noteq> 0 then Inl (Word_store_unaligned addr)
      else bindR (mem_put addr (ucast (w AND 0xff)) s)
        (mem_put (addr + 1) (ucast (drop_bit 8 w AND 0xff))))"

definition romword :: "u32 \<Rightarrow> machine \<Rightarrow> fault + u16" where
  "romword addr_word s =
     (if addr_word AND NOT 0x7fffff \<noteq> 0 then Inl (Program_load_range addr_word)
      else Inr (flash s (unat addr_word)))"

section \<open>Aborting reports\<close>

text \<open>
  \<open>_illins\<close> and \<open>_unhandled\<close> print three words of flash from \<open>pc_start\<close> on
  and then end the program. The reads are unchecked: the report itself runs past the array when
  the instruction is one of the last two words.
\<close>

definition report_oob :: "machine \<Rightarrow> nat option" where
  "report_oob s = find (\<lambda>i. FLASH_SIZE \<le> i)
     (map (\<lambda>i. unat (pc_start s + i)) [0, 1, 2])"

definition illins :: "u16 \<Rightarrow> machine \<Rightarrow> fault" where
  "illins i s = (case report_oob s of Some a \<Rightarrow> Array_bounds a | None \<Rightarrow> Illegal_instr i)"

definition unhandled :: "u16 \<Rightarrow> machine \<Rightarrow> fault" where
  "unhandled i s = (case report_oob s of Some a \<Rightarrow> Array_bounds a | None \<Rightarrow> Not_implemented i)"

section \<open>Call sites of bits\<close>

definition bits_call_sites :: "(nat \<times> nat) list" where
  "bits_call_sites = [(0, 0), (1, 0), (1, 1), (2, 0), (3, 0), (3, 3), (4, 4), (5, 4), (6, 4),
     (7, 3), (7, 4), (7, 6), (8, 4), (8, 8), (9, 3), (9, 9), (10, 9), (11, 0), (11, 8),
     (11, 10), (12, 12), (13, 13), (14, 13)]"

lemma bits_call_sites_ok: "list_all (\<lambda>(mx, mn). bits_assert mx mn) bits_call_sites"
  by (simp add: bits_call_sites_def bits_assert_def)

section \<open>The accessors as operations on bytes\<close>

lemma bits_literals [simp]:
  "bits v 0 0 = v AND 0x0001" "bits v 1 0 = v AND 0x0003" "bits v 1 1 = v AND 0x0002"
  "bits v 2 0 = v AND 0x0007" "bits v 3 0 = v AND 0x000f" "bits v 3 3 = v AND 0x0008"
  "bits v 4 4 = v AND 0x0010" "bits v 5 4 = v AND 0x0030" "bits v 6 4 = v AND 0x0070"
  "bits v 7 3 = v AND 0x00f8" "bits v 7 4 = v AND 0x00f0" "bits v 7 6 = v AND 0x00c0"
  "bits v 8 4 = v AND 0x01f0" "bits v 8 8 = v AND 0x0100" "bits v 9 3 = v AND 0x03f8"
  "bits v 9 9 = v AND 0x0200" "bits v 10 9 = v AND 0x0600" "bits v 11 0 = v AND 0x0fff"
  "bits v 11 8 = v AND 0x0f00" "bits v 11 10 = v AND 0x0c00" "bits v 12 12 = v AND 0x1000"
  "bits v 13 13 = v AND 0x2000" "bits v 14 13 = v AND 0x6000"
  by (simp_all add: bits_def)

lemma bits_literals_Suc [simp]:
  "bits v (Suc 0) 0 = v AND 0x0003" "bits v (Suc 0) (Suc 0) = v AND 0x0002"
  using bits_literals(2,3) by simp_all

lemma memword_eq:
  "memword addr s =
     (if addr AND 1 \<noteq> 0 then Inl (Word_load_unaligned addr)
      else if MEM_SIZE \<le> unat addr then Inl (Data_load_range addr)
      else Inr (le_word (memory s (unat addr)) (memory s (Suc (unat addr)))))"
  using data_range_check [of addr]
  by (auto simp: memword_def le_word_def unat_even_plus_1)

lemma memwriteword_eq:
  "memwriteword addr w s =
     (if addr AND 1 \<noteq> 0 then Inl (Word_store_unaligned addr)
      else if MEM_SIZE \<le> unat addr then Inl (Array_bounds (unat addr))
      else Inr (mem_upd (Suc (unat addr)) (hi_byte w) (mem_upd (unat addr) (lo_byte w) s)))"
proof -
  have "(drop_bit 8 w AND 255) = drop_bit 8 w"
    unfolding and_255_u16 by (rule bit_word_eqI) (auto simp: bit_simps dest: bit_imp_le_length)
  moreover have "Suc (unat addr) < MEM_SIZE" if "addr AND 1 = 0" "unat addr < MEM_SIZE"
    using that by (auto simp: even_u32 less_Suc_eq)
  ultimately show ?thesis
    by (auto simp: memwriteword_def mem_put_def unat_even_plus_1 lo_byte_def hi_byte_def)
qed

lemma unat_ucast_u8 [simp]: "unat (ucast (d :: u8) :: u32) = unat d"
  using unat_u8_less [of d] by (simp add: unsigned_ucast_eq take_bit_nat_eq_self)

lemma ucast_u8_even: "(ucast (d :: u8) :: u32) AND 1 = 0 \<longleftrightarrow> even d"
  using bit_unat [of d 0] by (simp add: even_u32 bit_0)

text \<open>A register pair is addressed by an even byte, so no check can fail.\<close>

lemma memword_pair: "even d \<Longrightarrow>
    memword (ucast (d :: u8)) s = Inr (le_word (memory s (unat d)) (memory s (Suc (unat d))))"
  using unat_u8_less [of d] by (simp add: memword_eq ucast_u8_even)

lemma memwriteword_pair: "even d \<Longrightarrow>
    memwriteword (ucast (d :: u8)) w s =
      Inr (mem_upd (Suc (unat d)) (hi_byte w) (mem_upd (unat d) (lo_byte w) s))"
  using unat_u8_less [of d] by (simp add: memwriteword_eq ucast_u8_even)

lemma memword_Z: "memword 30 s = Inr (le_word (memory s 30) (memory s 31))"
  by (simp add: memword_eq)

lemma memwriteword_Z:
  "memwriteword 30 w s = Inr (mem_upd 31 (hi_byte w) (mem_upd 30 (lo_byte w) s))"
  by (simp add: memwriteword_eq)

lemma romword_drop:
  "unat a < 16777216 \<Longrightarrow> romword (drop_bit (Suc 0) a) s = Inr (flash s (unat a div 2))"
  by (auto simp: romword_def program_range_check [simplified] drop_bit_eq_div unat_div)

lemma getsp_eq: "getsp s = le_word (memory s SP_LO) (memory s SP_HI)"
  by (simp add: getsp_def le_word_def or.commute)

lemma setsp_eq: "setsp sp s = mem_upd SP_HI (hi_byte sp) (mem_upd SP_LO (lo_byte sp) s)"
  by (simp add: setsp_def lo_byte_def hi_byte_def)

lemma getsp_setsp: "getsp (setsp sp s) = sp"
  using mem.word_after_write [of SP_LO sp s] by (simp add: getsp_eq setsp_eq del: mem_upd_simps)

end
