(* ===== verification/Flags.thy ===== *)
theory Flags
  imports Machine
begin

text \<open>
  The flag helpers at the top of \<open>instr.c\<close>. An instruction does not write the status
  register itself: it collects a mask of flags to set and a mask of flags to clear, and
  \<open>emulate1\<close> applies both. The helpers are modelled on that pair; the arithmetic
  meaning of what they compute is stated over the register read as eight truth values.
\<close>

unbundle bit_operations_syntax

section \<open>The pair of masks\<close>

type_synonym flags = "u8 \<times> u8"

text \<open>The statement \<open>if (c) *set |= m; else *clr |= m;\<close> that every helper repeats, and
  the test whether of two flags just decided one is set and the other cleared.\<close>

definition put_flag :: "bool \<Rightarrow> u8 \<Rightarrow> flags \<Rightarrow> flags" where
  "put_flag c m fl = (if c then (fst fl OR m, snd fl) else (fst fl, snd fl OR m))"

definition flags_differ :: "u8 \<Rightarrow> u8 \<Rightarrow> flags \<Rightarrow> bool" where
  "flags_differ a b fl \<longleftrightarrow>
     (fst fl AND a \<noteq> 0 \<and> snd fl AND b \<noteq> 0) \<or> (snd fl AND a \<noteq> 0 \<and> fst fl AND b \<noteq> 0)"

section \<open>The helpers\<close>

text \<open>Each helper updates the pair it is given; \<open>emulate1\<close> starts it at
  \<open>(0, 0)\<close>.\<close>

definition asr_flags8 :: "u8 \<Rightarrow> u8 \<Rightarrow> flags \<Rightarrow> flags" where
  "asr_flags8 res rd fl =
     (let fl = put_flag (res AND 0x80 \<noteq> 0) SREG_N fl;
          fl = put_flag (res = 0) SREG_Z fl;
          fl = put_flag (rd AND 0x1 \<noteq> 0) SREG_C fl;
          fl = put_flag (flags_differ SREG_C SREG_N fl) SREG_V fl
      in put_flag (flags_differ SREG_V SREG_N fl) SREG_S fl)"

definition logic_flags8 :: "u8 \<Rightarrow> flags \<Rightarrow> flags" where
  "logic_flags8 result fl =
     (let fl = (fst fl, SREG_V);
          fl = put_flag (result AND 0x80 \<noteq> 0) (SREG_N OR SREG_S) fl
      in put_flag (result = 0) SREG_Z fl)"

definition mul_flags16 :: "u16 \<Rightarrow> flags \<Rightarrow> flags" where
  "mul_flags16 res fl =
     (let fl = put_flag (res AND 0x8000 \<noteq> 0) SREG_C fl
      in put_flag (res = 0) SREG_Z fl)"

definition fmul_flags16 :: "u16 \<Rightarrow> flags \<Rightarrow> flags" where
  "fmul_flags16 res fl =
     (let fl = put_flag (res AND 0x8000 \<noteq> 0) SREG_C fl;
          res = push_bit 1 res
      in put_flag (res = 0) SREG_Z fl)"

definition adc_flags8 :: "u8 \<Rightarrow> u8 \<Rightarrow> u8 \<Rightarrow> flags \<Rightarrow> flags" where
  "adc_flags8 res rd rr fl =
     (let fl = put_flag (res AND 0x80 \<noteq> 0) SREG_N fl;
          fl = put_flag (0x80 AND rd AND rr AND NOT res \<noteq> 0 \<or>
                         0x80 AND NOT rd AND NOT rr AND res \<noteq> 0) SREG_V fl;
          fl = put_flag (flags_differ SREG_N SREG_V fl) SREG_S fl;
          fl = put_flag (res = 0) SREG_Z fl;
          fl = put_flag (0x80 AND rd AND rr \<noteq> 0 \<or> 0x80 AND rr AND NOT res \<noteq> 0 \<or>
                         0x80 AND NOT res AND rd \<noteq> 0) SREG_C fl
      in put_flag (0x08 AND rd AND rr \<noteq> 0 \<or> 0x08 AND rr AND NOT res \<noteq> 0 \<or>
                   0x08 AND NOT res AND rd \<noteq> 0) SREG_H fl)"

definition adiw_flags16 :: "u16 \<Rightarrow> u16 \<Rightarrow> flags \<Rightarrow> flags" where
  "adiw_flags16 res rd fl =
     (let fl = put_flag (res AND 0x8000 \<noteq> 0) SREG_N fl;
          fl = put_flag (0x8000 AND NOT rd AND res \<noteq> 0) SREG_V fl;
          fl = put_flag (flags_differ SREG_N SREG_V fl) SREG_S fl;
          fl = put_flag (res = 0) SREG_Z fl
      in put_flag (0x8000 AND NOT res AND rd \<noteq> 0) SREG_C fl)"

definition sub_flags8 :: "u8 \<Rightarrow> u8 \<Rightarrow> u8 \<Rightarrow> flags \<Rightarrow> flags" where
  "sub_flags8 res rd rr fl =
     (let fl = put_flag (res AND 0x80 \<noteq> 0) SREG_N fl;
          fl = put_flag (0x80 AND rd AND NOT rr AND NOT res \<noteq> 0 \<or>
                         0x80 AND NOT rd AND rr AND res \<noteq> 0) SREG_V fl;
          fl = put_flag (flags_differ SREG_N SREG_V fl) SREG_S fl;
          fl = put_flag (res = 0) SREG_Z fl;
          fl = put_flag (0x80 AND NOT rd AND rr \<noteq> 0 \<or> 0x80 AND rr AND res \<noteq> 0 \<or>
                         0x80 AND res AND NOT rd \<noteq> 0) SREG_C fl
      in put_flag (0x08 AND NOT rd AND rr \<noteq> 0 \<or> 0x08 AND rr AND res \<noteq> 0 \<or>
                   0x08 AND res AND NOT rd \<noteq> 0) SREG_H fl)"

text \<open>The two assignments with which \<open>emulate1\<close> applies the collected masks.\<close>

definition sreg_after :: "flags \<Rightarrow> u8 \<Rightarrow> u8" where
  "sreg_after fl sreg = (sreg AND NOT (snd fl)) OR fst fl"

section \<open>The contract of the helpers\<close>

text \<open>
  Every helper decides each flag of a fixed mask exactly once: the flags to set and the flags to
  clear are disjoint and together make up the mask. This is what the overlap \<open>ASSERT\<close> of
  \<open>emulate1\<close> relies on, and it means that the old register is read at the other flags
  only.
\<close>

named_theorems flag_eqs \<open>what a step of a flag helper does to the pair of masks\<close>

definition flags_cover :: "flags \<Rightarrow> u8" where
  "flags_cover fl = fst fl OR snd fl"

definition flags_disjoint :: "flags \<Rightarrow> bool" where
  "flags_disjoint fl \<longleftrightarrow> fst fl AND snd fl = 0"

lemma flags_cover_put [flag_eqs]: "flags_cover (put_flag c m fl) = flags_cover fl OR m"
  by (simp add: flags_cover_def put_flag_def or.assoc or.commute or.left_commute)

lemma flags_disjoint_put [flag_eqs]:
  "flags_cover fl AND m = 0 \<Longrightarrow> flags_disjoint (put_flag c m fl) \<longleftrightarrow> flags_disjoint fl"
  by (auto simp: flags_cover_def flags_disjoint_def put_flag_def word_bw_assocs
      bit.conj_disj_distrib bit.conj_disj_distrib2 and.commute or_eq_0_iff)

lemma flags_start [flag_eqs]:
  "flags_cover (a, b) = a OR b" "flags_disjoint (a, b) \<longleftrightarrow> a AND b = 0"
  by (simp_all add: flags_cover_def flags_disjoint_def)

lemma put_flag_bits [bit_eqs]:
  "bit (fst (put_flag c m fl)) i \<longleftrightarrow> bit (fst fl) i \<or> c \<and> bit m i"
  "bit (snd (put_flag c m fl)) i \<longleftrightarrow> bit (snd fl) i \<or> \<not> c \<and> bit m i"
  by (auto simp: put_flag_def bit_simps)

lemma bit_sreg_after [bit_eqs]:
  "i < 8 \<Longrightarrow> bit (sreg_after fl g) i \<longleftrightarrow> bit (fst fl) i \<or> bit g i \<and> \<not> bit (snd fl) i"
  by (auto simp: sreg_after_def bit_simps)

locale flag_routine =
  fixes out :: "'a \<Rightarrow> flags"
    and touched :: u8
  assumes cover: "flags_cover (out x) = touched"
    and disjoint: "flags_disjoint (out x)"
begin

lemma no_overlap: "snd (out x) AND fst (out x) = 0"
  using disjoint [of x] by (simp add: flags_disjoint_def and.commute)

lemma bit_cleared: "bit (snd (out x)) i \<longleftrightarrow> bit touched i \<and> \<not> bit (fst (out x)) i"
proof -
  have "bit (fst (out x) AND snd (out x)) i \<longleftrightarrow> False"
    using disjoint [of x] by (simp add: flags_disjoint_def)
  moreover have "bit touched i \<longleftrightarrow> bit (fst (out x)) i \<or> bit (snd (out x)) i"
    using cover [of x] by (auto simp: flags_cover_def bit_or_iff)
  ultimately show ?thesis by (auto simp: bit_and_iff)
qed

lemma untouched: "i < 8 \<Longrightarrow> \<not> bit touched i \<Longrightarrow> bit (sreg_after (out x) g) i = bit g i"
  using bit_cleared [of x i] cover [of x] by (auto simp: bit_sreg_after flags_cover_def bit_or_iff)

lemma decided: "i < 8 \<Longrightarrow> bit touched i \<Longrightarrow> bit (sreg_after (out x) g) i = bit (fst (out x)) i"
  using bit_cleared [of x i] by (auto simp: bit_sreg_after)

end

interpretation adc: flag_routine "\<lambda>(res, rd, rr). adc_flags8 res rd rr (0, 0)" "0x3f"
  by unfold_locales (auto simp: adc_flags8_def Let_def flag_eqs)

interpretation asr: flag_routine "\<lambda>(res, rd). asr_flags8 res rd (0, 0)" "0x1f"
  by unfold_locales (auto simp: asr_flags8_def Let_def flag_eqs)
interpretation logic: flag_routine "\<lambda>res. logic_flags8 res (0, 0)" "0x1e"
  by unfold_locales (auto simp: logic_flags8_def Let_def flag_eqs)

interpretation mul: flag_routine "\<lambda>res. mul_flags16 res (0, 0)" "0x03"
  by unfold_locales (auto simp: mul_flags16_def Let_def flag_eqs)

interpretation fmul: flag_routine "\<lambda>res. fmul_flags16 res (0, 0)" "0x03"
  by unfold_locales (auto simp: fmul_flags16_def Let_def flag_eqs)

interpretation adiw: flag_routine "\<lambda>(res, rd). adiw_flags16 res rd (0, 0)" "0x1f"
  by unfold_locales (auto simp: adiw_flags16_def Let_def flag_eqs)

interpretation sub: flag_routine "\<lambda>(res, rd, rr). sub_flags8 res rd rr (0, 0)" "0x3f"
  by unfold_locales (auto simp: sub_flags8_def Let_def flag_eqs)

section \<open>What the helpers compute, bit by bit\<close>

text \<open>The status register read as eight truth values.\<close>

record status =
  fC :: bool fZ :: bool fN :: bool fV :: bool fS :: bool fH :: bool fT :: bool fI :: bool

definition status_of :: "u8 \<Rightarrow> status" where
  "status_of w = \<lparr>fC = bit w 0, fZ = bit w 1, fN = bit w 2, fV = bit w 3, fS = bit w 4,
     fH = bit w 5, fT = bit w 6, fI = bit w 7\<rparr>"

lemma status_of_inject: "status_of v = status_of w \<longleftrightarrow> v = w"
proof
  assume *: "status_of v = status_of w"
  show "v = w"
  proof (rule bit_word_eqI)
    fix n assume "n < LENGTH(8)"
    then consider "n = 0" | "n = 1" | "n = 2" | "n = 3" | "n = 4" | "n = 5" | "n = 6" | "n = 7"
      by (auto simp: less_Suc_eq numeral_eq_Suc)
    then show "bit v n \<longleftrightarrow> bit w n"
      using * by cases (simp_all add: status_of_def)
  qed
qed simp

lemma adc_flags8_bits:
  "status_of (sreg_after (adc_flags8 res rd rr (0,0)) g) = 
    (let N = bit res 7; V = (bit rd 7 \<and> bit rr 7 \<and> \<not> bit res 7 \<or> \<not> bit rd 7 \<and> \<not> bit rr 7 \<and> bit res 7)
     in (status_of g)\<lparr>fC := bit rd 7 \<and> bit rr 7 \<or> bit rr 7 \<and> \<not> bit res 7 \<or> \<not> bit res 7 \<and> bit rd 7,
       fZ := res = 0, fN := N, fV := V, fS := N \<noteq> V,
       fH := bit rd 3 \<and> bit rr 3 \<or> bit rr 3 \<and> \<not> bit res 3 \<or> \<not> bit res 3 \<and> bit rd 3\<rparr>)"
  by (auto simp add: adc_flags8_def Let_def bit_eqs flags_differ_def bit_simps status_of_def)

lemma sub_flags8_bits:
  "status_of (sreg_after (sub_flags8 res rd rr (0, 0)) g) =
    (let N = bit res 7;
         V = (bit rd 7 \<and> \<not> bit rr 7 \<and> \<not> bit res 7 \<or> \<not> bit rd 7 \<and> bit rr 7 \<and> bit res 7)
     in (status_of g)\<lparr>fC := \<not> bit rd 7 \<and> bit rr 7 \<or> bit rr 7 \<and> bit res 7 \<or> bit res 7 \<and> \<not> bit rd 7,
       fZ := res = 0, fN := N, fV := V, fS := N \<noteq> V,
       fH := \<not> bit rd 3 \<and> bit rr 3 \<or> bit rr 3 \<and> bit res 3 \<or> bit res 3 \<and> \<not> bit rd 3\<rparr>)"
  by (auto simp: sub_flags8_def Let_def bit_eqs flags_differ_def bit_simps status_of_def)

lemma asr_flags8_bits:
  "status_of (sreg_after (asr_flags8 res rd (0, 0)) g) =
    (let N = bit res 7; C = bit rd 0; V = (C \<noteq> N)
     in (status_of g)\<lparr>fC := C, fZ := res = 0, fN := N, fV := V, fS := V \<noteq> N\<rparr>)"
  by (auto simp: asr_flags8_def Let_def bit_eqs flags_differ_def bit_simps status_of_def)

lemma logic_flags8_bits:
  "status_of (sreg_after (logic_flags8 res (0, 0)) g) =
    (status_of g)\<lparr>fZ := res = 0, fN := bit res 7, fV := False, fS := bit res 7\<rparr>"
  by (auto simp: logic_flags8_def Let_def bit_eqs bit_simps status_of_def)

lemma mul_flags16_bits:
  "status_of (sreg_after (mul_flags16 res (0, 0)) g) = (status_of g)\<lparr>fC := bit res 15, fZ := res = 0\<rparr>"
  by (auto simp: mul_flags16_def Let_def bit_eqs bit_simps status_of_def)

lemma fmul_flags16_bits:
  "status_of (sreg_after (fmul_flags16 res (0, 0)) g) =
    (status_of g)\<lparr>fC := bit res 15, fZ := push_bit 1 res = 0\<rparr>"
  by (auto simp: fmul_flags16_def Let_def bit_eqs bit_simps status_of_def)

lemma adiw_flags16_bits:
  "status_of (sreg_after (adiw_flags16 res rd (0, 0)) g) =
    (let N = bit res 15; V = (\<not> bit rd 15 \<and> bit res 15)
     in (status_of g)\<lparr>fC := \<not> bit res 15 \<and> bit rd 15, fZ := res = 0, fN := N, fV := V,
          fS := N \<noteq> V\<rparr>)"
  by (auto simp: adiw_flags16_def Let_def bit_eqs flags_differ_def bit_simps status_of_def)

section \<open>What the helpers mean\<close>

text \<open>
  The reference: the flags of the AVR instruction set in terms of the unbounded sum or
  difference. Carry and half carry say that it leaves the unsigned range of 8 (or 4, or 16)
  bits, \<open>fV\<close> that it leaves the two's complement range, and \<open>fS\<close> is its true sign.
\<close>

definition add_status :: "u8 \<Rightarrow> u8 \<Rightarrow> bool \<Rightarrow> status \<Rightarrow> status" where
  "add_status a b c st =
     (let u = unat a + unat b + of_bool c; t = sint a + sint b + of_bool c
      in st\<lparr>fC := 256 \<le> u, fZ := u mod 256 = 0, fN := 128 \<le> u mod 256,
            fV := t < -128 \<or> 128 \<le> t, fS := t < 0,
            fH := 16 \<le> unat a mod 16 + unat b mod 16 + of_bool c\<rparr>)"

definition sub_status :: "u8 \<Rightarrow> u8 \<Rightarrow> bool \<Rightarrow> status \<Rightarrow> status" where
  "sub_status a b c st =
     (let u = uint a - uint b - of_bool c; t = sint a - sint b - of_bool c
      in st\<lparr>fC := u < 0, fZ := u mod 256 = 0, fN := 128 \<le> u mod 256,
            fV := t < -128 \<or> 128 \<le> t, fS := t < 0,
            fH := unat a mod 16 < unat b mod 16 + of_bool c\<rparr>)"

definition adiw_status :: "u16 \<Rightarrow> u16 \<Rightarrow> status \<Rightarrow> status" where
  "adiw_status a k st =
     (let u = unat a + unat k; t = sint a + sint k
      in st\<lparr>fC := 65536 \<le> u, fZ := u mod 65536 = 0, fN := 32768 \<le> u mod 65536,
            fV := t < -32768 \<or> 32768 \<le> t, fS := t < 0\<rparr>)"

definition sbiw_status :: "u16 \<Rightarrow> u16 \<Rightarrow> status \<Rightarrow> status" where
  "sbiw_status a k st =
     (let u = uint a - uint k; t = sint a - sint k
      in st\<lparr>fC := u < 0, fZ := u mod 65536 = 0, fN := 32768 \<le> u mod 65536,
            fV := t < -32768 \<or> 32768 \<le> t, fS := t < 0\<rparr>)"

lemma adc_flags8_arith:
  "status_of (sreg_after (adc_flags8 (a + b + of_bool c) a b (0, 0)) g) =
     add_status a b c (status_of g)"
proof -
  let ?r = "a + b + of_bool c :: u8" and ?c = "of_bool c :: nat"
  have b: "unat a < 2 * 128" "unat b < 2 * 128" "?c \<le> 1"
    using unat_u8_less [of a] unat_u8_less [of b] by simp_all
  have r: "unat ?r = (unat a + unat b + ?c) mod (2 * 128)"
    by (simp add: unat_add_carry)
  have r16: "unat ?r mod 16 = (unat a mod 16 + unat b mod 16 + ?c) mod (2 * 8)"
    using low_nibble_add [of "unat a" "unat b" ?c] by (simp add: r)
  have "int ?c = of_bool c" by simp
  note full = carry_nat [OF b r] signed_carry_nat [OF b r]
  note half = carry_nat [OF _ _ b(3) r16]
  show ?thesis
    unfolding adc_flags8_bits add_status_def Let_def bit_u8_7 bit_u8_3 sint_u8 zero_u8_iff
    using full half by (simp add: r)
qed

lemma sub_flags8_arith:
  "status_of (sreg_after (sub_flags8 (a - b - of_bool c) a b (0, 0)) g) =
     sub_status a b c (status_of g)"
proof -
  let ?r = "a - b - of_bool c :: u8" and ?c = "of_bool c :: nat"
  have b: "unat a < 2 * 128" "unat b < 2 * 128" "unat ?r < 2 * 128" "?c \<le> 1"
    using unat_u8_less [of a] unat_u8_less [of b] unat_u8_less [of ?r] by simp_all
  have "a = ?r + b + of_bool c" by simp
  then have a: "unat a = (unat ?r + unat b + ?c) mod (2 * 128)"
    using unat_add_carry [of ?r b c] by simp
  have a16: "unat a mod 16 = (unat ?r mod 16 + unat b mod 16 + ?c) mod (2 * 8)"
    using low_nibble_add [of "unat ?r" "unat b" ?c] by (subst a) simp
  have N: "128 \<le> unat ?r \<longleftrightarrow> 128 \<le> (uint a - uint b - of_bool c) mod 256"
    using uint_nat [of ?r] uint_sub_borrow [of a b c] by linarith
  have Z: "?r = 0 \<longleftrightarrow> (uint a - uint b - of_bool c) mod 256 = 0"
    unfolding uint_sub_borrow [symmetric] by (rule uint_0_iff [symmetric])
  note C = uint_borrow_iff [of a b c]
  note full = carry_nat [OF b(3,2,4) a] borrow_nat [OF b(1,2,4,3) a] signed_borrow_nat [OF b a]
  have "unat a mod 16 < 2 * 8" "unat b mod 16 < 2 * 8" "unat ?r mod 16 < 2 * 8" by simp_all
  note half = carry_nat [OF this(3,2) b(4) a16] borrow_nat [OF this(1,2) b(4) this(3) a16]
  have fC: "(\<not> 128 \<le> unat a \<and> 128 \<le> unat b \<or> 128 \<le> unat b \<and> 128 \<le> unat ?r \<or>
      128 \<le> unat ?r \<and> \<not> 128 \<le> unat a) = (uint a - uint b - of_bool c < 0)"
    using full(1,2) C by blast
  have fH: "(\<not> 8 \<le> unat a mod 16 \<and> 8 \<le> unat b mod 16 \<or>
      8 \<le> unat b mod 16 \<and> 8 \<le> unat ?r mod 16 \<or>
      8 \<le> unat ?r mod 16 \<and> \<not> 8 \<le> unat a mod 16) = (unat a mod 16 < unat b mod 16 + ?c)"
    using half by blast
  show ?thesis
    unfolding sub_flags8_bits sub_status_def Let_def bit_u8_7 bit_u8_3 sint_u8 fC fH Z
    using full(3,4) N by (simp only: of_nat_of_bool of_nat_numeral)
qed
lemma adiw_flags16_arith:
  assumes "unat k < 32768"
  shows "status_of (sreg_after (adiw_flags16 (a + k) a (0, 0)) g) = adiw_status a k (status_of g)"
proof -
  have b: "unat a < 2 * 32768" "unat k < 2 * 32768" "(0::nat) \<le> 1"
    using unat_u16_less [of a] unat_u16_less [of k] by simp_all
  have r: "unat (a + k) = (unat a + unat k + 0) mod (2 * 32768)"
    by (simp add: unat_word_ariths)
  have Z: "a + k = 0 \<longleftrightarrow> (unat a + unat k) mod 65536 = 0"
    using r unat_eq_0 [of "a + k"] by simp
  show ?thesis
    unfolding adiw_flags16_bits adiw_status_def Let_def bit_u16_15 sint_u16 Z
    using carry_nat [OF b r] signed_carry_nat [OF b r] assms by (simp add: r)
qed

end
