(* ===== verification/Handler.thy ===== *)
theory Handler
  imports Flags
begin

text \<open>
  The interface between the dispatcher and the instruction handlers: the decoded operands
  (\<open>struct instr_decode_common\<close> of \<open>instr.h\<close>), the type of a handler, and the
  contract that \<open>emulate1\<close> relies on for every one of them.
\<close>

unbundle bit_operations_syntax

section \<open>Decoded operands\<close>

record instr_decode_common =
  instr :: u16
  ddddd :: u8
  rrrrr :: u8
  imm_u8 :: u8
  imm_u16 :: u16
  setflags :: u8
  clrflags :: u8

type_synonym idc = instr_decode_common

text \<open>A handler changes the decoded record (its two flag masks) and the machine, or aborts.\<close>

type_synonym handler = "idc \<Rightarrow> machine \<Rightarrow> fault + (idc \<times> machine)"

text \<open>A helper called with \<open>&idc->setflags, &idc->clrflags\<close>.\<close>

definition update_flags :: "(flags \<Rightarrow> flags) \<Rightarrow> idc \<Rightarrow> idc" where
  "update_flags f idc =
     (let fl = f (setflags idc, clrflags idc)
      in idc\<lparr>setflags := fst fl, clrflags := snd fl\<rparr>)"

definition idc_flags :: "idc \<Rightarrow> flags" where
  "idc_flags idc = (setflags idc, clrflags idc)"

lemma flag_fields_update [simp]:
  "setflags (update_flags f idc) = fst (f (setflags idc, clrflags idc))"
  "clrflags (update_flags f idc) = snd (f (setflags idc, clrflags idc))"
  by (simp_all add: update_flags_def Let_def)

lemma update_flags_sel [simp]:
  "instr (update_flags f idc) = instr idc" "ddddd (update_flags f idc) = ddddd idc"
  "rrrrr (update_flags f idc) = rrrrr idc"
  by (simp_all add: update_flags_def Let_def)

section \<open>The contract\<close>

text \<open>
  What a handler may not touch: flash, the machine model, the counters, the position of the
  current instruction, and everything that belongs to the debugger and the trace.
\<close>

definition same_frame :: "machine \<Rightarrow> machine \<Rightarrow> bool" where
  "same_frame s t \<longleftrightarrow>
     flash t = flash s \<and> pc22 t = pc22 s \<and> pc_mem_max_64k t = pc_mem_max_64k s \<and>
     pc_mem_max_256b t = pc_mem_max_256b s \<and> pc_start t = pc_start s \<and>
     instr_size t = instr_size s \<and> insns t = insns s \<and> insnlimit t = insnlimit s \<and>
     insnreplaylim t = insnreplaylim s \<and> off t = off s \<and> replay_mode t = replay_mode s \<and>
     stepone t = stepone s \<and> tracehex t = tracehex s \<and> tracefile t = tracefile s"

text \<open>A handler that asks to skip the next instruction does not jump.\<close>

definition skip_ok :: "machine \<Rightarrow> machine \<Rightarrow> bool" where
  "skip_ok s t \<longleftrightarrow>
     (skip_next_instruction t \<longrightarrow> skip_next_instruction s \<or> pc t = pc s)"

text \<open>
  A handler aborts only through \<open>illins\<close> or \<open>unhandled\<close> on its own instruction word,
  keeps the frame, and, started with empty masks, leaves disjoint ones.
\<close>

locale instr_handler =
  fixes h :: handler
  assumes aborts: "h idc s = Inl e \<Longrightarrow> e = illins (instr idc) s \<or> e = unhandled (instr idc) s"
    and frame: "h idc s = Inr (idc', s') \<Longrightarrow> same_frame s s'"
    and skip: "h idc s = Inr (idc', s') \<Longrightarrow> skip_ok s s'"
    and flags: "h idc s = Inr (idc', s') \<Longrightarrow> idc_flags idc = (0, 0) \<Longrightarrow>
      flags_disjoint (idc_flags idc')"
begin

lemma no_overlap:
  assumes "h idc s = Inr (idc', s')" and "idc_flags idc = (0, 0)"
  shows "clrflags idc' AND setflags idc' = 0"
  using flags [OF assms] by (simp add: flags_disjoint_def idc_flags_def and.commute)

lemma total:
  "(\<exists>idc' s'. h idc s = Inr (idc', s') \<and> same_frame s s') \<or>
   h idc s = Inl (illins (instr idc) s) \<or> h idc s = Inl (unhandled (instr idc) s)"
proof (cases "h idc s")
  case (Inl e)
  then show ?thesis using aborts by blast
next
  case (Inr r)
  then obtain idc' s' where "h idc s = Inr (idc', s')" by (cases r) auto
  then show ?thesis using frame by blast
qed

end

text \<open>Most handlers are total: a value is returned, masks and frame are as required.\<close>

lemma instr_handler_total:
  assumes "\<And>idc s. \<exists>idc' s'. h idc s = Inr (idc', s') \<and> same_frame s s' \<and> skip_ok s s' \<and>
    (idc_flags idc = (0, 0) \<longrightarrow> flags_disjoint (idc_flags idc'))"
  shows "instr_handler h"
proof unfold_locales
  fix idc s e assume "h idc s = Inl e"
  with assms [of idc s] show "e = illins (instr idc) s \<or> e = unhandled (instr idc) s" by auto
next
  fix idc s idc' s' assume "h idc s = Inr (idc', s')"
  with assms [of idc s] show "same_frame s s'" by auto
next
  fix idc s idc' s' assume "h idc s = Inr (idc', s')"
  with assms [of idc s] show "skip_ok s s'" by auto
next
  fix idc s idc' s' assume "h idc s = Inr (idc', s')" "idc_flags idc = (0, 0)"
  with assms [of idc s] show "flags_disjoint (idc_flags idc')" by auto
qed

lemma skip_ok_simps [simp]:
  "skip_ok s s"
  "skip_ok s (mem_upd i v t) \<longleftrightarrow> skip_ok s t"
  "skip_ok (mem_upd i v s) t \<longleftrightarrow> skip_ok s t"
  "skip_ok s (setsp sp t) \<longleftrightarrow> skip_ok s t"
  "skip_ok s (t\<lparr>memory := m\<rparr>) \<longleftrightarrow> skip_ok s t"
  "skip_ok s (t\<lparr>skip_next_instruction := b\<rparr>) \<longleftrightarrow>
     (b \<longrightarrow> skip_next_instruction s \<or> pc t = pc s)"
  by (auto simp: skip_ok_def setsp_def)

lemma skip_ok_jump: "skip_next_instruction t = skip_next_instruction s \<Longrightarrow> skip_ok s (t\<lparr>pc := x\<rparr>)"
  by (simp add: skip_ok_def)

lemma skip_next_setsp [simp]: "skip_next_instruction (setsp sp s) = skip_next_instruction s"
  "pc (setsp sp s) = pc s"
  by (simp_all add: setsp_def)

named_theorems flags_ok \<open>pairs of masks that never overlap\<close>

lemma helper_disjoint [flags_ok]:
  "flags_disjoint (adc_flags8 res rd rr (0, 0))"
  "flags_disjoint (sub_flags8 res rd rr (0, 0))"
  "flags_disjoint (asr_flags8 res rd (0, 0))"
  "flags_disjoint (logic_flags8 res (0, 0))"
  "flags_disjoint (mul_flags16 w (0, 0))"
  "flags_disjoint (fmul_flags16 w (0, 0))"
  "flags_disjoint (adiw_flags16 w v (0, 0))"
  using adc.disjoint [of "(res, rd, rr)"] sub.disjoint [of "(res, rd, rr)"]
    asr.disjoint [of "(res, rd)"] logic.disjoint [of res] mul.disjoint [of w] fmul.disjoint [of w]
    adiw.disjoint [of "(w, v)"]
  by simp_all

lemma flags_disjoint_masked [flags_ok]:
  "flags_disjoint fl \<Longrightarrow> flags_disjoint (fst fl AND m, snd fl)"
  using and.assoc [of m "fst fl" "snd fl"]
  by (simp add: flags_disjoint_def and.commute [of "fst fl" m])

lemma flags_disjoint_zero [flags_ok]: "flags_disjoint (a, 0)" "flags_disjoint (0, b)"
  by (simp_all add: flags_disjoint_def)

lemma same_frame_refl [simp]: "same_frame s s"
  by (simp add: same_frame_def)

lemma same_frame_trans: "same_frame s t \<Longrightarrow> same_frame t u \<Longrightarrow> same_frame s u"
  by (simp add: same_frame_def)

lemma same_frame_mem_upd [simp]:
  "same_frame s (mem_upd i v t) \<longleftrightarrow> same_frame s t"
  "same_frame (mem_upd i v s) t \<longleftrightarrow> same_frame s t"
  by (simp_all add: same_frame_def)

lemma same_frame_setsp [simp]: "same_frame s (setsp sp t) \<longleftrightarrow> same_frame s t"
  by (simp add: setsp_def)

lemma same_frame_pc [simp]: "same_frame s (t\<lparr>pc := x\<rparr>) \<longleftrightarrow> same_frame s t"
  by (simp add: same_frame_def)

lemma same_frame_skip [simp]: "same_frame s (t\<lparr>skip_next_instruction := x\<rparr>) \<longleftrightarrow> same_frame s t"
  by (simp add: same_frame_def)

lemma same_frame_memory [simp]: "same_frame s (t\<lparr>memory := m\<rparr>) \<longleftrightarrow> same_frame s t"
  by (simp add: same_frame_def)

text \<open>The pair registers of ADIW and SBIW are even.\<close>

lemma even_ucast_and_6: "even (ucast (w AND 6 :: u16) :: u8)"
proof -
  have "\<not> bit (ucast (w AND 6) :: u8) 0" by (simp add: bit_simps)
  then show ?thesis by (simp add: bit_0)
qed

lemmas handler_eqs = Let_def skip_ok_jump flags_ok memword_pair memwriteword_pair idc_flags_def even_ucast_and_6

end
