(* ===== verification/Instr_Alu.thy ===== *)
theory Instr_Alu
  imports Handler
begin

text \<open>
  The register-to-register handlers of \<open>instr.c\<close>: arithmetic, logic, shifts,
  multiplication, moves between registers, the status-bit instructions and DES.
  Every handler reads the register file and the status register in data memory, as the C
  code does, and records its flags in the decoded operands.
\<close>

unbundle bit_operations_syntax

section \<open>Addition and subtraction\<close>

definition instr_adc :: handler where
  "instr_adc idc s =
     (let carry_mode = bits (instr idc) 12 12 \<noteq> 0;
          rr = memory s (unat (rrrrr idc));
          rd = memory s (unat (ddddd idc));
          res = rd + rr;
          res = (if carry_mode \<and> memory s SREG AND SREG_C \<noteq> 0 then res + 1 else res);
          s = mem_upd (unat (ddddd idc)) res s
      in Inr (update_flags (adc_flags8 res rd rr) idc, s))"

definition instr_adiw :: handler where
  "instr_adiw idc s =
     (let dd = 24 + ucast (drop_bit 3 (bits (instr idc) 5 4)) :: u8;
          imm = drop_bit 2 (bits (instr idc) 7 6) OR bits (instr idc) 3 0
      in bindR (memword (ucast dd) s) (\<lambda>rd.
         let res = rd + imm
         in bindR (memwriteword (ucast dd) res s) (\<lambda>s.
            Inr (update_flags (adiw_flags16 res rd) idc, s))))"

text \<open>CP, CPC, SUB, SBC: the zero flag is never set, only cleared.\<close>

definition instr_cpc :: handler where
  "instr_cpc idc s =
     (let carry_mode = (bits (instr idc) 12 12 = 0);
          nostore = (drop_bit 10 (bits (instr idc) 11 10) = 1);
          rr = memory s (unat (rrrrr idc));
          rd = memory s (unat (ddddd idc));
          res = rd - rr;
          res = (if carry_mode \<and> memory s SREG AND SREG_C \<noteq> 0 then res - 1 else res);
          s = (if \<not> nostore then mem_upd (unat (ddddd idc)) res s else s);
          idc = update_flags (sub_flags8 res rd rr) idc
      in Inr (idc\<lparr>setflags := setflags idc AND NOT SREG_Z\<rparr>, s))"

text \<open>CPI, SBCI, SUBI.\<close>

definition instr_cpi :: handler where
  "instr_cpi idc s =
     (let store = (drop_bit 13 (bits (instr idc) 14 13) = 2);
          carry = (bits (instr idc) 12 12 = 0);
          rd = memory s (unat (ddddd idc));
          res = rd - imm_u8 idc;
          res = (if carry \<and> memory s SREG AND SREG_C \<noteq> 0 then res - 1 else res);
          s = (if store then mem_upd (unat (ddddd idc)) res s else s)
      in Inr (update_flags (sub_flags8 res rd (imm_u8 idc)) idc, s))"

definition sbiw_flags16 :: "u16 \<Rightarrow> u16 \<Rightarrow> flags \<Rightarrow> flags" where
  "sbiw_flags16 res rd fl =
     (let fl = put_flag (res = 0) SREG_Z fl;
          fl = put_flag (0x8000 AND res AND NOT rd \<noteq> 0) SREG_C fl;
          fl = put_flag (0x8000 AND res \<noteq> 0) SREG_N fl;
          fl = put_flag (0x8000 AND rd AND NOT res \<noteq> 0) SREG_V fl
      in put_flag (flags_differ SREG_N SREG_V fl) SREG_S fl)"

definition instr_sbiw :: handler where
  "instr_sbiw idc s =
     (let d = ucast (drop_bit 3 (bits (instr idc) 5 4)) + 24 :: u8;
          K = ucast (drop_bit 2 (bits (instr idc) 7 6) OR bits (instr idc) 3 0) :: u8
      in bindR (memword (ucast d) s) (\<lambda>rd.
         let res = rd - ucast K
         in bindR (memwriteword (ucast d) res s) (\<lambda>s.
            Inr (update_flags (sbiw_flags16 res rd) idc, s))))"

definition neg_flags8 :: "u8 \<Rightarrow> u8 \<Rightarrow> flags \<Rightarrow> flags" where
  "neg_flags8 res rd fl =
     (let fl = (if res = 0 then (fst fl OR SREG_Z, snd fl OR SREG_C)
                else (fst fl OR SREG_C, snd fl OR SREG_Z));
          fl = put_flag (res AND 0x80 \<noteq> 0) SREG_N fl;
          fl = put_flag (res = 0x80) SREG_V fl;
          fl = put_flag (res AND 0x08 \<noteq> 0 \<or> rd AND 0x08 \<noteq> 0) SREG_H fl
      in put_flag (flags_differ SREG_N SREG_V fl) SREG_S fl)"

definition instr_neg :: handler where
  "instr_neg idc s =
     (let rd = memory s (unat (ddddd idc));
          res = ucast ((0 - ucast rd :: u32) AND 0xff) :: u8;
          s = mem_upd (unat (ddddd idc)) res s
      in Inr (update_flags (neg_flags8 res rd) idc, s))"

definition instr_inc :: handler where
  "instr_inc idc s =
     (let res = memory s (unat (ddddd idc)) + 1;
          s = mem_upd (unat (ddddd idc)) res s;
          idc = update_flags (logic_flags8 res) idc
      in Inr (if res = 0x80 then
                idc\<lparr>clrflags := clrflags idc AND NOT SREG_V OR SREG_S,
                    setflags := setflags idc AND NOT SREG_S OR SREG_V\<rparr>
              else idc, s))"

definition instr_dec :: handler where
  "instr_dec idc s =
     (let res = memory s (unat (ddddd idc)) - 1;
          s = mem_upd (unat (ddddd idc)) res s;
          idc = update_flags (logic_flags8 res) idc
      in Inr (if res = 0x7f then
                idc\<lparr>clrflags := clrflags idc AND NOT (SREG_V OR SREG_S),
                    setflags := setflags idc OR (SREG_V OR SREG_S)\<rparr>
              else idc, s))"

section \<open>Logic\<close>

definition instr_and :: handler where
  "instr_and idc s =
     (let s = mem_upd (unat (ddddd idc))
            (memory s (unat (ddddd idc)) AND memory s (unat (rrrrr idc))) s
      in Inr (update_flags (logic_flags8 (memory s (unat (ddddd idc)))) idc, s))"

definition instr_andi :: handler where
  "instr_andi idc s =
     (let s = mem_upd (unat (ddddd idc)) (memory s (unat (ddddd idc)) AND imm_u8 idc) s
      in Inr (update_flags (logic_flags8 (memory s (unat (ddddd idc)))) idc, s))"

definition instr_or :: handler where
  "instr_or idc s =
     (let s = mem_upd (unat (ddddd idc))
            (memory s (unat (ddddd idc)) OR memory s (unat (rrrrr idc))) s
      in Inr (update_flags (logic_flags8 (memory s (unat (ddddd idc)))) idc, s))"

definition instr_ori :: handler where
  "instr_ori idc s =
     (let s = mem_upd (unat (ddddd idc)) (memory s (unat (ddddd idc)) OR imm_u8 idc) s
      in Inr (update_flags (logic_flags8 (memory s (unat (ddddd idc)))) idc, s))"

definition instr_xor :: handler where
  "instr_xor idc s =
     (let s = mem_upd (unat (ddddd idc))
            (memory s (unat (ddddd idc)) XOR memory s (unat (rrrrr idc))) s
      in Inr (update_flags (logic_flags8 (memory s (unat (ddddd idc)))) idc, s))"

definition com_flags8 :: "u8 \<Rightarrow> flags \<Rightarrow> flags" where
  "com_flags8 res fl =
     (let fl = (fst fl OR SREG_C, snd fl OR SREG_V);
          fl = put_flag (res = 0) SREG_Z fl
      in put_flag (res AND 0x80 \<noteq> 0) (SREG_N OR SREG_S) fl)"

definition instr_com :: handler where
  "instr_com idc s =
     (let res = 0xff - memory s (unat (ddddd idc));
          s = mem_upd (unat (ddddd idc)) res s
      in Inr (update_flags (com_flags8 res) idc, s))"

section \<open>Shifts and moves\<close>

definition instr_asr :: handler where
  "instr_asr idc s =
     (let rd = memory s (unat (ddddd idc));
          res = drop_bit 1 rd OR (0x80 AND rd);
          s = mem_upd (unat (ddddd idc)) res s
      in Inr (update_flags (asr_flags8 res rd) idc, s))"

definition instr_lsr :: handler where
  "instr_lsr idc s =
     (let rd = memory s (unat (ddddd idc));
          res = drop_bit 1 rd;
          s = mem_upd (unat (ddddd idc)) res s
      in Inr (update_flags (asr_flags8 res rd) idc, s))"

definition instr_ror :: handler where
  "instr_ror idc s =
     (let rd = memory s (unat (ddddd idc));
          res = drop_bit 1 rd;
          res = (if memory s SREG AND SREG_C \<noteq> 0 then res OR 0x80 else res);
          s = mem_upd (unat (ddddd idc)) res s
      in Inr (update_flags (asr_flags8 res rd) idc, s))"

definition instr_swap :: handler where
  "instr_swap idc s =
     (let rd = memory s (unat (ddddd idc))
      in Inr (idc, mem_upd (unat (ddddd idc)) (drop_bit 4 rd OR push_bit 4 rd) s))"

definition instr_ldi :: handler where
  "instr_ldi idc s = Inr (idc, mem_upd (unat (ddddd idc)) (imm_u8 idc) s)"

definition instr_mov :: handler where
  "instr_mov idc s = Inr (idc, mem_upd (unat (ddddd idc)) (memory s (unat (rrrrr idc))) s)"

definition instr_movw :: handler where
  "instr_movw idc s =
     (let DDDD = push_bit 1 (ddddd idc - 16);
          RRRR = push_bit 1 (rrrrr idc - 16)
      in bindR (memword (ucast RRRR) s) (\<lambda>w.
         bindR (memwriteword (ucast DDDD) w s) (\<lambda>s. Inr (idc, s))))"

definition instr_nop :: handler where
  "instr_nop idc s = Inr (idc, s)"

section \<open>Multiplication\<close>

definition instr_mul :: handler where
  "instr_mul idc s =
     (let res = ucast (memory s (unat (ddddd idc))) * ucast (memory s (unat (rrrrr idc))) :: u16
      in bindR (memwriteword 0 res s) (\<lambda>s. Inr (update_flags (mul_flags16 res) idc, s)))"

definition instr_muls :: handler where
  "instr_muls idc s =
     (let rd = scast (memory s (unat (ddddd idc))) :: u16;
          rs = scast (memory s (unat (rrrrr idc))) :: u16;
          res = rd * rs
      in bindR (memwriteword 0 res s) (\<lambda>s. Inr (update_flags (mul_flags16 res) idc, s)))"

definition instr_mulsu :: handler where
  "instr_mulsu idc s =
     (let rd = scast (memory s (unat (ddddd idc))) :: u16;
          rs = ucast (memory s (unat (rrrrr idc))) :: u16;
          res = rd * rs
      in bindR (memwriteword 0 res s) (\<lambda>s. Inr (update_flags (mul_flags16 res) idc, s)))"

definition instr_fmul :: handler where
  "instr_fmul idc s =
     (let res = ucast (memory s (unat (ddddd idc))) * ucast (memory s (unat (rrrrr idc))) :: u16;
          idc = update_flags (fmul_flags16 res) idc;
          res = push_bit 1 res
      in bindR (memwriteword 0 res s) (\<lambda>s. Inr (idc, s)))"

definition instr_fmulsu :: handler where
  "instr_fmulsu idc s =
     (let su = bits (instr idc) 3 3 \<noteq> 0;
          rd = scast (memory s (unat (ddddd idc))) :: u16;
          rr = (if su then ucast (memory s (unat (rrrrr idc)))
                else scast (memory s (unat (rrrrr idc)))) :: u16;
          res = rd * rr;
          idc = update_flags (fmul_flags16 res) idc;
          res = push_bit 1 res
      in bindR (memwriteword 0 res s) (\<lambda>s. Inr (idc, s)))"

section \<open>Status bits\<close>

definition instr_bclrset :: handler where
  "instr_bclrset idc s =
     (let sss = ddddd idc - 16;
          clr = instr idc AND 0x80 \<noteq> 0
      in Inr (if clr then idc\<lparr>clrflags := clrflags idc OR push_bit (unat sss) 1\<rparr>
              else idc\<lparr>setflags := setflags idc OR push_bit (unat sss) 1\<rparr>, s))"

definition instr_bld :: handler where
  "instr_bld idc s =
     (let sss = rrrrr idc - 16;
          rd = memory s (unat (ddddd idc))
      in Inr (idc, mem_upd (unat (ddddd idc))
           (if memory s SREG AND SREG_T \<noteq> 0 then rd OR push_bit (unat sss) 1
            else rd AND NOT (push_bit (unat sss) 1)) s))"

definition instr_bst :: handler where
  "instr_bst idc s =
     (let sss = rrrrr idc - 16
      in Inr (if memory s (unat (ddddd idc)) AND push_bit (unat sss) 1 \<noteq> 0
              then idc\<lparr>setflags := setflags idc OR SREG_T\<rparr>
              else idc\<lparr>clrflags := clrflags idc OR SREG_T\<rparr>, s))"

section \<open>DES\<close>

text \<open>
  The cipher is OpenSSL's and a parameter: direction, key block and input block to the output
  block. \<open>DES_set_key_unchecked\<close> and \<open>DES_ecb_encrypt\<close> are used only one after the
  other, so they are one function here. A block is eight bytes, given by their index.
\<close>

datatype des_dir = DES_ENCRYPT | DES_DECRYPT

type_synonym des_cblock = "nat \<Rightarrow> u8"

type_synonym des_ecb = "des_dir \<Rightarrow> des_cblock \<Rightarrow> des_cblock \<Rightarrow> des_cblock"

definition des_block :: "machine \<Rightarrow> nat \<Rightarrow> des_cblock" where
  "des_block s a = (\<lambda>i. if i < 8 then memory s (a + i) else 0)"

definition instr_des :: "des_ecb \<Rightarrow> handler" where
  "instr_des des idc s =
     (let idc = idc\<lparr>ddddd := ddddd idc - 16\<rparr>
      in if ddddd idc < 15 then Inr (idc, s)
         else let key = des_block s 8;
                  inp = des_block s 0;
                  out = (if memory s SREG AND SREG_H \<noteq> 0 then des DES_DECRYPT key inp
                         else des DES_ENCRYPT key inp)
              in Inr (idc, s\<lparr>memory := (\<lambda>i. if i < 8 then out i else memory s i)\<rparr>))"

section \<open>Instructions that are not implemented\<close>

definition instr_unimp :: handler where
  "instr_unimp idc s = Inl (unhandled (instr idc) s)"

section \<open>The masks of the inlined flag code\<close>

interpretation sbiw: flag_routine "\<lambda>(res, rd). sbiw_flags16 res rd (0, 0)" "0x1f"
  by unfold_locales (auto simp: sbiw_flags16_def Let_def flag_eqs)

interpretation neg: flag_routine "\<lambda>(res, rd). neg_flags8 res rd (0, 0)" "0x3f"
  by unfold_locales (auto simp: neg_flags8_def Let_def flag_eqs)

interpretation com: flag_routine "\<lambda>res. com_flags8 res (0, 0)" "0x1f"
  by unfold_locales (auto simp: com_flags8_def Let_def flag_eqs)

lemma own_disjoint:
  "flags_disjoint (sbiw_flags16 w v (0, 0))"
  "flags_disjoint (neg_flags8 res rd (0, 0))"
  "flags_disjoint (com_flags8 res (0, 0))"
  using sbiw.disjoint [of "(w, v)"] neg.disjoint [of "(res, rd)"] com.disjoint [of res]
  by simp_all

section \<open>The handlers meet the contract\<close>

lemma adc_handler: "instr_handler instr_adc"
  by (rule instr_handler_total) (auto simp: instr_adc_def handler_eqs)

lemma adiw_handler: "instr_handler instr_adiw"
  by (rule instr_handler_total) (auto simp: instr_adiw_def handler_eqs)

lemma cpc_handler: "instr_handler instr_cpc"
  by (rule instr_handler_total) (auto simp: instr_cpc_def handler_eqs)

lemma cpi_handler: "instr_handler instr_cpi"
  by (rule instr_handler_total) (auto simp: instr_cpi_def handler_eqs)

lemma sbiw_handler: "instr_handler instr_sbiw"
  by (rule instr_handler_total) (auto simp: instr_sbiw_def handler_eqs own_disjoint)

lemma neg_handler: "instr_handler instr_neg"
  by (rule instr_handler_total) (auto simp: instr_neg_def handler_eqs own_disjoint)

lemma and_handler: "instr_handler instr_and"
  by (rule instr_handler_total) (auto simp: instr_and_def handler_eqs)

lemma andi_handler: "instr_handler instr_andi"
  by (rule instr_handler_total) (auto simp: instr_andi_def handler_eqs)

lemma or_handler: "instr_handler instr_or"
  by (rule instr_handler_total) (auto simp: instr_or_def handler_eqs)

lemma ori_handler: "instr_handler instr_ori"
  by (rule instr_handler_total) (auto simp: instr_ori_def handler_eqs)

lemma xor_handler: "instr_handler instr_xor"
  by (rule instr_handler_total) (auto simp: instr_xor_def handler_eqs)

lemma com_handler: "instr_handler instr_com"
  by (rule instr_handler_total) (auto simp: instr_com_def handler_eqs own_disjoint)

lemma asr_handler: "instr_handler instr_asr"
  by (rule instr_handler_total) (auto simp: instr_asr_def handler_eqs)

lemma lsr_handler: "instr_handler instr_lsr"
  by (rule instr_handler_total) (auto simp: instr_lsr_def handler_eqs)

lemma ror_handler: "instr_handler instr_ror"
  by (rule instr_handler_total) (auto simp: instr_ror_def handler_eqs)

lemma swap_handler: "instr_handler instr_swap"
  by (rule instr_handler_total) (auto simp: instr_swap_def handler_eqs)

lemma ldi_handler: "instr_handler instr_ldi"
  by (rule instr_handler_total) (auto simp: instr_ldi_def handler_eqs)

lemma mov_handler: "instr_handler instr_mov"
  by (rule instr_handler_total) (auto simp: instr_mov_def handler_eqs)

lemma movw_handler: "instr_handler instr_movw"
  by (rule instr_handler_total) (auto simp: instr_movw_def handler_eqs)

lemma nop_handler: "instr_handler instr_nop"
  by (rule instr_handler_total) (auto simp: instr_nop_def handler_eqs)

lemma muls_handler: "instr_handler instr_muls"
  by (rule instr_handler_total) (auto simp: instr_muls_def handler_eqs memwriteword_eq)

lemma mulsu_handler: "instr_handler instr_mulsu"
  by (rule instr_handler_total) (auto simp: instr_mulsu_def handler_eqs memwriteword_eq)

lemma fmulsu_handler: "instr_handler instr_fmulsu"
  by (rule instr_handler_total) (auto simp: instr_fmulsu_def handler_eqs memwriteword_eq)

lemma bclrset_handler: "instr_handler instr_bclrset"
  by (rule instr_handler_total) (auto simp: instr_bclrset_def handler_eqs)

lemma bld_handler: "instr_handler instr_bld"
  by (rule instr_handler_total) (auto simp: instr_bld_def handler_eqs)

lemma bst_handler: "instr_handler instr_bst"
  by (rule instr_handler_total) (auto simp: instr_bst_def handler_eqs)

lemma mul_handler: "instr_handler instr_mul"
  by (rule instr_handler_total) (auto simp: instr_mul_def handler_eqs memwriteword_eq)

lemma fmul_handler: "instr_handler instr_fmul"
  by (rule instr_handler_total) (auto simp: instr_fmul_def handler_eqs memwriteword_eq)

lemma inc_handler: "instr_handler instr_inc"
  by (rule instr_handler_total)
    (auto simp: instr_inc_def handler_eqs logic_flags8_def put_flag_def flags_disjoint_def)

lemma dec_handler: "instr_handler instr_dec"
  by (rule instr_handler_total)
    (auto simp: instr_dec_def handler_eqs logic_flags8_def put_flag_def flags_disjoint_def)

lemma des_handler: "instr_handler (instr_des des)"
  by (rule instr_handler_total) (auto simp: instr_des_def handler_eqs)

lemma unimp_handler: "instr_handler instr_unimp"
  by unfold_locales (auto simp: instr_unimp_def)

lemmas alu_handlers =
  adc_handler adiw_handler cpc_handler cpi_handler sbiw_handler neg_handler and_handler andi_handler or_handler
  ori_handler xor_handler com_handler asr_handler lsr_handler ror_handler swap_handler ldi_handler mov_handler movw_handler
  nop_handler muls_handler mulsu_handler fmulsu_handler bclrset_handler bld_handler bst_handler mul_handler fmul_handler inc_handler dec_handler des_handler unimp_handler

end
