(* ===== verification/Stack.thy ===== *)
theory Stack
  imports Handler
begin

text \<open>
  The hardware stack of \<open>instr.c\<close>: a byte stack in data memory that grows downwards from
  the 16-bit stack pointer, itself two bytes of data memory. The abstract contract is a list of
  bytes; return addresses are pushed and popped through it.
\<close>

unbundle bit_operations_syntax

section \<open>The operations\<close>

text \<open>
  \<open>popbyte\<close> reads \<open>memory[sp + 1]\<close> with \<open>sp + 1\<close> computed in \<open>int\<close>, while
  the new stack pointer wraps at 16 bits.
\<close>

definition popbyte :: "machine \<Rightarrow> u8 \<times> machine" where
  "popbyte s =
     (let sp = getsp s;
          s = setsp (sp + 1) s
      in (memory s (unat sp + 1), s))"

definition pushbyte :: "u8 \<Rightarrow> machine \<Rightarrow> machine" where
  "pushbyte b s =
     (let sp = getsp s;
          s = mem_upd (unat sp) b s
      in setsp (sp - 1) s)"

text \<open>The sequence of pushes that every call instruction makes for its return address.\<close>

definition push_pc :: "u32 \<Rightarrow> machine \<Rightarrow> machine" where
  "push_pc pc2 s =
     (let s = pushbyte (ucast (pc2 AND 0xff)) s;
          s = pushbyte (ucast (drop_bit 8 pc2 AND 0xff)) s
      in if pc22 s then pushbyte (ucast (drop_bit 16 pc2)) s else s)"

text \<open>The address that \<open>instr_ret_common\<close> pops.\<close>

definition pop_pc :: "machine \<Rightarrow> u32 \<times> machine" where
  "pop_pc s =
     (let (b1, s) = popbyte s;
          addr = push_bit 8 (ucast b1) :: u32;
          (b0, s) = popbyte s;
          addr = addr OR ucast b0
      in if pc22 s then
           let addr = push_bit 8 addr;
               (b, s) = popbyte s;
               addr = addr OR ucast b
           in (addr AND 0x3fffff, s)
         else (addr, s))"

section \<open>The operations keep the frame\<close>

lemma popbyte_frame:
  "popbyte s = (b, t) \<Longrightarrow>
     same_frame s t \<and> skip_next_instruction t = skip_next_instruction s \<and> pc t = pc s"
  by (auto simp: popbyte_def Let_def)

lemma pushbyte_frame [simp]: "same_frame s (pushbyte b t) \<longleftrightarrow> same_frame s t"
  by (simp add: pushbyte_def Let_def)

lemma pushbyte_skip [simp]:
  "skip_next_instruction (pushbyte b t) = skip_next_instruction t" "pc (pushbyte b t) = pc t"
  by (simp_all add: pushbyte_def Let_def)

lemma push_pc_skip [simp]:
  "skip_next_instruction (push_pc a t) = skip_next_instruction t" "pc (push_pc a t) = pc t"
  by (simp_all add: push_pc_def Let_def)

lemma push_pc_frame [simp]: "same_frame s (push_pc a t) \<longleftrightarrow> same_frame s t"
  by (simp add: push_pc_def Let_def)

lemma pop_pc_frame:
  "pop_pc s = (a, t) \<Longrightarrow>
     same_frame s t \<and> skip_next_instruction t = skip_next_instruction s \<and> pc t = pc s"
  by (auto simp: pop_pc_def Let_def split: prod.splits if_splits
      dest!: popbyte_frame intro: same_frame_trans)

lemma skip_ok_stack: "pc t = pc s \<Longrightarrow> skip_ok s t" "skip_next_instruction t = skip_next_instruction s \<Longrightarrow> skip_ok s t"
  by (auto simp: skip_ok_def)

section \<open>The contract of a byte stack\<close>

locale byte_stack =
  fixes push :: "u8 \<Rightarrow> 's \<Rightarrow> 's"
    and pop :: "'s \<Rightarrow> u8 \<times> 's"
    and holds :: "'s \<Rightarrow> u8 list \<Rightarrow> bool"
    and room :: "'s \<Rightarrow> nat \<Rightarrow> bool"
  assumes push_holds: "room s (Suc n) \<Longrightarrow> holds s bs \<Longrightarrow> holds (push b s) (b # bs)"
    and push_room: "room s (Suc n) \<Longrightarrow> room (push b s) n"
    and pop_fst: "holds s (b # bs) \<Longrightarrow> fst (pop s) = b"
    and pop_holds: "holds s (b # bs) \<Longrightarrow> holds (snd (pop s)) bs"
begin

primrec pops :: "nat \<Rightarrow> 's \<Rightarrow> u8 list \<times> 's" where
  "pops 0 s = ([], s)"
| "pops (Suc n) s = (let (b, s) = pop s; (bs, s) = pops n s in (b # bs, s))"

lemma pushes_hold:
  "room s (length bs) \<Longrightarrow> holds s cs \<Longrightarrow> holds (fold push bs s) (rev bs @ cs)"
proof (induction bs arbitrary: s cs)
  case (Cons b bs)
  then have "room (push b s) (length bs)" "holds (push b s) (b # cs)"
    using push_room [of s "length bs" b] push_holds [of s "length bs" cs b] by simp_all
  then show ?case using Cons.IH [of "push b s" "b # cs"] by simp
qed simp

lemma pops_held:
  "holds s (bs @ cs) \<Longrightarrow> fst (pops (length bs) s) = bs \<and> holds (snd (pops (length bs) s)) cs"
proof (induction bs arbitrary: s)
  case (Cons b bs)
  then have "fst (pop s) = b" "holds (snd (pop s)) (bs @ cs)"
    using pop_fst [of s b "bs @ cs"] pop_holds [of s b "bs @ cs"] by simp_all
  then show ?case using Cons.IH [of "snd (pop s)"] by (auto simp: Let_def split: prod.splits)
qed simp

lemma last_in_first_out:
  assumes "room s (length bs)" "holds s cs"
  shows "fst (pops (length bs) (fold push bs s)) = rev bs"
    and "holds (snd (pops (length bs) (fold push bs s))) cs"
  using pops_held [OF pushes_hold [OF assms]] by simp_all

end

section \<open>The hardware stack meets it\<close>

text \<open>The bytes above the stack pointer, top first. The pointer's own two bytes at
  \<open>0x5D\<close> must lie below the stack, and the stack must end inside the 16-bit space.\<close>

definition stack_holds :: "machine \<Rightarrow> u8 list \<Rightarrow> bool" where
  "stack_holds s bs \<longleftrightarrow> 0x5E \<le> unat (getsp s) \<and> unat (getsp s) + length bs \<le> 0xffff \<and>
     map (\<lambda>i. memory s (unat (getsp s) + 1 + i)) [0..<length bs] = bs"

definition stack_room :: "machine \<Rightarrow> nat \<Rightarrow> bool" where
  "stack_room s n \<longleftrightarrow> 0x5E + n \<le> unat (getsp s)"

lemma setsp_memory: "memory (setsp sp s) = (memory s)(SP_LO := lo_byte sp, SP_HI := hi_byte sp)"
  by (simp add: setsp_eq)

lemma getsp_pushbyte: "getsp (pushbyte b s) = getsp s - 1"
  by (simp add: pushbyte_def Let_def getsp_setsp)

lemma memory_pushbyte: "0x5F \<le> i \<Longrightarrow>
   memory (pushbyte b s) i = (if i = unat (getsp s) then b else memory s i)"
  by (auto simp: pushbyte_def Let_def setsp_memory)

lemma getsp_popbyte: "getsp (snd (popbyte s)) = getsp s + 1"
  by (simp add: popbyte_def Let_def getsp_setsp)

lemma memory_popbyte: "0x5F \<le> i \<Longrightarrow> memory (snd (popbyte s)) i = memory s i"
  by (auto simp: popbyte_def Let_def setsp_memory)

lemma fst_popbyte: "0x5E \<le> unat (getsp s) \<Longrightarrow> fst (popbyte s) = memory s (unat (getsp s) + 1)"
  by (auto simp: popbyte_def Let_def setsp_memory)

lemma unat_sp_minus: "0 < unat sp \<Longrightarrow> unat (sp - 1) = unat sp - 1" for sp :: u16
  by (subst unat_sub) (auto simp: word_le_nat_alt)

lemma unat_sp_plus: "unat sp < 0xffff \<Longrightarrow> unat (sp + 1) = unat sp + 1" for sp :: u16
  by (simp add: unat_word_ariths)

interpretation stack: byte_stack pushbyte popbyte stack_holds stack_room
proof unfold_locales
  fix s n bs and b :: u8
  assume room: "stack_room s (Suc n)" and holds: "stack_holds s bs"
  let ?p = "unat (getsp s)"
  have p: "0x5F \<le> ?p" "unat (getsp s - 1) = ?p - 1"
    using room by (auto simp: stack_room_def unat_sp_minus)
  show "stack_holds (pushbyte b s) (b # bs)"
    using holds p unfolding stack_holds_def
    by (auto simp: getsp_pushbyte memory_pushbyte upt_conv_Cons map_Suc_upt [symmetric] comp_def
        simp del: upt_Suc)
next
  fix s n and b :: u8
  assume "stack_room s (Suc n)"
  then show "stack_room (pushbyte b s) n"
    by (auto simp: stack_room_def getsp_pushbyte unat_sp_minus)
next
  fix s b bs assume "stack_holds s (b # bs)"
  then show "fst (popbyte s) = b"
    by (simp add: stack_holds_def fst_popbyte upt_conv_Cons del: upt_Suc)
next
  fix s b bs assume *: "stack_holds s (b # bs)"
  then have "unat (getsp s + 1) = unat (getsp s) + 1"
    by (intro unat_sp_plus) (simp add: stack_holds_def)
  with * show "stack_holds (snd (popbyte s)) bs"
    by (simp add: stack_holds_def getsp_popbyte memory_popbyte upt_conv_Cons map_Suc_upt [symmetric] comp_def del: upt_Suc)
qed

section \<open>Return addresses\<close>

definition pc_bytes :: "bool \<Rightarrow> u32 \<Rightarrow> u8 list" where
  "pc_bytes long a = [ucast (a AND 0xff), ucast (drop_bit 8 a AND 0xff)] @
     (if long then [ucast (drop_bit 16 a)] else [])"

lemma pc22_pushbyte [simp]: "pc22 (pushbyte b s) = pc22 s"
  by (simp add: pushbyte_def Let_def setsp_eq)

lemma pc22_popbyte [simp]: "pc22 (snd (popbyte s)) = pc22 s"
  by (simp add: popbyte_def Let_def setsp_eq)

lemma push_pc_bytes: "push_pc a s = fold pushbyte (pc_bytes (pc22 s) a) s"
  by (simp add: push_pc_def pc_bytes_def Let_def)

lemma pop_pc_two: "\<not> pc22 s \<Longrightarrow> stack_holds s (b # c # bs) \<Longrightarrow>
    fst (pop_pc s) = push_bit 8 (ucast b) OR ucast c"
  using stack.pop_fst [of s b "c # bs"] stack.pop_holds [of s b "c # bs"]
    stack.pop_fst [of "snd (popbyte s)" c bs]
  by (simp add: pop_pc_def Let_def split_beta)

lemma pop_pc_three: "pc22 s \<Longrightarrow> stack_holds s (b # c # d # bs) \<Longrightarrow>
    fst (pop_pc s) = (push_bit 8 (push_bit 8 (ucast b) OR ucast c) OR ucast d) AND 0x3fffff"
  using stack.pop_fst [of s b "c # d # bs"] stack.pop_holds [of s b "c # d # bs"]
    stack.pop_fst [of "snd (popbyte s)" c "d # bs"] stack.pop_holds [of "snd (popbyte s)" c "d # bs"]
    stack.pop_fst [of "snd (popbyte (snd (popbyte s)))" d bs]
  by (simp add: pop_pc_def Let_def split_beta)

lemma getsp_pop_pc: "getsp (snd (pop_pc s)) = getsp s + (if pc22 s then 3 else 2)"
  by (simp add: pop_pc_def Let_def split_beta getsp_popbyte)

lemma getsp_push_pc: "getsp (push_pc a s) = getsp s - (if pc22 s then 3 else 2)"
  by (simp add: push_pc_def Let_def getsp_pushbyte)

lemma and_ff_u32: "(a :: u32) AND 0xff = take_bit 8 a" "(a :: u32) AND 0x3fffff = take_bit 22 a"
  by (simp_all add: take_bit_eq_mask mask_eq_exp_minus_1)

lemma pop_pushed_pc:
  assumes "stack_holds s (rev (pc_bytes (pc22 s) a) @ bs)"
  shows "fst (pop_pc s) = (if pc22 s then a AND 0x3fffff else a AND 0xffff)"
proof (cases "pc22 s")
  case True
  let ?r = "(push_bit 8 (push_bit 8 (ucast (ucast (drop_bit 16 a) :: u8)) OR
     ucast (ucast (drop_bit 8 a AND 0xff) :: u8)) OR ucast (ucast (a AND 0xff) :: u8)) AND 0x3fffff :: u32"
  have "?r = a AND 0x3fffff"
  proof (rule bit_word_eqI)
    fix n assume "n < LENGTH(32)"
    moreover have "16 + (n - 16) = n" if "\<not> n < 16" using that by simp
    ultimately show "bit ?r n \<longleftrightarrow> bit (a AND 0x3fffff) n"
      unfolding and_ff_u32 by (cases "n < 8"; cases "n < 16") (auto simp: bit_simps)
  qed
  then show ?thesis using assms True by (simp add: pc_bytes_def pop_pc_three)
next
  case False
  let ?r = "(push_bit 8 (ucast (ucast (drop_bit 8 a AND 0xff) :: u8)) OR
     ucast (ucast (a AND 0xff) :: u8)) :: u32"
  have "(a AND 0xffff) = take_bit 16 a" by (simp add: take_bit_eq_mask mask_eq_exp_minus_1)
  then have "?r = a AND 0xffff"
    unfolding and_ff_u32 by (intro bit_word_eqI) (auto simp: bit_simps)
  then show ?thesis using assms False by (simp add: pc_bytes_def pop_pc_two)
qed

end
