(* ===== verification/Instr_Flow.thy ===== *)
theory Instr_Flow
  imports Stack
begin

text \<open>
  The control-flow handlers of \<open>instr.c\<close>: branches, jumps, calls, returns and skips.
  A handler that jumps stores the target less \<open>instr_size\<close>, which \<open>emulate1\<close> adds
  afterwards; a skip only raises \<open>skip_next_instruction\<close>.
\<close>

unbundle bit_operations_syntax

section \<open>Branches and skips\<close>

definition instr_brb :: handler where
  "instr_brb idc s =
     (let sss = rrrrr idc - 16;
          clr = instr idc AND 0x0400 \<noteq> 0;
          imm_s8 = ucast (drop_bit 3 (bits (instr idc) 9 3)) :: u8;
          imm_s8 = (if imm_s8 AND 0x40 \<noteq> 0 then imm_s8 OR 0x80 else imm_s8)
      in Inr (idc,
           if memory s SREG AND push_bit (unat sss) 1 \<noteq> 0 \<and> \<not> clr
           then s\<lparr>pc := pc s + scast imm_s8\<rparr>
           else if memory s SREG AND push_bit (unat sss) 1 = 0 \<and> clr
           then s\<lparr>pc := pc s + scast imm_s8\<rparr>
           else s))"

definition instr_cpse :: handler where
  "instr_cpse idc s =
     Inr (idc, if memory s (unat (ddddd idc)) = memory s (unat (rrrrr idc))
               then s\<lparr>skip_next_instruction := True\<rparr> else s)"

definition instr_sbics :: handler where
  "instr_sbics idc s =
     (let ifset = bits (instr idc) 9 9 \<noteq> 0;
          b = rrrrr idc - 16;
          A = ucast (drop_bit 3 (bits (instr idc) 7 3)) :: u8;
          bt = memory s (IO_BASE + unat A) AND push_bit (unat b) 1 \<noteq> 0
      in Inr (idc, if ifset = bt then s\<lparr>skip_next_instruction := True\<rparr> else s))"

definition instr_sbrcs :: handler where
  "instr_sbrcs idc s =
     (let ifset = bits (instr idc) 9 9 \<noteq> 0;
          b = rrrrr idc - 16;
          bt = memory s (unat (ddddd idc)) AND push_bit (unat b) 1 \<noteq> 0
      in Inr (idc, if ifset = bt then s\<lparr>skip_next_instruction := True\<rparr> else s))"

section \<open>Jumps, calls and returns\<close>

text \<open>The absolute target of \<open>instr_call\<close> and \<open>instr_jmp\<close>.\<close>

definition long_target :: "idc \<Rightarrow> machine \<Rightarrow> u32" where
  "long_target idc s =
     (let addr = ucast (imm_u16 idc) :: u32
      in if pc22 s then
           addr OR push_bit 16 (ucast (drop_bit 3 (bits (instr idc) 8 4)) OR
                                ucast (bits (instr idc) 0 0))
         else addr)"

definition instr_call :: handler where
  "instr_call idc s =
     (let addr = long_target idc s;
          pc2 = pc_start s + 2;
          s = push_pc pc2 s
      in Inr (idc, s\<lparr>pc := addr - instr_size s\<rparr>))"

definition instr_jmp :: handler where
  "instr_jmp idc s = Inr (idc, s\<lparr>pc := long_target idc s - instr_size s\<rparr>)"

definition instr_eicalljump :: handler where
  "instr_eicalljump idc s =
     bindR (memword (ucast REGP_Z) s) (\<lambda>z.
       let addr = ucast z :: u32;
           ext = bits (instr idc) 4 4 \<noteq> 0;
           call = bits (instr idc) 8 8 \<noteq> 0
       in if ext \<and> \<not> pc22 s then Inl (illins (instr idc) s)
          else
            let addr = (if ext then addr OR push_bit 16 (ucast (memory s EIND)) else addr);
                s = (if call then push_pc (pc_start s + 1) s else s)
            in Inr (idc, s\<lparr>pc := addr - instr_size s\<rparr>))"

definition instr_rcalljmp :: handler where
  "instr_rcalljmp idc s =
     (let call = bits (instr idc) 12 12 \<noteq> 0;
          k = bits (instr idc) 11 0;
          k = (if k AND 0x800 \<noteq> 0 then k OR 0xf000 else k);
          s = (if call then push_pc (pc_start s + 1) s else s)
      in Inr (idc, s\<lparr>pc := pc s + scast k\<rparr>))"

definition instr_ret_common :: "machine \<Rightarrow> machine" where
  "instr_ret_common s =
     (let (addr, s) = pop_pc s
      in s\<lparr>pc := addr - instr_size s\<rparr>)"

definition instr_ret :: handler where
  "instr_ret idc s = Inr (idc, instr_ret_common s)"

definition instr_reti :: handler where
  "instr_reti idc s =
     (let s = instr_ret_common s
      in Inr (idc, mem_upd SREG (memory s SREG OR SREG_I) s))"

section \<open>The handlers meet the contract\<close>

lemma brb_handler: "instr_handler instr_brb"
  by (rule instr_handler_total) (auto simp: instr_brb_def handler_eqs)

lemma cpse_handler: "instr_handler instr_cpse"
  by (rule instr_handler_total) (auto simp: instr_cpse_def handler_eqs)

lemma sbics_handler: "instr_handler instr_sbics"
  by (rule instr_handler_total) (auto simp: instr_sbics_def handler_eqs)

lemma sbrcs_handler: "instr_handler instr_sbrcs"
  by (rule instr_handler_total) (auto simp: instr_sbrcs_def handler_eqs)

lemma call_handler: "instr_handler instr_call"
  by (rule instr_handler_total) (auto simp: instr_call_def handler_eqs)

lemma jmp_handler: "instr_handler instr_jmp"
  by (rule instr_handler_total) (auto simp: instr_jmp_def handler_eqs)

lemma rcalljmp_handler: "instr_handler instr_rcalljmp"
  by (rule instr_handler_total) (auto simp: instr_rcalljmp_def handler_eqs)

lemma ret_common_frame [simp]:
  "same_frame s (instr_ret_common s)" "skip_ok s (instr_ret_common s)"
  by (auto simp: instr_ret_common_def Let_def split: prod.splits
      dest: pop_pc_frame intro: skip_ok_jump)

lemma ret_handler: "instr_handler instr_ret"
  by (rule instr_handler_total) (auto simp: instr_ret_def handler_eqs)

lemma reti_handler: "instr_handler instr_reti"
  by (rule instr_handler_total) (auto simp: instr_reti_def handler_eqs)

lemma eicalljump_handler: "instr_handler instr_eicalljump"
  by unfold_locales (auto simp: instr_eicalljump_def handler_eqs memword_Z split: if_splits)

lemmas flow_handlers =
  brb_handler cpse_handler sbics_handler sbrcs_handler call_handler jmp_handler
  rcalljmp_handler ret_handler reti_handler eicalljump_handler

end
