(* ===== verification/Instr_Mem.thy ===== *)
theory Instr_Mem
  imports Stack
begin

text \<open>
  The handlers of \<open>instr.c\<close> that move data between registers and data memory, I/O space,
  program memory or the stack. Addresses are 24 bits wide unless the machine model limits them;
  the high byte comes from a RAMP register.
\<close>

unbundle bit_operations_syntax

section \<open>I/O space and the stack\<close>

definition instr_cbisbi :: handler where
  "instr_cbisbi idc s =
     (let sss = rrrrr idc - 16;
          set = bits (instr idc) 9 9 \<noteq> 0;
          A = ucast (drop_bit 3 (bits (instr idc) 7 3)) :: u8;
          i = IO_BASE + unat A
      in Inr (idc, mem_upd i
           (if set then memory s i OR push_bit (unat sss) 1
            else memory s i AND NOT (push_bit (unat sss) 1)) s))"

definition instr_in :: handler where
  "instr_in idc s =
     (let io_port = ucast (drop_bit 5 (bits (instr idc) 10 9) OR bits (instr idc) 3 0) :: u8
      in Inr (idc, mem_upd (unat (ddddd idc)) (memory s (IO_BASE + unat io_port)) s))"

definition instr_out :: handler where
  "instr_out idc s =
     (let io_port = ucast (drop_bit 5 (bits (instr idc) 10 9) OR bits (instr idc) 3 0) :: u8
      in Inr (idc, mem_upd (IO_BASE + unat io_port) (memory s (unat (ddddd idc))) s))"

definition instr_pop :: handler where
  "instr_pop idc s =
     (let (b, s) = popbyte s in Inr (idc, mem_upd (unat (ddddd idc)) b s))"

definition instr_push :: handler where
  "instr_push idc s = Inr (idc, pushbyte (memory s (unat (ddddd idc))) s)"

section \<open>Direct addressing\<close>

definition instr_lds :: handler where
  "instr_lds idc s =
     (let addr = ucast (imm_u16 idc) :: u32;
          addr = (if \<not> pc_mem_max_64k s then addr OR push_bit 16 (ucast (memory s RAMPD)) else addr)
      in bindR (mem_at addr s) (\<lambda>v. Inr (idc, mem_upd (unat (ddddd idc)) v s)))"

definition instr_sts :: handler where
  "instr_sts idc s =
     (let addr = ucast (imm_u16 idc) :: u32;
          addr = (if \<not> pc_mem_max_64k s then addr OR push_bit 16 (ucast (memory s RAMPD))
                  else if pc_mem_max_256b s then addr AND 0xff else addr)
      in bindR (mem_put addr (memory s (unat (ddddd idc))) s) (\<lambda>s. Inr (idc, s)))"

section \<open>Indirect addressing\<close>

text \<open>
  \<open>instr_ldst_common\<close>: the pointer register pair \<open>rp\<close>, the data address of its RAMP
  register, the mode (0 with displacement, 1 post-increment, 2 pre-decrement), the displacement
  and the direction. The pointer's name is for the message only.
\<close>

definition ldst_addr :: "u8 \<Rightarrow> u8 \<Rightarrow> bool \<Rightarrow> bool \<Rightarrow> u8 \<Rightarrow> u16 \<Rightarrow> machine \<Rightarrow> u32" where
  "ldst_addr rp extaddr predec postinc displace w s =
     (let addr = ucast w :: u32;
          addr = (if \<not> pc_mem_max_64k s
                  then addr OR push_bit 16 (ucast (memory s (unat extaddr))) else addr);
          addr = (if predec then (addr - 1) AND 0xffffff else addr);
          addr = (if \<not> predec \<and> \<not> postinc then (addr + ucast displace) AND 0xffffff else addr)
      in if pc_mem_max_256b s then addr AND 0xff
         else if pc_mem_max_64k s then addr AND 0xffff
         else addr)"

definition ldst_writeback :: "u8 \<Rightarrow> u8 \<Rightarrow> bool \<Rightarrow> bool \<Rightarrow> u32 \<Rightarrow> machine \<Rightarrow> fault + machine" where
  "ldst_writeback rp extaddr predec postinc addr s =
     (let addr = (if postinc then addr + 1 else addr)
      in if postinc \<or> predec then
           if pc_mem_max_256b s then Inr (mem_upd (unat rp) (ucast (addr AND 0xff)) s)
           else bindR (memwriteword (ucast rp) (ucast (addr AND 0xffff)) s) (\<lambda>s.
             Inr (if \<not> pc_mem_max_64k s
                  then mem_upd (unat extaddr) (ucast (drop_bit 16 addr)) s else s))
         else Inr s)"

definition instr_ldst_common :: "u8 \<Rightarrow> u8 \<Rightarrow> u8 \<Rightarrow> u8 \<Rightarrow> bool \<Rightarrow> handler" where
  "instr_ldst_common rp extaddr mode displace store idc s =
     (let postinc = (mode = 1);
          predec = (mode = 2)
      in if (predec \<or> postinc) \<and> (ddddd idc = rp \<or> unat (ddddd idc) = unat rp + 1)
         then Inl (illins (instr idc) s)
         else
           bindR (memword (ucast rp) s) (\<lambda>w.
           let addr = ldst_addr rp extaddr predec postinc displace w s
           in bindR (if store then mem_put addr (memory s (unat (ddddd idc))) s
                     else bindR (mem_at addr s) (\<lambda>v. Inr (mem_upd (unat (ddddd idc)) v s))) (\<lambda>s.
              bindR (ldst_writeback rp extaddr predec postinc addr s) (\<lambda>s.
              Inr (idc, s)))))"

text \<open>The mode and the displacement that \<open>instr_ldyz\<close> and \<open>instr_styz\<close> decode.\<close>

definition yz_mode :: "u16 \<Rightarrow> u8" where
  "yz_mode i = (if bits i 12 12 = 0 then 0 else ucast (bits i 1 0))"

definition yz_displace :: "u16 \<Rightarrow> u8" where
  "yz_displace i =
     (if bits i 12 12 = 0 then
        ucast (drop_bit 8 (bits i 13 13) OR drop_bit 7 (bits i 11 10) OR bits i 2 0)
      else 0)"

definition instr_ldx :: handler where
  "instr_ldx idc s =
     instr_ldst_common REGP_X RAMPX (ucast (bits (instr idc) 1 0)) 0 False idc s"

definition instr_stx :: handler where
  "instr_stx idc s =
     instr_ldst_common REGP_X RAMPX (ucast (bits (instr idc) 1 0)) 0 True idc s"

definition instr_ldyz :: handler where
  "instr_ldyz idc s =
     (let Y = bits (instr idc) 3 3 \<noteq> 0;
          mode = yz_mode (instr idc);
          displace = yz_displace (instr idc)
      in if Y then instr_ldst_common REGP_Y RAMPY mode displace False idc s
         else instr_ldst_common REGP_Z RAMPZ mode displace False idc s)"

definition instr_styz :: handler where
  "instr_styz idc s =
     (let Y = bits (instr idc) 3 3 \<noteq> 0;
          mode = yz_mode (instr idc);
          displace = yz_displace (instr idc)
      in if Y then instr_ldst_common REGP_Y RAMPY mode displace True idc s
         else instr_ldst_common REGP_Z RAMPZ mode displace True idc s)"

section \<open>Program memory\<close>

definition instr_elpm :: handler where
  "instr_elpm idc s =
     (let ext = bits (instr idc) 4 4 \<noteq> 0
      in bindR (memword (ucast REGP_Z) s) (\<lambda>z.
         let addr = ucast z :: u32;
             addr = (if ext then addr OR push_bit 16 (ucast (memory s (unat RAMPZ))) else addr)
         in bindR (romword (drop_bit 1 addr) s) (\<lambda>w.
            Inr (idc, mem_upd 0 (if addr AND 1 \<noteq> 0 then ucast (drop_bit 8 w)
                                 else ucast (w AND 0xff)) s))))"

definition instr_elpmz :: handler where
  "instr_elpmz idc s =
     (let ext = bits (instr idc) 1 1 \<noteq> 0;
          postinc = bits (instr idc) 0 0 \<noteq> 0
      in if postinc \<and> (ddddd idc = 30 \<or> ddddd idc = 31) then Inl (illins (instr idc) s)
         else
           bindR (memword (ucast REGP_Z) s) (\<lambda>z.
           let addr = ucast z :: u32;
               addr = (if ext then addr OR push_bit 16 (ucast (memory s (unat RAMPZ))) else addr)
           in bindR (romword (drop_bit 1 addr) s) (\<lambda>w.
              let s = mem_upd (unat (ddddd idc))
                    (if addr AND 1 \<noteq> 0 then ucast (drop_bit 8 w) else ucast (w AND 0xff)) s
              in if postinc then
                   bindR (memwriteword (ucast REGP_Z) (ucast ((addr + 1) AND 0xffff)) s)
                     (\<lambda>s. Inr (idc, s))
                 else Inr (idc, s))))"

section \<open>Exchange\<close>

text \<open>The four atomic read-modify-write builtins, on one thread, are a read and a write.\<close>

definition instr_xch :: handler where
  "instr_xch idc s =
     (let mode = ucast (bits (instr idc) 1 0) :: u8;
          rd = memory s (unat (ddddd idc))
      in bindR (memword (ucast REGP_Z) s) (\<lambda>z.
         let addr = ucast z :: u32
         in bindR (mem_at addr s) (\<lambda>res.
            let new = (if mode = 0 then rd
                       else if mode = 1 then res OR rd
                       else if mode = 2 then res AND NOT rd
                       else res XOR rd)
            in bindR (mem_put addr new s) (\<lambda>s.
               Inr (idc, mem_upd (unat (ddddd idc)) res s)))))"

section \<open>The handlers meet the contract\<close>

lemma cbisbi_handler: "instr_handler instr_cbisbi"
  by (rule instr_handler_total) (auto simp: instr_cbisbi_def handler_eqs)
lemma in_handler: "instr_handler instr_in"
  by (rule instr_handler_total) (auto simp: instr_in_def handler_eqs)
lemma out_handler: "instr_handler instr_out"
  by (rule instr_handler_total) (auto simp: instr_out_def handler_eqs)
lemma pop_handler: "instr_handler instr_pop"
  by (rule instr_handler_total)
    (auto simp: instr_pop_def handler_eqs split: prod.splits dest: popbyte_frame intro: skip_ok_stack)
lemma push_handler: "instr_handler instr_push"
  by (rule instr_handler_total) (auto simp: instr_push_def handler_eqs intro: skip_ok_stack)

lemma lds_handler: "instr_handler instr_lds"
  by (rule instr_handler_total) (auto simp: instr_lds_def handler_eqs mem_at_def)
lemma sts_handler: "instr_handler instr_sts"
  by (rule instr_handler_total) (auto simp: instr_sts_def handler_eqs mem_put_def)

lemma ldst_addr_less: "unat (ldst_addr rp ext predec postinc k w s) < MEM_SIZE"
  by (auto simp: ldst_addr_def Let_def)

lemma ldst_writeback_no_fault: "even rp \<Longrightarrow> ldst_writeback rp ext predec postinc addr s \<noteq> Inl e"
  by (auto simp: ldst_writeback_def Let_def memwriteword_pair)

lemma ldst_writeback_frame:
  "even rp \<Longrightarrow> ldst_writeback rp ext predec postinc addr s = Inr t \<Longrightarrow>
     same_frame s t \<and> skip_ok s t"
  by (auto simp: ldst_writeback_def Let_def memwriteword_pair split: if_splits)

lemma ldst_common_handler:
  assumes "even rp"
  shows "instr_handler (instr_ldst_common rp ext mode k store)"
proof -
  have less: "unat (ldst_addr rp ext predec postinc k w s) < 16777216" for predec postinc w s
    using ldst_addr_less by simp
  show ?thesis
    using assms
    by unfold_locales
      (auto simp: instr_ldst_common_def Let_def memword_pair mem_at_def mem_put_def less
        result_eqs idc_flags_def flags_ok ldst_writeback_no_fault
        split: if_splits dest!: ldst_writeback_frame)
qed

lemma elpm_handler: "instr_handler instr_elpm"
  by (rule instr_handler_total) (auto simp: instr_elpm_def handler_eqs memword_Z romword_drop)

lemma elpmz_handler: "instr_handler instr_elpmz"
  by unfold_locales (auto simp: instr_elpmz_def handler_eqs memword_Z memwriteword_Z romword_drop split: if_splits)

text \<open>A handler that passes operands chosen from the instruction word to a contract-abiding
  one abides by the contract.\<close>

lemma instr_handler_select:
  assumes "\<And>x. instr_handler (f x)"
  shows "instr_handler (\<lambda>idc. f (g (instr idc)) idc)"
  using assms unfolding instr_handler_def by blast

lemma ldx_handler: "instr_handler instr_ldx"
  using instr_handler_select [of "\<lambda>m. instr_ldst_common REGP_X RAMPX m 0 False"
      "\<lambda>i. ucast (bits i 1 0)"]
  by (simp add: instr_ldx_def [abs_def] ldst_common_handler)
lemma stx_handler: "instr_handler instr_stx"
  using instr_handler_select [of "\<lambda>m. instr_ldst_common REGP_X RAMPX m 0 True"
      "\<lambda>i. ucast (bits i 1 0)"]
  by (simp add: instr_stx_def [abs_def] ldst_common_handler)
lemma ldyz_handler: "instr_handler instr_ldyz"
proof -
  let ?f = "\<lambda>(Y, m, k). instr_ldst_common (if Y then REGP_Y else REGP_Z) (if Y then RAMPY else RAMPZ) m k False"
  let ?g = "\<lambda>i. (bits i 3 3 \<noteq> 0, yz_mode i, yz_displace i)"
  have "instr_handler (\<lambda>idc. ?f (?g (instr idc)) idc)"
    by (rule instr_handler_select) (auto split: prod.splits intro!: ldst_common_handler)
  moreover have "(\<lambda>idc. ?f (?g (instr idc)) idc) = instr_ldyz"
    by (intro ext) (simp add: instr_ldyz_def Let_def)
  ultimately show ?thesis by simp
qed

lemma styz_handler: "instr_handler instr_styz"
proof -
  let ?f = "\<lambda>(Y, m, k). instr_ldst_common (if Y then REGP_Y else REGP_Z) (if Y then RAMPY else RAMPZ) m k True"
  let ?g = "\<lambda>i. (bits i 3 3 \<noteq> 0, yz_mode i, yz_displace i)"
  have "instr_handler (\<lambda>idc. ?f (?g (instr idc)) idc)"
    by (rule instr_handler_select) (auto split: prod.splits intro!: ldst_common_handler)
  moreover have "(\<lambda>idc. ?f (?g (instr idc)) idc) = instr_styz"
    by (intro ext) (simp add: instr_styz_def Let_def)
  ultimately show ?thesis by simp
qed

lemma xch_handler: "instr_handler instr_xch"
  by (rule instr_handler_total) (auto simp: instr_xch_def handler_eqs memword_Z mem_at_def mem_put_def)

lemmas mem_handlers =
  cbisbi_handler in_handler out_handler pop_handler push_handler lds_handler sts_handler
  ldx_handler stx_handler ldyz_handler styz_handler elpm_handler elpmz_handler xch_handler

end
