(* ===== verification/Decode.thy ===== *)
theory Decode
  imports Instr_Alu Instr_Flow Instr_Mem
begin

text \<open>
  Instruction decoding: the table \<open>avr_instr\<close> of \<open>main.c\<close>, its linear search, the
  extraction of operand fields and the call through the function pointer of a row.

  The function pointers of the table are named by a datatype; \<open>call_instr\<close> is the indirect
  call. The table is kept in the order of the source, and \<open>lookup\<close> returns the first match;
  that the order does not matter is a theorem.
\<close>

unbundle bit_operations_syntax

section \<open>Handlers by name\<close>

datatype (plugins only: code size) instr_code =
    Instr_adc | Instr_adiw | Instr_and | Instr_andi | Instr_asr | Instr_bclrset
  | Instr_bld | Instr_brb | Instr_bst | Instr_call | Instr_cbisbi | Instr_com
  | Instr_cpc | Instr_cpi | Instr_cpse | Instr_dec | Instr_des | Instr_eicalljump
  | Instr_elpm | Instr_elpmz | Instr_fmul | Instr_fmulsu | Instr_in | Instr_inc
  | Instr_jmp | Instr_ldi | Instr_lds | Instr_ldx | Instr_ldyz | Instr_lsr
  | Instr_mov | Instr_movw | Instr_mul | Instr_muls | Instr_mulsu | Instr_neg
  | Instr_nop | Instr_or | Instr_ori | Instr_out | Instr_pop | Instr_push
  | Instr_rcalljmp | Instr_ret | Instr_reti | Instr_ror | Instr_sbics
  | Instr_sbiw | Instr_sbrcs | Instr_sts | Instr_stx | Instr_styz | Instr_swap
  | Instr_unimp | Instr_xch | Instr_xor

primrec call_instr :: "des_ecb \<Rightarrow> instr_code \<Rightarrow> handler" where
  "call_instr des Instr_adc = instr_adc"
| "call_instr des Instr_adiw = instr_adiw"
| "call_instr des Instr_and = instr_and"
| "call_instr des Instr_andi = instr_andi"
| "call_instr des Instr_asr = instr_asr"
| "call_instr des Instr_bclrset = instr_bclrset"
| "call_instr des Instr_bld = instr_bld"
| "call_instr des Instr_brb = instr_brb"
| "call_instr des Instr_bst = instr_bst"
| "call_instr des Instr_call = instr_call"
| "call_instr des Instr_cbisbi = instr_cbisbi"
| "call_instr des Instr_com = instr_com"
| "call_instr des Instr_cpc = instr_cpc"
| "call_instr des Instr_cpi = instr_cpi"
| "call_instr des Instr_cpse = instr_cpse"
| "call_instr des Instr_dec = instr_dec"
| "call_instr des Instr_des = instr_des des"
| "call_instr des Instr_eicalljump = instr_eicalljump"
| "call_instr des Instr_elpm = instr_elpm"
| "call_instr des Instr_elpmz = instr_elpmz"
| "call_instr des Instr_fmul = instr_fmul"
| "call_instr des Instr_fmulsu = instr_fmulsu"
| "call_instr des Instr_in = instr_in"
| "call_instr des Instr_inc = instr_inc"
| "call_instr des Instr_jmp = instr_jmp"
| "call_instr des Instr_ldi = instr_ldi"
| "call_instr des Instr_lds = instr_lds"
| "call_instr des Instr_ldx = instr_ldx"
| "call_instr des Instr_ldyz = instr_ldyz"
| "call_instr des Instr_lsr = instr_lsr"
| "call_instr des Instr_mov = instr_mov"
| "call_instr des Instr_movw = instr_movw"
| "call_instr des Instr_mul = instr_mul"
| "call_instr des Instr_muls = instr_muls"
| "call_instr des Instr_mulsu = instr_mulsu"
| "call_instr des Instr_neg = instr_neg"
| "call_instr des Instr_nop = instr_nop"
| "call_instr des Instr_or = instr_or"
| "call_instr des Instr_ori = instr_ori"
| "call_instr des Instr_out = instr_out"
| "call_instr des Instr_pop = instr_pop"
| "call_instr des Instr_push = instr_push"
| "call_instr des Instr_rcalljmp = instr_rcalljmp"
| "call_instr des Instr_ret = instr_ret"
| "call_instr des Instr_reti = instr_reti"
| "call_instr des Instr_ror = instr_ror"
| "call_instr des Instr_sbics = instr_sbics"
| "call_instr des Instr_sbiw = instr_sbiw"
| "call_instr des Instr_sbrcs = instr_sbrcs"
| "call_instr des Instr_sts = instr_sts"
| "call_instr des Instr_stx = instr_stx"
| "call_instr des Instr_styz = instr_styz"
| "call_instr des Instr_swap = instr_swap"
| "call_instr des Instr_unimp = instr_unimp"
| "call_instr des Instr_xch = instr_xch"
| "call_instr des Instr_xor = instr_xor"

section \<open>The table\<close>

record instr_decode =
  pattern :: u16
  imask :: u16
  code :: instr_code
  ddddd84 :: bool
  dddd74 :: bool
  ddd64 :: bool
  rrrrr9_30 :: bool
  rrrr30 :: bool
  rrr20 :: bool
  KKKK118_30 :: bool
  imm16 :: bool

text \<open>A row with no designated initialiser: all flags are false.\<close>

definition plain :: "u16 \<Rightarrow> u16 \<Rightarrow> instr_code \<Rightarrow> instr_decode" where
  "plain p m c = \<lparr>pattern = p, imask = m, code = c, ddddd84 = False, dddd74 = False,
     ddd64 = False, rrrrr9_30 = False, rrrr30 = False, rrr20 = False, KKKK118_30 = False,
     imm16 = False\<rparr>"

definition avr_instr :: "instr_decode list" where
  "avr_instr = [
     plain 0x0000 0xffff Instr_nop,
     (plain 0x0100 0xff00 Instr_movw)\<lparr>dddd74 := True, rrrr30 := True\<rparr>,
     (plain 0x0200 0xff00 Instr_muls)\<lparr>dddd74 := True, rrrr30 := True\<rparr>,
     (plain 0x0300 0xff88 Instr_mulsu)\<lparr>ddd64 := True, rrr20 := True\<rparr>,
     (plain 0x0308 0xff88 Instr_fmul)\<lparr>ddd64 := True, rrr20 := True\<rparr>,
     (plain 0x0380 0xff80 Instr_fmulsu)\<lparr>ddd64 := True, rrr20 := True\<rparr>,
     (plain 0x0400 0xec00 Instr_cpc)\<lparr>ddddd84 := True, rrrrr9_30 := True\<rparr>,
     (plain 0x0800 0xec00 Instr_cpc)\<lparr>ddddd84 := True, rrrrr9_30 := True\<rparr>,
     (plain 0x0c00 0xec00 Instr_adc)\<lparr>ddddd84 := True, rrrrr9_30 := True\<rparr>,
     (plain 0x1000 0xfc00 Instr_cpse)\<lparr>ddddd84 := True, rrrrr9_30 := True\<rparr>,
     (plain 0x2000 0xfc00 Instr_and)\<lparr>ddddd84 := True, rrrrr9_30 := True\<rparr>,
     (plain 0x2400 0xfc00 Instr_xor)\<lparr>ddddd84 := True, rrrrr9_30 := True\<rparr>,
     (plain 0x2800 0xfc00 Instr_or)\<lparr>ddddd84 := True, rrrrr9_30 := True\<rparr>,
     (plain 0x2c00 0xfc00 Instr_mov)\<lparr>ddddd84 := True, rrrrr9_30 := True\<rparr>,
     (plain 0x3000 0xf000 Instr_cpi)\<lparr>dddd74 := True, KKKK118_30 := True\<rparr>,
     (plain 0x4000 0xe000 Instr_cpi)\<lparr>dddd74 := True, KKKK118_30 := True\<rparr>,
     (plain 0x6000 0xf000 Instr_ori)\<lparr>dddd74 := True, KKKK118_30 := True\<rparr>,
     (plain 0x7000 0xf000 Instr_andi)\<lparr>dddd74 := True, KKKK118_30 := True\<rparr>,
     (plain 0x8000 0xd200 Instr_ldyz)\<lparr>ddddd84 := True\<rparr>,
     (plain 0x8200 0xd200 Instr_styz)\<lparr>ddddd84 := True\<rparr>,
     (plain 0x9000 0xfe0f Instr_lds)\<lparr>ddddd84 := True, imm16 := True\<rparr>,
     (plain 0x9001 0xfe07 Instr_ldyz)\<lparr>ddddd84 := True\<rparr>,
     (plain 0x9002 0xfe07 Instr_ldyz)\<lparr>ddddd84 := True\<rparr>,
     (plain 0x9004 0xfe0c Instr_elpmz)\<lparr>ddddd84 := True\<rparr>,
     (plain 0x900c 0xfe0e Instr_ldx)\<lparr>ddddd84 := True\<rparr>,
     (plain 0x900e 0xfe0f Instr_ldx)\<lparr>ddddd84 := True\<rparr>,
     (plain 0x900f 0xfe0f Instr_pop)\<lparr>ddddd84 := True\<rparr>,
     (plain 0x9200 0xfe0f Instr_sts)\<lparr>ddddd84 := True, imm16 := True\<rparr>,
     (plain 0x9201 0xfe07 Instr_styz)\<lparr>ddddd84 := True\<rparr>,
     (plain 0x9202 0xfe07 Instr_styz)\<lparr>ddddd84 := True\<rparr>,
     (plain 0x9204 0xfe0c Instr_xch)\<lparr>ddddd84 := True\<rparr>,
     (plain 0x920c 0xfe0e Instr_stx)\<lparr>ddddd84 := True\<rparr>,
     (plain 0x920e 0xfe0f Instr_stx)\<lparr>ddddd84 := True\<rparr>,
     (plain 0x920f 0xfe0f Instr_push)\<lparr>ddddd84 := True\<rparr>,
     (plain 0x9400 0xfe0f Instr_com)\<lparr>ddddd84 := True\<rparr>,
     (plain 0x9401 0xfe0f Instr_neg)\<lparr>ddddd84 := True\<rparr>,
     (plain 0x9402 0xfe0f Instr_swap)\<lparr>ddddd84 := True\<rparr>,
     (plain 0x9403 0xfe0f Instr_inc)\<lparr>ddddd84 := True\<rparr>,
     (plain 0x9405 0xfe0f Instr_asr)\<lparr>ddddd84 := True\<rparr>,
     (plain 0x9406 0xfe0f Instr_lsr)\<lparr>ddddd84 := True\<rparr>,
     (plain 0x9407 0xfe0f Instr_ror)\<lparr>ddddd84 := True\<rparr>,
     (plain 0x9408 0xff0f Instr_bclrset)\<lparr>ddd64 := True\<rparr>,
     (plain 0x940a 0xfe0f Instr_dec)\<lparr>ddddd84 := True\<rparr>,
     (plain 0x940b 0xff0f Instr_des)\<lparr>dddd74 := True\<rparr>,
     (plain 0x940c 0xfe0e Instr_jmp)\<lparr>imm16 := True\<rparr>,
     (plain 0x940e 0xfe0e Instr_call)\<lparr>imm16 := True\<rparr>,
     plain 0x9508 0xffff Instr_ret,
     plain 0x9409 0xfeef Instr_eicalljump,
     plain 0x9518 0xffff Instr_reti,
     plain 0x9588 0xffff Instr_unimp,
     plain 0x9598 0xffff Instr_unimp,
     plain 0x95a8 0xffff Instr_unimp,
     plain 0x95c8 0xffef Instr_elpm,
     plain 0x95e8 0xffff Instr_unimp,
     plain 0x95f8 0xffff Instr_unimp,
     plain 0x9600 0xff00 Instr_adiw,
     plain 0x9700 0xff00 Instr_sbiw,
     (plain 0x9800 0xfd00 Instr_cbisbi)\<lparr>rrr20 := True\<rparr>,
     (plain 0x9900 0xfd00 Instr_sbics)\<lparr>rrr20 := True\<rparr>,
     (plain 0x9c00 0xfc00 Instr_mul)\<lparr>ddddd84 := True, rrrrr9_30 := True\<rparr>,
     (plain 0xb000 0xf800 Instr_in)\<lparr>ddddd84 := True\<rparr>,
     (plain 0xb800 0xf800 Instr_out)\<lparr>ddddd84 := True\<rparr>,
     plain 0xc000 0xe000 Instr_rcalljmp,
     (plain 0xe000 0xf000 Instr_ldi)\<lparr>dddd74 := True, KKKK118_30 := True\<rparr>,
     (plain 0xf000 0xf800 Instr_brb)\<lparr>rrr20 := True\<rparr>,
     (plain 0xf800 0xfe08 Instr_bld)\<lparr>ddddd84 := True, rrr20 := True\<rparr>,
     (plain 0xfa00 0xfe08 Instr_bst)\<lparr>ddddd84 := True, rrr20 := True\<rparr>,
     (plain 0xfc00 0xfc08 Instr_sbrcs)\<lparr>ddddd84 := True, rrr20 := True\<rparr>]"

definition matches :: "u16 \<Rightarrow> instr_decode \<Rightarrow> bool" where
  "matches w e \<longleftrightarrow> w AND imask e = pattern e"

definition lookup :: "u16 \<Rightarrow> instr_decode option" where
  "lookup w = find (matches w) avr_instr"

section \<open>Operand fields\<close>

text \<open>
  The body of \<open>emulate1\<close> clears the record and then runs one guarded assignment per flag
  of the row; a later one overrides an earlier one to the same field.
\<close>

definition decode_ddddd :: "instr_decode \<Rightarrow> u16 \<Rightarrow> u8" where
  "decode_ddddd e w =
     (let d = 0;
          d = (if ddddd84 e then ucast (drop_bit 4 (bits w 8 4)) else d);
          d = (if dddd74 e then 16 + ucast (drop_bit 4 (bits w 7 4)) else d)
      in if ddd64 e then 16 + ucast (drop_bit 4 (bits w 6 4)) else d)"

definition decode_rrrrr :: "instr_decode \<Rightarrow> u16 \<Rightarrow> u8" where
  "decode_rrrrr e w =
     (let r = 0;
          r = (if rrrrr9_30 e then ucast (drop_bit 5 (bits w 9 9) OR bits w 3 0) else r);
          r = (if rrrr30 e then 16 + ucast (bits w 3 0) else r)
      in if rrr20 e then 16 + ucast (bits w 2 0) else r)"

definition decode_imm_u8 :: "instr_decode \<Rightarrow> u16 \<Rightarrow> u8" where
  "decode_imm_u8 e w =
     (if KKKK118_30 e then ucast (drop_bit 4 (bits w 11 8) OR bits w 3 0) else 0)"

definition decode_fields :: "instr_decode \<Rightarrow> u16 \<Rightarrow> u16 \<Rightarrow> idc" where
  "decode_fields e w imm =
     \<lparr>instr = w, ddddd = decode_ddddd e w, rrrrr = decode_rrrrr e w,
      imm_u8 = decode_imm_u8 e w, imm_u16 = imm, setflags = 0, clrflags = 0\<rparr>"

section \<open>Every row calls a handler that abides by the contract\<close>

lemma call_instr_handler: "instr_handler (call_instr des c)"
  by (cases c) (simp_all add: alu_handlers flow_handlers mem_handlers)

interpretation call: instr_handler "call_instr des c" for des c
  by (rule call_instr_handler)

section \<open>Rows exclude each other\<close>

definition row_key :: "instr_decode \<Rightarrow> u16 \<times> u16" where
  "row_key e = (pattern e, imask e)"

fun keys_apart :: "(u16 \<times> u16) list \<Rightarrow> bool" where
  "keys_apart [] \<longleftrightarrow> True"
| "keys_apart (x # xs) \<longleftrightarrow>
     list_all (\<lambda>y. (fst x XOR fst y) AND snd x AND snd y \<noteq> 0) xs \<and> keys_apart xs"

lemma avr_instr_apart: "keys_apart (map row_key avr_instr)"
  by (simp add: avr_instr_def row_key_def plain_def)

lemma not_both_match:
  assumes "matches w e" "matches w f"
  shows "(pattern e XOR pattern f) AND imask e AND imask f = 0"
proof -
  have "pattern e = w AND imask e" "pattern f = w AND imask f"
    using assms by (simp_all add: matches_def)
  then show ?thesis
    by (intro bit_word_eqI) (auto simp: bit_simps)
qed

lemma find_unique:
  "keys_apart (map row_key es) \<Longrightarrow> e \<in> set es \<Longrightarrow> matches w e \<Longrightarrow> find (matches w) es = Some e"
proof (induction es)
  case (Cons f es)
  show ?case
  proof (cases "f = e")
    case False
    with Cons.prems have "e \<in> set es" by simp
    with Cons.prems(1) have "(pattern f XOR pattern e) AND imask f AND imask e \<noteq> 0"
      by (auto simp: list_all_iff row_key_def)
    with Cons.prems(3) have "\<not> matches w f" using not_both_match by blast
    with Cons \<open>e \<in> set es\<close> show ?thesis by simp
  qed (use Cons.prems in simp)
qed simp

lemma lookup_row: "e \<in> set avr_instr \<Longrightarrow> matches w e \<Longrightarrow> lookup w = Some e"
  unfolding lookup_def by (rule find_unique [OF avr_instr_apart])

lemma lookup_Some: "lookup w = Some e \<Longrightarrow> e \<in> set avr_instr \<and> matches w e"
  unfolding lookup_def by (auto simp: find_Some_iff)

lemma decode_flags [simp]: "setflags (decode_fields e w imm) = 0" "clrflags (decode_fields e w imm) = 0"
  "instr (decode_fields e w imm) = w" "imm_u16 (decode_fields e w imm) = imm"
  by (simp_all add: decode_fields_def)

end
