(* ===== verification/Emulate.thy ===== *)
theory Emulate
  imports Decode
begin

text \<open>
  One emulated instruction (\<open>emulate1\<close>) and the instruction trace. \<open>emulate1_pass\<close> is
  the body from the label \<open>restart\<close> to the return or the \<open>goto\<close>; its second component
  says whether the body ends in the \<open>goto\<close>.
\<close>

unbundle bit_operations_syntax

section \<open>The trace\<close>

text \<open>The bytes that \<open>fprintf\<close> with format \<open>%04x\<close> and a space, or \<open>fwrite\<close> of a
  16-bit word on a little-endian host, append to the trace file.\<close>

definition hex_digit :: "u16 \<Rightarrow> u8" where
  "hex_digit d = (if d < 10 then 48 + ucast d else 87 + ucast d)"

definition hex4 :: "u16 \<Rightarrow> u8 list" where
  "hex4 w = [hex_digit (drop_bit 12 w), hex_digit (drop_bit 8 w AND 15),
     hex_digit (drop_bit 4 w AND 15), hex_digit (w AND 15)]"

definition trace_word :: "bool \<Rightarrow> u16 \<Rightarrow> u8 list" where
  "trace_word hex w = (if hex then hex4 w @ [32] else [lo_byte w, hi_byte w])"

primrec trace_words :: "machine \<Rightarrow> u32 \<Rightarrow> nat \<Rightarrow> fault + u8 list" where
  "trace_words s a 0 = Inr []"
| "trace_words s a (Suc n) =
     bindR (romword a s) (\<lambda>w.
     bindR (trace_words s (a + 1) n) (\<lambda>rest. Inr (trace_word (tracehex s) w @ rest)))"

definition trace_step :: "machine \<Rightarrow> fault + machine" where
  "trace_step s =
     (if \<not> replay_mode s then
        case tracefile s of
          None \<Rightarrow> Inr s
        | Some out \<Rightarrow>
            if \<not> (0 < instr_size s \<and> instr_size s < 3) then Inl (Bad_instr_size (instr_size s))
            else bindR (trace_words s (pc_start s) (unat (instr_size s))) (\<lambda>bs.
                 Inr (s\<lparr>tracefile := Some (out @ bs @ (if tracehex s then [10] else []))\<rparr>))
      else Inr s)"

section \<open>One instruction\<close>

definition fetch :: "machine \<Rightarrow> fault + (u16 \<times> instr_decode \<times> u16 \<times> machine)" where
  "fetch s =
     (let s = s\<lparr>pc_start := pc s, instr_size := 1\<rparr>
      in bindR (romword (pc s) s) (\<lambda>w.
         case lookup w of
           None \<Rightarrow> Inl (illins w s)
         | Some e \<Rightarrow>
             if imm16 e then
               bindR (romword (pc s + 1) s) (\<lambda>imm.
                 Inr (w, e, imm, s\<lparr>instr_size := instr_size s + 1\<rparr>))
             else Inr (w, e, 0, s)))"

definition retire :: "idc \<Rightarrow> machine \<Rightarrow> fault + machine" where
  "retire idc s =
     (if clrflags idc AND setflags idc \<noteq> 0
      then Inl (Overlapped_flags (clrflags idc AND setflags idc))
      else
        let s = mem_upd SREG (sreg_after (setflags idc, clrflags idc) (memory s SREG)) s;
            s = s\<lparr>pc := pc s + instr_size s\<rparr>
        in bindR (trace_step s) (\<lambda>s. Inr (s\<lparr>insns := insns s + 1\<rparr>)))"

definition emulate1_pass :: "des_ecb \<Rightarrow> machine \<Rightarrow> fault + (machine \<times> bool)" where
  "emulate1_pass des s =
     bindR (fetch s) (\<lambda>(w, e, imm, s).
       if skip_next_instruction s then
         Inr (s\<lparr>skip_next_instruction := False, pc := pc s + instr_size s\<rparr>, False)
       else
         bindR (call_instr des (code e) (decode_fields e w imm) s) (\<lambda>(idc, s).
         bindR (retire idc s) (\<lambda>s.
         Inr (s, skip_next_instruction s))))"

lemma fetch_skip: "fetch s = Inr (w, e, imm, t) \<Longrightarrow> skip_next_instruction t = skip_next_instruction s"
  by (auto simp: fetch_def Let_def elim!: bindR_InrE split: option.splits if_splits)

lemma pass_again:
  "emulate1_pass des s = Inr (t, True) \<Longrightarrow> \<not> skip_next_instruction s \<and> skip_next_instruction t"
  by (auto simp: emulate1_pass_def elim!: bindR_InrE split: if_splits dest: fetch_skip)

function emulate1 :: "des_ecb \<Rightarrow> machine \<Rightarrow> fault + machine" where
  "emulate1 des s =
     (case emulate1_pass des s of
        Inl e \<Rightarrow> Inl e
      | Inr r \<Rightarrow> if snd r then emulate1 des (fst r) else Inr (fst r))"
  by pat_completeness auto
termination
  by (relation "measure (\<lambda>(des, s). if skip_next_instruction s then 0 else 1)")
    (auto dest!: pass_again)

declare emulate1.simps [simp del]

section \<open>Fetching and tracing inside flash\<close>

lemma rom_in_range: "unat a < FLASH_SIZE \<Longrightarrow> romword a s = Inr (flash s (unat a))"
  by (auto simp: romword_def program_range_check [simplified])

lemma romword_frame: "flash t = flash s \<Longrightarrow> romword a t = romword a s"
  by (simp add: romword_def)

lemma trace_words_frame:
  assumes "flash t = flash s" "tracehex t = tracehex s"
  shows "trace_words t a n = trace_words s a n"
  using assms by (induction n arbitrary: a) (simp_all add: romword_frame [OF assms(1)])

lemma fetch_Inr:
  assumes "fetch s = Inr (w, e, imm, t)"
  obtains "unat (pc s) < FLASH_SIZE" "w = flash s (unat (pc s))" "lookup w = Some e"
    "imm16 e \<Longrightarrow> unat (pc s + 1) < FLASH_SIZE \<and> imm = flash s (unat (pc s + 1))"
    "\<not> imm16 e \<Longrightarrow> imm = 0"
    "t = s\<lparr>pc_start := pc s, instr_size := if imm16 e then 2 else 1\<rparr>"
  using assms
  by (auto simp: fetch_def Let_def romword_def program_range_check [simplified]
      elim!: bindR_InrE split: option.splits if_splits)

lemma fetch_one_word:
  assumes "unat (pc s) < FLASH_SIZE" "lookup (flash s (unat (pc s))) = Some e" "\<not> imm16 e"
  shows "fetch s = Inr (flash s (unat (pc s)), e, 0, s\<lparr>pc_start := pc s, instr_size := 1\<rparr>)"
  using assms by (simp add: fetch_def rom_in_range)

lemma fetch_two_words:
  assumes "unat (pc s) < FLASH_SIZE" "unat (pc s + 1) < FLASH_SIZE"
    and "lookup (flash s (unat (pc s))) = Some e" "imm16 e"
  shows "fetch s = Inr (flash s (unat (pc s)), e, flash s (unat (pc s + 1)),
           s\<lparr>pc_start := pc s, instr_size := 2\<rparr>)"
  using assms by (simp add: fetch_def rom_in_range)

text \<open>The trace of an instruction whose words are in flash.\<close>

definition words_at :: "machine \<Rightarrow> u32 \<Rightarrow> nat \<Rightarrow> u16 list" where
  "words_at s a n = map (\<lambda>i. flash s (unat (a + of_nat i))) [0..<n]"

lemma trace_words_in_range:
  "(\<And>i. i < n \<Longrightarrow> unat (a + of_nat i) < FLASH_SIZE) \<Longrightarrow>
     trace_words s a n = Inr (concat (map (trace_word (tracehex s)) (words_at s a n)))"
proof (induction n arbitrary: a)
  case (Suc n)
  have "unat a < FLASH_SIZE" using Suc.prems [of 0] by simp
  moreover have "trace_words s (a + 1) n =
      Inr (concat (map (trace_word (tracehex s)) (words_at s (a + 1) n)))"
    using Suc.prems [of "Suc i" for i] by (intro Suc.IH) (simp add: add.assoc)
  moreover have "words_at s a (Suc n) = flash s (unat a) # words_at s (a + 1) n"
    by (simp add: words_at_def upt_conv_Cons map_Suc_upt [symmetric] add.assoc del: upt_Suc)
  ultimately show ?case by (simp add: rom_in_range)
qed (simp add: words_at_def)

definition traced :: "machine \<Rightarrow> u16 list \<Rightarrow> u8 list option" where
  "traced s ws =
     (if replay_mode s then tracefile s
      else map_option (\<lambda>out. out @ concat (map (trace_word (tracehex s)) ws) @
             (if tracehex s then [10] else [])) (tracefile s))"

lemma trace_step_ok:
  assumes "instr_size s = 1 \<or> instr_size s = 2"
    and "\<And>i. i < unat (instr_size s) \<Longrightarrow> unat (pc_start s + of_nat i) < FLASH_SIZE"
  shows "trace_step s =
    Inr (s\<lparr>tracefile := traced s (words_at s (pc_start s) (unat (instr_size s)))\<rparr>)"
proof -
  have "0 < instr_size s \<and> instr_size s < 3" using assms(1) by auto
  then show ?thesis
    using trace_words_in_range [OF assms(2)]
    by (auto simp: trace_step_def traced_def split: option.splits)
qed

end
