(* ===== verification/Execute.thy ===== *)
theory Execute
  imports Emulate
begin

text \<open>
  From handlers to whole instructions. A machine is \<open>ready\<close> for a word when it is the next
  instruction in flash and no skip is pending; \<open>after\<close> is the state that \<open>emulate1\<close> leaves:
  new memory and program counter, the instruction counted and traced. The lemmas of this theory
  reduce \<open>emulate1\<close> on a ready machine to the handler of the word's row, and read the
  operand fields of a word as numbers.
\<close>

unbundle bit_operations_syntax

section \<open>A ready instruction and the state after it\<close>

definition ready :: "machine \<Rightarrow> u16 \<Rightarrow> bool" where
  "ready s w \<longleftrightarrow> \<not> skip_next_instruction s \<and> unat (pc s) < FLASH_SIZE \<and>
     flash s (unat (pc s)) = w"

definition ready2 :: "machine \<Rightarrow> u16 \<Rightarrow> u16 \<Rightarrow> bool" where
  "ready2 s w imm \<longleftrightarrow> ready s w \<and> unat (pc s + 1) < FLASH_SIZE \<and>
     flash s (unat (pc s + 1)) = imm"

definition begun :: "machine \<Rightarrow> nat \<Rightarrow> machine" where
  "begun s n = s\<lparr>pc_start := pc s, instr_size := of_nat n\<rparr>"

definition after :: "machine \<Rightarrow> nat \<Rightarrow> (nat \<Rightarrow> u8) \<Rightarrow> u32 \<Rightarrow> machine" where
  "after s n m p = s\<lparr>memory := m, pc := p, pc_start := pc s, instr_size := of_nat n,
     insns := insns s + 1, tracefile := traced s (words_at s (pc s) n)\<rparr>"

definition flagged :: "idc \<Rightarrow> (nat \<Rightarrow> u8) \<Rightarrow> nat \<Rightarrow> u8" where
  "flagged idc m = m(SREG := sreg_after (idc_flags idc) (m SREG))"

lemma machine_eqI:
  fixes s t :: machine
  assumes "same_frame s t" "pc s = pc t" "memory s = memory t"
    "skip_next_instruction s = skip_next_instruction t"
  shows "s = t"
  using assms by (cases s, cases t) (simp add: same_frame_def)

lemma words_at_frame: "flash t = flash s \<Longrightarrow> words_at t a n = words_at s a n"
  by (simp add: words_at_def)

lemma traced_frame:
  assumes "replay_mode t = replay_mode s" "tracefile t = tracefile s" "tracehex t = tracehex s"
  shows "traced t ws = traced s ws"
  using assms by (simp add: traced_def)

lemma retire_ok:
  assumes frame: "same_frame (begun s n) t" and n: "n = 1 \<or> n = 2"
    and rom: "\<And>i. i < n \<Longrightarrow> unat (pc s + of_nat i) < FLASH_SIZE"
    and flags: "flags_disjoint (idc_flags idc)"
  shows "retire idc t = Inr (after s n (flagged idc (memory t)) (pc t + of_nat n)
      \<lparr>skip_next_instruction := skip_next_instruction t\<rparr>)"
proof -
  let ?u = "(mem_upd SREG (sreg_after (idc_flags idc) (memory t SREG)) t)\<lparr>pc := pc t + of_nat n\<rparr>"
  have fr: "pc_start t = pc s" "instr_size t = of_nat n" "flash t = flash s" "insns t = insns s"
    "replay_mode t = replay_mode s" "tracefile t = tracefile s" "tracehex t = tracehex s"
    using frame by (simp_all add: same_frame_def begun_def)
  have un: "unat (of_nat n :: u32) = n" using n by auto
  have "trace_step ?u = Inr (?u\<lparr>tracefile := traced ?u (words_at ?u (pc s) n)\<rparr>)"
    using trace_step_ok [of ?u] n rom by (auto simp: fr un)
  moreover have "traced ?u (words_at ?u (pc s) n) = traced s (words_at s (pc s) n)"
    by (simp add: traced_def words_at_def fr cong: option.map_cong)
  moreover have "clrflags idc AND setflags idc = 0"
    using flags by (simp add: flags_disjoint_def idc_flags_def and.commute)
  moreover have "?u\<lparr>tracefile := x, insns := insns s + 1\<rparr> =
      after s n (flagged idc (memory t)) (pc t + of_nat n)
        \<lparr>skip_next_instruction := skip_next_instruction t, tracefile := x\<rparr>" for x
    using frame by (intro machine.equality)
      (simp_all add: after_def flagged_def mem_upd_def same_frame_def begun_def)
  ultimately show ?thesis
    by (simp add: retire_def fr idc_flags_def after_def)
qed

lemma decode_flags_empty: "idc_flags (decode_fields e w imm) = (0, 0)"
  by (simp add: idc_flags_def)

lemma emulate1_pass_exec:
  assumes fetch: "fetch s = Inr (w, e, imm, begun s n)" and n: "n = (if imm16 e then 2 else 1)"
    and "\<not> skip_next_instruction s"
    and h: "call_instr des (code e) (decode_fields e w imm) (begun s n) = Inr (idc, t)"
  shows "emulate1_pass des s =
    Inr (after s n (flagged idc (memory t)) (pc t + of_nat n)
      \<lparr>skip_next_instruction := skip_next_instruction t\<rparr>, skip_next_instruction t)"
proof -
  have rom: "unat (pc s + of_nat i) < FLASH_SIZE" if "i < n" for i
    using fetch n that by (auto elim!: fetch_Inr split: if_splits simp: less_Suc_eq numeral_2_eq_2)
  have "retire idc t = Inr (after s n (flagged idc (memory t)) (pc t + of_nat n)
      \<lparr>skip_next_instruction := skip_next_instruction t\<rparr>)"
    using n by (intro retire_ok call.frame [OF h] rom call.flags [OF h] decode_flags_empty) auto
  moreover have "\<not> skip_next_instruction (begun s n)"
    using assms(3) by (simp add: begun_def)
  ultimately show ?thesis
    by (simp add: emulate1_pass_def fetch h)
qed

lemma emulate1_exec:
  assumes "fetch s = Inr (w, e, imm, begun s n)" "n = (if imm16 e then 2 else 1)"
    and "\<not> skip_next_instruction s"
    and "call_instr des (code e) (decode_fields e w imm) (begun s n) = Inr (idc, t)"
    and "\<not> skip_next_instruction t"
  shows "emulate1 des s = Inr (after s n (flagged idc (memory t)) (pc t + of_nat n))"
  using emulate1_pass_exec [OF assms(1-4)] assms(3,5)
  by (simp add: emulate1.simps [of des s] after_def)

lemma exec_one:
  assumes "ready s w" "lookup w = Some e" "\<not> imm16 e"
    and "call_instr des (code e) (decode_fields e w 0) (begun s 1) = Inr (idc, t)"
    and "\<not> skip_next_instruction t"
  shows "emulate1 des s = Inr (after s 1 (flagged idc (memory t)) (pc t + 1))"
proof -
  have "fetch s = Inr (w, e, 0, begun s 1)"
    using assms(1-3) by (simp add: ready_def fetch_one_word begun_def)
  from emulate1_exec [OF this _ _ assms(4,5)] show ?thesis
    using assms(1,3) by (simp add: ready_def)
qed

lemma exec_two:
  assumes "ready2 s w imm" "lookup w = Some e" "imm16 e"
    and "call_instr des (code e) (decode_fields e w imm) (begun s 2) = Inr (idc, t)"
    and "\<not> skip_next_instruction t"
  shows "emulate1 des s = Inr (after s 2 (flagged idc (memory t)) (pc t + 2))"
proof -
  have "fetch s = Inr (w, e, imm, begun s 2)"
    using assms(1-3) by (simp add: ready_def ready2_def fetch_two_words begun_def)
  from emulate1_exec [OF this _ _ assms(4,5)] show ?thesis
    using assms(1,3) by (simp add: ready_def ready2_def)
qed

text \<open>An instruction that faults.\<close>

lemma exec_fault:
  assumes "ready s w" "lookup w = Some e" "\<not> imm16 e"
    and "call_instr des (code e) (decode_fields e w 0) (begun s 1) = Inl f"
  shows "emulate1 des s = Inl f"
proof -
  have "fetch s = Inr (w, e, 0, begun s 1)"
    using assms(1-3) by (simp add: ready_def fetch_one_word begun_def)
  with assms show ?thesis
    by (simp add: emulate1.simps [of des s] emulate1_pass_def begun_def ready_def)
qed

text \<open>The pass that skips: the next instruction is decoded only for its size.\<close>

definition skip_size :: "machine \<Rightarrow> u32 \<Rightarrow> nat" where
  "skip_size s a = (case lookup (flash s (unat a)) of
     Some e \<Rightarrow> if imm16 e then 2 else 1 | None \<Rightarrow> 0)"

definition skipped :: "machine \<Rightarrow> nat \<Rightarrow> machine" where
  "skipped s k = s\<lparr>pc_start := pc s, instr_size := of_nat k, pc := pc s + of_nat k\<rparr>"

lemma exec_skip:
  assumes "ready s w" "lookup w = Some e" "\<not> imm16 e"
    and h: "call_instr des (code e) (decode_fields e w 0) (begun s 1) = Inr (idc, t)"
    and t: "skip_next_instruction t"
    and nxt: "lookup (flash s (unat (pc s + 1))) = Some f"
    and rom: "\<And>i. i < (if imm16 f then 2 else 1) \<Longrightarrow> unat (pc s + 1 + of_nat i) < FLASH_SIZE"
  shows "emulate1 des s =
    Inr (skipped (after s 1 (flagged idc (memory t)) (pc s + 1)) (if imm16 f then 2 else 1))"
proof -
  let ?u = "after s 1 (flagged idc (memory t)) (pc t + of_nat 1) \<lparr>skip_next_instruction := True\<rparr>"
  have f: "fetch s = Inr (w, e, 0, begun s 1)"
    using assms(1-3) by (simp add: ready_def fetch_one_word begun_def)
  have s: "\<not> skip_next_instruction s" using assms(1) by (simp add: ready_def)
  have "skip_ok (begun s 1) t" by (rule call.skip [OF h])
  then have pct: "pc t = pc s" using t s by (simp add: skip_ok_def begun_def)
  have "unat (pc s + 1) < FLASH_SIZE" using rom [of 0] by (simp split: if_splits)
  moreover have "imm16 f \<Longrightarrow> unat (pc s + 1 + 1) < FLASH_SIZE" using rom [of 1] by simp
  ultimately have "fetch ?u =
      Inr (flash s (unat (pc s + 1)), f, if imm16 f then flash s (unat (pc s + 1 + 1)) else 0,
        begun ?u (if imm16 f then 2 else 1))"
    using nxt fetch_one_word [of ?u f] fetch_two_words [of ?u f]
    by (cases "imm16 f") (simp_all add: after_def begun_def pct)
  then have "emulate1_pass des ?u =
      Inr (skipped (after s 1 (flagged idc (memory t)) (pc s + 1)) (if imm16 f then 2 else 1), False)"
    using s by (simp add: emulate1_pass_def begun_def skipped_def after_def pct)
  then have "emulate1 des ?u =
      Inr (skipped (after s 1 (flagged idc (memory t)) (pc s + 1)) (if imm16 f then 2 else 1))"
    by (subst emulate1.simps) (simp only: sum.case fst_conv snd_conv if_False)
  moreover have "emulate1_pass des s = Inr (?u, True)"
    using emulate1_pass_exec [OF f _ s h] assms(3) t by simp
  ultimately show ?thesis
    by (subst emulate1.simps) (simp only: sum.case fst_conv snd_conv if_True)
qed

section \<open>Operand fields in arithmetic\<close>

definition op_d5 :: "u16 \<Rightarrow> nat" where "op_d5 w = unat w div 16 mod 32"
definition op_d4 :: "u16 \<Rightarrow> nat" where "op_d4 w = 16 + unat w div 16 mod 16"
definition op_d3 :: "u16 \<Rightarrow> nat" where "op_d3 w = 16 + unat w div 16 mod 8"
definition op_r5 :: "u16 \<Rightarrow> nat" where "op_r5 w = unat w mod 16 + 16 * (unat w div 512 mod 2)"
definition op_r4 :: "u16 \<Rightarrow> nat" where "op_r4 w = 16 + unat w mod 16"
definition op_r3 :: "u16 \<Rightarrow> nat" where "op_r3 w = 16 + unat w mod 8"
definition op_K8 :: "u16 \<Rightarrow> u8" where "op_K8 w = of_nat (unat w mod 16 + 16 * (unat w div 256 mod 16))"
definition op_K6 :: "u16 \<Rightarrow> nat" where "op_K6 w = unat w mod 16 + 16 * (unat w div 64 mod 4)"
definition op_A5 :: "u16 \<Rightarrow> nat" where "op_A5 w = unat w div 8 mod 32"
definition op_A6 :: "u16 \<Rightarrow> nat" where "op_A6 w = unat w mod 16 + 16 * (unat w div 512 mod 4)"

lemma op_less: "op_d5 w < 32" "op_d4 w < 32" "op_d3 w < 24" "op_r5 w < 32" "op_r4 w < 32" "op_r3 w < 24"
  "op_K6 w < 64" "op_A5 w < 32" "op_A6 w < 64"
proof -
  have "unat w mod 16 < 16" "unat w mod 8 < 8" "unat w div 16 mod 32 < 32" "unat w div 16 mod 16 < 16"
    "unat w div 16 mod 8 < 8" "unat w div 512 mod 2 < 2" "unat w div 64 mod 4 < 4" "unat w div 8 mod 32 < 32"
    "unat w div 512 mod 4 < 4"
    by simp_all
  then show "op_d5 w < 32" "op_d4 w < 32" "op_d3 w < 24" "op_r5 w < 32" "op_r4 w < 32" "op_r3 w < 24"
  "op_K6 w < 64" "op_A5 w < 32" "op_A6 w < 64"
   unfolding op_d5_def op_d4_def op_d3_def op_r5_def op_r4_def op_r3_def op_K6_def op_A5_def op_A6_def
   by linarith+
qed

lemma field_low: "unat (w AND mask n) = unat w mod 2 ^ n" for w :: u16
  by (rule unat_and_mask)

lemma field_shifted: "drop_bit k (w AND push_bit j (mask n)) = push_bit (j - k) (take_bit n (drop_bit j w))"
  if "k \<le> j" for w :: u16
  using that by (intro bit_word_eqI) (auto simp: bit_simps add.commute dest: bit_imp_le_length)

lemma unat_field:
  assumes "k \<le> j" "n + (j - k) \<le> 16"
  shows "unat (drop_bit k (w AND push_bit j (mask n)) :: u16) = unat w div 2 ^ j mod 2 ^ n * 2 ^ (j - k)"
proof -
  have "unat (take_bit n (drop_bit j w)) = unat w div 2 ^ j mod 2 ^ n"
    by (simp only: unsigned_take_bit_eq unat_drop_bit_eq) (simp only: take_bit_eq_mod drop_bit_eq_div)
  moreover have "unat w div 2 ^ j mod 2 ^ n * 2 ^ (j - k) < 2 ^ 16"
  proof (rule less_le_trans)
    show "unat w div 2 ^ j mod 2 ^ n * 2 ^ (j - k) < 2 ^ n * 2 ^ (j - k)" by simp
    show "(2::nat) ^ n * 2 ^ (j - k) \<le> 2 ^ 16"
      unfolding power_add [symmetric] using assms by (intro power_increasing) simp_all
  qed
  ultimately show ?thesis
    unfolding field_shifted [OF assms(1)] unsigned_push_bit_eq
    by (simp only: len_bit0 len_num1 push_bit_eq_mult) (simp add: take_bit_nat_eq_self)
qed

lemma field_masks:
  "push_bit 4 (mask 5) = (0x1f0 :: u16)" "push_bit 4 (mask 4) = (0xf0 :: u16)"
  "push_bit 4 (mask 3) = (0x70 :: u16)" "push_bit 9 (mask 1) = (0x200 :: u16)"
  "push_bit 8 (mask 4) = (0xf00 :: u16)" "push_bit 4 (mask 2) = (0x30 :: u16)"
  "push_bit 6 (mask 2) = (0xc0 :: u16)" "push_bit 3 (mask 5) = (0xf8 :: u16)"
  "push_bit 9 (mask 2) = (0x600 :: u16)" "push_bit 3 (mask 7) = (0x3f8 :: u16)"
  "mask 3 = (7 :: u16)" "mask 4 = (15 :: u16)"
  by (simp_all add: mask_eq_exp_minus_1)

lemma fields16:
  fixes w :: u16
  shows "unat (w AND 7) = unat w mod 8" "unat (w AND 15) = unat w mod 16"
    "unat (drop_bit 4 (w AND 0x1f0)) = unat w div 16 mod 32"
    "unat (drop_bit 4 (w AND 0xf0)) = unat w div 16 mod 16"
    "unat (drop_bit 4 (w AND 0x70)) = unat w div 16 mod 8"
    "unat (drop_bit 5 (w AND 0x200)) = unat w div 512 mod 2 * 16"
    "unat (drop_bit 4 (w AND 0xf00)) = unat w div 256 mod 16 * 16"
    "unat (drop_bit 3 (w AND 0x30)) = unat w div 16 mod 4 * 2"
    "unat (drop_bit 2 (w AND 0xc0)) = unat w div 64 mod 4 * 16"
    "unat (drop_bit 3 (w AND 0xf8)) = unat w div 8 mod 32"
    "unat (drop_bit 5 (w AND 0x600)) = unat w div 512 mod 4 * 16"
    "unat (drop_bit 3 (w AND 0x3f8)) = unat w div 8 mod 128"
  subgoal using field_low [of w 3] unfolding field_masks by simp
  subgoal using field_low [of w 4] unfolding field_masks by simp
  subgoal using unat_field [of 4 4 5 w] unfolding field_masks by simp
  subgoal using unat_field [of 4 4 4 w] unfolding field_masks by simp
  subgoal using unat_field [of 4 4 3 w] unfolding field_masks by simp
  subgoal using unat_field [of 5 9 1 w] unfolding field_masks by simp
  subgoal using unat_field [of 4 8 4 w] unfolding field_masks by simp
  subgoal using unat_field [of 3 4 2 w] unfolding field_masks by simp
  subgoal using unat_field [of 2 6 2 w] unfolding field_masks by simp
  subgoal using unat_field [of 3 3 5 w] unfolding field_masks by simp
  subgoal using unat_field [of 5 9 2 w] unfolding field_masks by simp
  subgoal using unat_field [of 3 3 7 w] unfolding field_masks by simp
  done

lemma unat_u8_of_u16: "unat (ucast x :: u8) = unat x mod 256" for x :: u16
  by (simp add: unsigned_ucast_eq take_bit_eq_mod)

lemma unat_or_disjoint:
  fixes x y :: u16
  assumes "x AND y = 0" "unat x + unat y < 65536"
  shows "unat (x OR y) = unat x + unat y"
proof -
  have "x OR y = x + y" by (rule disjunctive_add_eq_or [OF assms(1), symmetric])
  then show ?thesis using assms(2) by (simp add: unat_word_ariths)
qed

lemma field_pairs:
  fixes w :: u16
  shows "unat (drop_bit 5 (w AND 0x200) OR w AND 15) = unat w mod 16 + 16 * (unat w div 512 mod 2)"
   "unat (drop_bit 4 (w AND 0xf00) OR w AND 15) = unat w mod 16 + 16 * (unat w div 256 mod 16)"
   "unat (drop_bit 2 (w AND 0xc0) OR w AND 15) = unat w mod 16 + 16 * (unat w div 64 mod 4)"
   "unat (drop_bit 5 (w AND 0x600) OR w AND 15) = unat w mod 16 + 16 * (unat w div 512 mod 4)"
proof -
  have *: "drop_bit k (w AND push_bit j (mask n)) AND (w AND 15) = 0" if "k + 4 \<le> j" for j k n
  proof -
    show ?thesis
      using that unfolding field_shifted [OF add_leD1 [OF that]] field_masks(12) [symmetric]
      by (intro bit_word_eqI) (auto simp: bit_simps)
  qed
  have m: "unat w mod 16 < 16" "unat w div 512 mod 2 < 2" "unat w div 64 mod 4 < 4" "unat w div 256 mod 16 < 16"
    "unat w div 512 mod 4 < 4" by simp_all
  have pair: "unat (drop_bit k (w AND push_bit j (mask n)) OR w AND 15) =
      unat w mod 16 + unat (drop_bit k (w AND push_bit j (mask n)))"
    if "k + 4 \<le> j" "unat (drop_bit k (w AND push_bit j (mask n))) < 60000" for j k n
    using unat_or_disjoint [OF * [OF that(1)]] that(2) m(1) by (simp only: fields16)
  show "unat (drop_bit 5 (w AND 0x200) OR w AND 15) = unat w mod 16 + 16 * (unat w div 512 mod 2)"
   "unat (drop_bit 4 (w AND 0xf00) OR w AND 15) = unat w mod 16 + 16 * (unat w div 256 mod 16)"
   "unat (drop_bit 2 (w AND 0xc0) OR w AND 15) = unat w mod 16 + 16 * (unat w div 64 mod 4)"
   "unat (drop_bit 5 (w AND 0x600) OR w AND 15) = unat w mod 16 + 16 * (unat w div 512 mod 4)"
    subgoal using pair [of 5 9 1] m(2) unfolding field_masks(1-10) fields16 by simp
    subgoal using pair [of 4 8 4] m(4) unfolding field_masks(1-10) fields16 by simp
    subgoal using pair [of 2 6 2] m(3) unfolding field_masks(1-10) fields16 by simp
    subgoal using pair [of 5 9 2] m(5) unfolding field_masks(1-10) fields16 by simp
    done
qed

lemma decode_d5: "ddddd84 e \<Longrightarrow> \<not> dddd74 e \<Longrightarrow> \<not> ddd64 e \<Longrightarrow> unat (ddddd (decode_fields e w imm)) = op_d5 w"
  using op_less(1) [of w]
  by (simp del: drop_bit_and add: decode_fields_def decode_ddddd_def op_d5_def unat_u8_of_u16 fields16)

lemma unat_16_plus: "unat x < 16 \<Longrightarrow> unat (16 + ucast x :: u8) = 16 + unat x" for x :: u16
  by (simp add: unat_word_ariths unat_u8_of_u16)

lemma decode_d4: "dddd74 e \<Longrightarrow> \<not> ddd64 e \<Longrightarrow> unat (ddddd (decode_fields e w imm)) = op_d4 w"
  by (simp del: drop_bit_and add: decode_fields_def decode_ddddd_def op_d4_def unat_16_plus fields16)

lemma decode_d3: "ddd64 e \<Longrightarrow> unat (ddddd (decode_fields e w imm)) = op_d3 w"
proof -
  have "unat w div 16 mod 8 < 8" by simp
  then have "unat w div 16 mod 8 < 16" by linarith
  then show "ddd64 e \<Longrightarrow> ?thesis"
  by (simp del: drop_bit_and add: decode_fields_def decode_ddddd_def op_d3_def unat_16_plus fields16)
qed

lemma decode_r5: "rrrrr9_30 e \<Longrightarrow> \<not> rrrr30 e \<Longrightarrow> \<not> rrr20 e \<Longrightarrow> unat (rrrrr (decode_fields e w imm)) = op_r5 w"
  using op_less(4) [of w]
  by (simp del: drop_bit_and add: decode_fields_def decode_rrrrr_def op_r5_def unat_u8_of_u16 field_pairs)

lemma decode_r4: "rrrr30 e \<Longrightarrow> \<not> rrr20 e \<Longrightarrow> unat (rrrrr (decode_fields e w imm)) = op_r4 w"
  by (simp del: drop_bit_and add: decode_fields_def decode_rrrrr_def op_r4_def unat_16_plus fields16)

lemma decode_r3: "rrr20 e \<Longrightarrow> unat (rrrrr (decode_fields e w imm)) = op_r3 w"
proof -
  have "unat w mod 8 < 8" by simp
  then have "unat w mod 8 < 16" by linarith
  then show "rrr20 e \<Longrightarrow> ?thesis"
    by (simp del: drop_bit_and add: decode_fields_def decode_rrrrr_def op_r3_def unat_16_plus fields16)
qed

lemma decode_K8: "KKKK118_30 e \<Longrightarrow> imm_u8 (decode_fields e w imm) = op_K8 w"
proof -
  assume "KKKK118_30 e"
  then have "unat (imm_u8 (decode_fields e w imm)) = (unat w mod 16 + 16 * (unat w div 256 mod 16)) mod 256"
    by (simp del: drop_bit_and add: decode_fields_def decode_imm_u8_def unat_u8_of_u16 field_pairs)
  also have "\<dots> = unat (op_K8 w)"
    unfolding op_K8_def unat_of_nat by simp
  finally show ?thesis by (simp only: word_unat_eq_iff)
qed

lemma op_bit: "rrr20 e \<Longrightarrow> unat (rrrrr (decode_fields e w imm) - 16) = unat w mod 8"
proof -
  have "unat w mod 8 < 8" by simp
  then have *: "unat w mod 8 < 256" by linarith
  show "rrr20 e \<Longrightarrow> ?thesis"
    by (simp del: drop_bit_and add: decode_fields_def decode_rrrrr_def unat_u8_of_u16 fields16 * )
qed

section \<open>Instructions without a skip\<close>

lemma begun_simps [simp]:
  "memory (begun s n) = memory s" "pc (begun s n) = pc s" "flash (begun s n) = flash s"
  "skip_next_instruction (begun s n) = skip_next_instruction s" "pc_start (begun s n) = pc s"
  "instr_size (begun s n) = of_nat n" "pc22 (begun s n) = pc22 s"
  "pc_mem_max_64k (begun s n) = pc_mem_max_64k s" "pc_mem_max_256b (begun s n) = pc_mem_max_256b s"
  by (simp_all add: begun_def)

definition skips :: "instr_code \<Rightarrow> bool" where
  "skips c \<longleftrightarrow> c = Instr_cpse \<or> c = Instr_sbics \<or> c = Instr_sbrcs"

lemmas handler_defs =
  instr_adc_def instr_adiw_def instr_cpc_def instr_cpi_def instr_sbiw_def instr_neg_def instr_inc_def
  instr_dec_def instr_and_def instr_andi_def instr_or_def instr_ori_def instr_xor_def instr_com_def
  instr_asr_def instr_lsr_def instr_ror_def instr_swap_def instr_ldi_def instr_mov_def instr_movw_def
  instr_nop_def instr_mul_def instr_muls_def instr_mulsu_def instr_fmul_def instr_fmulsu_def
  instr_bclrset_def instr_bld_def instr_bst_def instr_des_def instr_unimp_def instr_brb_def
  instr_call_def instr_jmp_def instr_eicalljump_def instr_rcalljmp_def instr_ret_def instr_reti_def
  instr_cbisbi_def instr_in_def instr_out_def instr_push_def instr_lds_def instr_sts_def
  instr_elpm_def instr_elpmz_def instr_xch_def

lemma skip_next_ret [simp]: "skip_next_instruction (instr_ret_common s) = skip_next_instruction s"
  by (auto simp: instr_ret_common_def split: prod.splits dest: pop_pc_frame)

lemma memwriteword_skip:
  "memwriteword a w s = Inr t \<Longrightarrow> skip_next_instruction t = skip_next_instruction s"
  by (auto simp: memwriteword_eq split: if_splits)

lemma ldst_common_skip:
  "instr_ldst_common rp ext mode k store idc s = Inr (idc', t) \<Longrightarrow>
     skip_next_instruction t = skip_next_instruction s"
  by (auto simp: instr_ldst_common_def ldst_writeback_def mem_at_def mem_put_def Let_def
      elim!: bindR_InrE dest!: memwriteword_skip split: if_splits)

lemma instr_pop_skip: "instr_pop idc s = Inr (idc', t) \<Longrightarrow>
     skip_next_instruction t = skip_next_instruction s"
  by (auto simp: instr_pop_def split: prod.splits dest: popbyte_frame)

lemma call_instr_no_skip:
  assumes "call_instr des c idc s = Inr (idc', t)" "\<not> skips c"
  shows "skip_next_instruction t = skip_next_instruction s"
  using assms
  by (cases c)
    (auto simp: skips_def handler_defs Let_def mem_at_def mem_put_def instr_ldx_def instr_stx_def instr_ldyz_def instr_styz_def
      elim!: bindR_InrE dest!: memwriteword_skip ldst_common_skip instr_pop_skip split: if_splits)

lemma emulate1_one:
  assumes "ready s w" "lookup w = Some e" "\<not> imm16 e" "\<not> skips (code e)"
  shows "emulate1 des s = bindR (call_instr des (code e) (decode_fields e w 0) (begun s 1))
    (\<lambda>(idc, t). Inr (after s 1 (flagged idc (memory t)) (pc t + 1)))"
proof (cases "call_instr des (code e) (decode_fields e w 0) (begun s 1)")
  case (Inl f)
  then show ?thesis using exec_fault [OF assms(1-3)] by simp
next
  case (Inr r)
  obtain idc t where "r = (idc, t)" by (cases r)
  moreover from this Inr assms(1,4) have "\<not> skip_next_instruction t"
    by (auto simp: ready_def dest!: call_instr_no_skip)
  ultimately show ?thesis using exec_one [OF assms(1-3)] Inr by simp
qed

lemma emulate1_two:
  assumes "ready2 s w imm" "lookup w = Some e" "imm16 e" "\<not> skips (code e)"
    and h: "call_instr des (code e) (decode_fields e w imm) (begun s 2) = Inr (idc, t)"
  shows "emulate1 des s = Inr (after s 2 (flagged idc (memory t)) (pc t + 2))"
  using assms by (intro exec_two) (auto simp: ready_def ready2_def dest!: call_instr_no_skip)

lemma emulate1_double:
  assumes "ready2 s w imm" "lookup w = Some e" "imm16 e" "\<not> skips (code e)"
  shows "emulate1 des s = bindR (call_instr des (code e) (decode_fields e w imm) (begun s 2))
    (\<lambda>(idc, t). Inr (after s 2 (flagged idc (memory t)) (pc t + 2)))"
proof (cases "call_instr des (code e) (decode_fields e w imm) (begun s 2)")
  case (Inl f)
  have "fetch s = Inr (w, e, imm, begun s 2)"
    using assms(1-3) by (simp add: ready_def ready2_def fetch_two_words begun_def)
  then have "emulate1_pass des s = Inl f"
    using Inl assms(1) by (simp add: emulate1_pass_def ready_def ready2_def)
  then show ?thesis using Inl by (simp add: emulate1.simps [of des s])
next
  case (Inr r)
  then show ?thesis using emulate1_two [OF assms] by (cases r) simp
qed

lemma lookup_masked:
  assumes "w AND m = p" "e \<in> set avr_instr" "imask e AND m = imask e" "p AND imask e = pattern e"
  shows "lookup w = Some e"
proof -
  have "w AND imask e = (w AND m) AND imask e"
    using assms(3) by (metis and.assoc and.commute)
  with assms have "matches w e" by (simp add: matches_def)
  with assms(2) show ?thesis by (rule lookup_row)
qed

lemma masked_sub: "w AND m = p \<Longrightarrow> k AND m = k \<Longrightarrow> w AND k = p AND k" for w :: u16
  by (metis and.assoc and.commute)

definition sreg_of :: "status \<Rightarrow> u8" where
  "sreg_of st = of_bool (fC st) + 2 * of_bool (fZ st) + 4 * of_bool (fN st) + 8 * of_bool (fV st) +
     16 * of_bool (fS st) + 32 * of_bool (fH st) + 64 * of_bool (fT st) + 128 * of_bool (fI st)"

lemma status_of_sreg_of [simp]: "status_of (sreg_of st) = st"
  by (cases st; rename_tac c z n v s h t i)
    (case_tac c; case_tac z; case_tac n; case_tac v; case_tac s; case_tac h; case_tac t; case_tac i;
      simp add: status_of_def sreg_of_def)

lemma sreg_of_eq: "status_of g = st \<Longrightarrow> g = sreg_of st"
  by (simp flip: status_of_inject)

lemma flagged_update [simp]:
  "flagged (update_flags f (decode_fields e w imm)) m = m(SREG := sreg_after (f (0, 0)) (m SREG))"
  "flagged (decode_fields e w imm) m = m(SREG := m SREG)"
  by (simp_all add: flagged_def idc_flags_def sreg_after_def)


lemma sreg_C: "memory s 0x5F AND 1 = 0 \<longleftrightarrow> \<not> fC (status_of (memory s 0x5F))"
  by (simp add: status_of_def bit_eqs)

lemma adc_sreg:
  "sreg_after (adc_flags8 (a + b) a b (0, 0)) g = sreg_of (add_status a b False (status_of g))"
  "sreg_after (adc_flags8 (a + b + 1) a b (0, 0)) g = sreg_of (add_status a b True (status_of g))"
  using sreg_of_eq [OF adc_flags8_arith [of a b False g]] sreg_of_eq [OF adc_flags8_arith [of a b True g]]
  by simp_all

lemma sub_sreg:
  "sreg_after (sub_flags8 (a - b) a b (0, 0)) g = sreg_of (sub_status a b False (status_of g))"
  "sreg_after (sub_flags8 (a - b - 1) a b (0, 0)) g = sreg_of (sub_status a b True (status_of g))"
  using sreg_of_eq [OF sub_flags8_arith [of a b False g]] sreg_of_eq [OF sub_flags8_arith [of a b True g]]
  by simp_all

lemma sub_sreg_keep_Z:
  "sreg_after (fst (sub_flags8 res a b (0, 0)) AND NOT SREG_Z, snd (sub_flags8 res a b (0, 0))) g =
   sreg_of ((status_of (sreg_after (sub_flags8 res a b (0, 0)) g))
     \<lparr>fZ := fZ (status_of g) \<and> fZ (status_of (sreg_after (sub_flags8 res a b (0, 0)) g))\<rparr>)"
  by (rule sreg_of_eq) (auto simp: status_of_def bit_eqs bit_simps sub_flags8_def Let_def)

section \<open>Concrete machines\<close>

text \<open>A machine with the given flash and data memory, and a cipher: what the concrete
  instances of the theorems run on.\<close>

definition boot :: "(nat \<Rightarrow> u16) \<Rightarrow> (nat \<Rightarrow> u8) \<Rightarrow> machine" where
  "boot rom mem = \<lparr>pc = 0, pc_start = 0, instr_size = 0, skip_next_instruction = False,
     memory = mem, flash = rom, pc22 = False, pc_mem_max_64k = False, pc_mem_max_256b = False,
     insns = 0, insnlimit = 0, insnreplaylim = 0, off = False, replay_mode = False,
     stepone = False, tracehex = False, tracefile = None\<rparr>"

definition des_xor :: des_ecb where
  "des_xor dir key block = (\<lambda>i. if i < 8 then key i XOR block i else 0)"

lemmas at_boot = boot_def ready_def ready2_def Let_def after_def status_of_def sreg_of_def
  op_d5_def op_r5_def op_d4_def op_r4_def op_d3_def op_r3_def op_K8_def op_K6_def op_A5_def op_A6_def

end
