(* ===== verification/Alu_Spec.thy ===== *)
theory Alu_Spec
  imports Execute
begin

text \<open>
  What the arithmetic, logic, shift and multiplication instructions do when \<open>emulate1\<close>
  runs them: the whole state after one instruction, with the status register given by the
  arithmetic of the operands. \<open>op_d5\<close>, \<open>op_r5\<close> and the others read the operand
  fields of the instruction word.
\<close>

unbundle bit_operations_syntax

section \<open>Addition and subtraction\<close>

text \<open>
C3: ADD and ADC store the sum modulo 256 and set the status register as the unbounded signed and
unsigned sums demand (carry, half carry, overflow, sign, zero), and nothing else changes but the
program counter, the counter and the trace.
\<close>

theorem add_adc:
  assumes "ready s w" and "w AND 0xfc00 = (if with_carry then 0x1c00 else 0x0c00)"
  shows "let a = memory s (op_d5 w); b = memory s (op_r5 w); st = status_of (memory s SREG);
             c = (with_carry \<and> fC st)
         in emulate1 des s = Inr (after s 1 ((memory s)
              (op_d5 w := a + b + of_bool c, SREG := sreg_of (add_status a b c st))) (pc s + 1))"
proof -
  let ?e = "(plain 0x0c00 0xec00 Instr_adc)\<lparr>ddddd84 := True, rrrrr9_30 := True\<rparr>"
  have l: "lookup w = Some ?e"
    by (rule lookup_masked [OF assms(2)]) (simp_all add: avr_instr_def plain_def)
  have "w AND 0x1000 = (if with_carry then 0x1c00 else 0x0c00) AND 0x1000"
    by (rule masked_sub [OF assms(2)]) simp
  then have m: "w AND 0x1000 \<noteq> 0 \<longleftrightarrow> with_carry" by (simp split: if_splits)
  show ?thesis
    using op_less(1) [of w]
    by (cases "with_carry \<and> fC (status_of (memory s SREG))")
      (auto simp add: emulate1_one [OF assms(1) l] plain_def skips_def instr_adc_def Let_def
        decode_d5 decode_r5 adc_sreg sreg_C m)
qed

definition keep_zero :: "status \<Rightarrow> status \<Rightarrow> status" where
  "keep_zero old st = st\<lparr>fZ := fZ old \<and> fZ st\<rparr>"

lemma sub_sreg_z:
  "sreg_after (fst (sub_flags8 (a - b) a b (0, 0)) AND NOT SREG_Z, snd (sub_flags8 (a - b) a b (0, 0))) g =
     sreg_of (keep_zero (status_of g) (sub_status a b False (status_of g)))"
  "sreg_after (fst (sub_flags8 (a - b - 1) a b (0, 0)) AND NOT SREG_Z, snd (sub_flags8 (a - b - 1) a b (0, 0))) g =
     sreg_of (keep_zero (status_of g) (sub_status a b True (status_of g)))"
  unfolding sub_sreg_keep_Z sub_sreg keep_zero_def by simp_all

lemma flagged_update_z:
  "flagged (update_flags f (decode_fields e w imm)\<lparr>setflags := fst (f (0, 0)) AND m\<rparr>) g =
     g(SREG := sreg_after (fst (f (0, 0)) AND m, snd (f (0, 0))) (g SREG))"
  by (simp add: flagged_def idc_flags_def)

text \<open>
C4: CP, CPC, SUB and SBC compute the difference with borrow and its flags, except that the zero
flag is only ever cleared: it stays set only if it was set and the result is zero.
\<close>

theorem cp_cpc_sub_sbc:
  assumes "ready s w"
    and "w AND 0xfc00 = (if with_carry then if store then 0x0800 else 0x0400
                         else if store then 0x1800 else 0x1400)"
  shows "let a = memory s (op_d5 w); b = memory s (op_r5 w); st = status_of (memory s SREG);
             c = (with_carry \<and> fC st)
         in emulate1 des s = Inr (after s 1 ((memory s)
              (op_d5 w := if store then a - b - of_bool c else a,
               SREG := sreg_of (keep_zero st (sub_status a b c st)))) (pc s + 1))"
proof -
  let ?p = "if with_carry then if store then 0x0800 else 0x0400
                         else if store then 0x1800 else 0x1400 :: u16"
  let ?e = "(plain (if store then 0x0800 else 0x0400) 0xec00 Instr_cpc)\<lparr>ddddd84 := True, rrrrr9_30 := True\<rparr>"
  have l: "lookup w = Some ?e"
    by (rule lookup_masked [OF assms(2)]) (simp_all add: avr_instr_def plain_def)
  have "w AND 0x1000 = ?p AND 0x1000" "w AND 0x0c00 = ?p AND 0x0c00"
    by (rule masked_sub [OF assms(2)], simp)+
  then have m: "w AND 0x1000 = 0 \<longleftrightarrow> with_carry" "drop_bit 10 (w AND 0x0c00) = 1 \<longleftrightarrow> \<not> store"
    by (simp_all split: if_splits)
  show ?thesis
    using op_less(1) [of w]
    by (cases "with_carry \<and> fC (status_of (memory s SREG))"; cases store)
      (auto simp add: emulate1_one [OF assms(1) l] plain_def skips_def instr_cpc_def Let_def
        decode_d5 decode_r5 sub_sreg_z sreg_C m flagged_update_z simp del: SREG_Z_def drop_bit_and)
qed

text \<open>
C5: CPI, SBCI and SUBI compute the difference of an upper register and the immediate with its
flags, the zero flag included; SBCI thus sets the zero flag whatever it was before.
\<close>

theorem cpi_sbci_subi:
  assumes "ready s w"
    and "w AND 0xf000 = (if with_carry then 0x4000 else if store then 0x5000 else 0x3000)"
    and "with_carry \<longrightarrow> store"
  shows "let a = memory s (op_d4 w); k = op_K8 w; st = status_of (memory s SREG);
             c = (with_carry \<and> fC st)
         in emulate1 des s = Inr (after s 1 ((memory s)
              (op_d4 w := if store then a - k - of_bool c else a,
               SREG := sreg_of (sub_status a k c st))) (pc s + 1))"
proof -
  let ?p = "if with_carry then 0x4000 else if store then 0x5000 else 0x3000 :: u16"
  let ?e = "(if store then plain 0x4000 0xe000 Instr_cpi else plain 0x3000 0xf000 Instr_cpi)
       \<lparr>dddd74 := True, KKKK118_30 := True\<rparr>"
  have l: "lookup w = Some ?e"
    using assms(3) by (intro lookup_masked [OF assms(2)]) (simp_all add: avr_instr_def plain_def)
  have "w AND 0x1000 = ?p AND 0x1000" "w AND 0x6000 = ?p AND 0x6000"
    by (rule masked_sub [OF assms(2)], simp)+
  then have m: "w AND 0x1000 = 0 \<longleftrightarrow> with_carry" "drop_bit 13 (w AND 0x6000) = 2 \<longleftrightarrow> store"
    using assms(3) by (simp_all split: if_splits)
  show ?thesis
    using op_less(2) [of w] assms(3)
    by (cases "with_carry \<and> fC (status_of (memory s SREG))"; cases store)
      (auto simp add: emulate1_one [OF assms(1) l] plain_def skips_def instr_cpi_def Let_def
        decode_d4 decode_K8 sub_sreg sreg_C m simp del: drop_bit_and)
qed

section \<open>Word addition and subtraction\<close>

definition op_W :: "u16 \<Rightarrow> nat" where "op_W w = 24 + 2 * (unat w div 16 mod 4)"

definition set_pair :: "(nat \<Rightarrow> u8) \<Rightarrow> nat \<Rightarrow> u16 \<Rightarrow> nat \<Rightarrow> u8" where
  "set_pair m i v = m(i := lo_byte v, Suc i := hi_byte v)"

lemma sbiw_flags16_bits:
  "status_of (sreg_after (sbiw_flags16 res rd (0, 0)) g) =
    (let N = bit res 15; V = (bit rd 15 \<and> \<not> bit res 15)
     in (status_of g)\<lparr>fC := bit res 15 \<and> \<not> bit rd 15, fZ := res = 0, fN := N, fV := V,
          fS := N \<noteq> V\<rparr>)"
  by (auto simp: sbiw_flags16_def Let_def bit_eqs flags_differ_def bit_simps status_of_def)

lemma sbiw_flags16_arith:
  assumes "unat k < 32768"
  shows "status_of (sreg_after (sbiw_flags16 (a - k) a (0, 0)) g) = sbiw_status a k (status_of g)"
proof -
  let ?r = "a - k"
  have b: "unat a < 2 * 32768" "unat k < 2 * 32768" "unat ?r < 2 * 32768" "(0::nat) \<le> 1"
    using unat_u16_less [of a] unat_u16_less [of k] unat_u16_less [of ?r] by simp_all
  have "a = ?r + k" by simp
  then have a: "unat a = (unat ?r + unat k + 0) mod (2 * 32768)"
    using unat_word_ariths(1) [of ?r k] by simp
  have u: "uint ?r = (uint a - uint k) mod 65536" by (simp add: uint_word_ariths)
  then have Z: "?r = 0 \<longleftrightarrow> (uint a - uint k) mod 65536 = 0" by (metis uint_0_iff)
  have N: "32768 \<le> unat ?r \<longleftrightarrow> 32768 \<le> (uint a - uint k) mod 65536"
    using uint_nat [of ?r] u by linarith
  have C: "uint a - uint k < 0 \<longleftrightarrow> unat a < unat k + 0" unfolding uint_nat by linarith
  note full = carry_nat [OF b(3,2,4) a] borrow_nat [OF b(1,2,4,3) a] signed_borrow_nat [OF b a]
  have fC: "(32768 \<le> unat ?r \<and> \<not> 32768 \<le> unat a) = (unat a < unat k + 0)"
    using full(1,2) assms by linarith
  show ?thesis
    unfolding sbiw_flags16_bits sbiw_status_def Let_def bit_u16_15 sint_u16 Z C fC
    using full(3,4) assms N by simp
qed

lemma op_W_handler:
  "unat (24 + ucast (drop_bit 3 (w AND 0x30)) :: u8) = op_W w"
  "unat (ucast (drop_bit 3 (w AND 0x30)) + 24 :: u8) = op_W w"
proof -
  have "unat w div 16 mod 4 < 4" by simp
  then show "unat (24 + ucast (drop_bit 3 (w AND 0x30)) :: u8) = op_W w"
    "unat (ucast (drop_bit 3 (w AND 0x30)) + 24 :: u8) = op_W w"
    by (simp_all add: unat_word_ariths unat_u8_of_u16 fields16 op_W_def del: drop_bit_and)
qed

lemma op_W_even:
  fixes w :: u16
  shows "even (24 + ucast (drop_bit 3 (w AND 0x30)) :: u8)" "even (ucast (drop_bit 3 (w AND 0x30)) + 24 :: u8)"
  using even_ucast_and_6 [of "drop_bit 3 w"] by simp_all

lemma unat_ucast_u8_u16: "unat (ucast (d :: u8) :: u16) = unat d"
  using unat_u8_less [of d] by (simp add: unsigned_ucast_eq take_bit_nat_eq_self)

lemmas op_W_access = memword_pair [OF op_W_even(1)] memword_pair [OF op_W_even(2)]
  memwriteword_pair [OF op_W_even(1)] memwriteword_pair [OF op_W_even(2)]

lemma op_K6_handler:
  "drop_bit 2 (w AND 0xc0) OR w AND 15 = of_nat (op_K6 w)"
  "ucast (ucast (of_nat (op_K6 w) :: u16) :: u8) = (of_nat (op_K6 w) :: u16)"
proof -
  have "op_K6 w < 64" by (rule op_less)
  then have k: "unat (of_nat (op_K6 w) :: u16) = op_K6 w" by (simp add: unat_of_nat)
  then show "drop_bit 2 (w AND 0xc0) OR w AND 15 = of_nat (op_K6 w)"
    unfolding word_unat_eq_iff field_pairs(3) [of w] op_K6_def by simp
  show "ucast (ucast (of_nat (op_K6 w) :: u16) :: u8) = (of_nat (op_K6 w) :: u16)"
    using \<open>op_K6 w < 64\<close> unfolding word_unat_eq_iff unat_ucast_u8_u16 unat_u8_of_u16 k by simp
qed

lemma adiw_sreg: "unat k < 32768 \<Longrightarrow>
    sreg_after (adiw_flags16 (a + k) a (0, 0)) g = sreg_of (adiw_status a k (status_of g))"
  by (rule sreg_of_eq) (rule adiw_flags16_arith)

lemma sbiw_sreg: "unat k < 32768 \<Longrightarrow>
    sreg_after (sbiw_flags16 (a - k) a (0, 0)) g = sreg_of (sbiw_status a k (status_of g))"
  by (rule sreg_of_eq) (rule sbiw_flags16_arith)

lemma op_W_less: "op_W w < 32"
proof -
  have "unat w div 16 mod 4 < 4" by simp
  then show ?thesis unfolding op_W_def by linarith
qed

text \<open>
C32: ADIW and SBIW add or subtract a six-bit constant to or from a register pair with the flags
of the unbounded 16-bit result.
\<close>

theorem adiw_sbiw:
  assumes "ready s w" and "w AND 0xff00 = (if subtract then 0x9700 else 0x9600)"
  shows "let d = op_W w; a = le_word (memory s d) (memory s (Suc d)); k = of_nat (op_K6 w);
             st = status_of (memory s SREG)
         in emulate1 des s = Inr (after s 1
              ((set_pair (memory s) d (if subtract then a - k else a + k))
                 (SREG := sreg_of (if subtract then sbiw_status a k st else adiw_status a k st)))
              (pc s + 1))"
proof -
  let ?e = "if subtract then plain 0x9700 0xff00 Instr_sbiw else plain 0x9600 0xff00 Instr_adiw"
  have l: "lookup w = Some ?e"
    by (rule lookup_masked [OF assms(2)]) (simp_all add: avr_instr_def plain_def)
  have k: "unat (of_nat (op_K6 w) :: u16) < 32768"
    using op_less(7) [of w] by (simp add: unat_of_nat)
  show ?thesis
    using op_W_less [of w] k
    by (cases subtract)
      (auto simp add: emulate1_one [OF assms(1) l] plain_def skips_def instr_adiw_def instr_sbiw_def Let_def
       op_W_handler op_W_access op_K6_handler adiw_sreg sbiw_sreg set_pair_def
        simp del: drop_bit_and)
qed

section \<open>One operand, and logic\<close>

definition step_status :: "u8 \<Rightarrow> int \<Rightarrow> status \<Rightarrow> status" where
  "step_status a k st =
     (let u = uint a + k; t = sint a + k
      in st\<lparr>fZ := u mod 256 = 0, fN := 128 \<le> u mod 256, fV := t < -128 \<or> 128 \<le> t, fS := t < 0\<rparr>)"

definition inc_flags8 :: "u8 \<Rightarrow> flags" where
  "inc_flags8 res = (let fl = logic_flags8 res (0, 0)
     in if res = 0x80 then (fst fl AND NOT SREG_S OR SREG_V, snd fl AND NOT SREG_V OR SREG_S) else fl)"

definition dec_flags8 :: "u8 \<Rightarrow> flags" where
  "dec_flags8 res = (let fl = logic_flags8 res (0, 0)
     in if res = 0x7f then (fst fl OR (SREG_V OR SREG_S), snd fl AND NOT (SREG_V OR SREG_S)) else fl)"

lemma unat_u8_add: "unat (a + b :: u8) = (unat a + unat b) mod 256"
  by (simp add: unat_word_ariths)

lemma inc_flags8_bits: "status_of (sreg_after (inc_flags8 r) g) = (status_of g)
     \<lparr>fZ := r = 0, fN := bit r 7, fV := r = 128, fS := bit r 7 \<and> r \<noteq> 128\<rparr>"
  by (cases "r = 128") (auto simp: inc_flags8_def logic_flags8_def Let_def bit_eqs bit_simps status_of_def)

lemma dec_flags8_bits: "status_of (sreg_after (dec_flags8 r) g) = (status_of g)
     \<lparr>fZ := r = 0, fN := bit r 7, fV := r = 127, fS := bit r 7 \<or> r = 127\<rparr>"
  by (cases "r = 127") (auto simp: dec_flags8_def logic_flags8_def Let_def bit_eqs bit_simps status_of_def)

lemma int_step_up: "n < 256 \<Longrightarrow> (int n + 1) mod 256 = int (if n = 255 then 0 else n + 1)"
  by auto

lemma int_step_down: "n < 256 \<Longrightarrow> (int n + - 1) mod 256 = int (if n = 0 then 255 else n - 1)"
  by (auto simp: mod_pos_pos_trivial)

lemma signed_step_up:
  assumes "n < 256"
  defines "r \<equiv> if n = 255 then 0 else n + 1"
  shows "signed_of 128 n + 1 < - 128 \<or> 128 \<le> signed_of 128 n + 1 \<longleftrightarrow> r = 128"
    and "signed_of 128 n + 1 < 0 \<longleftrightarrow> 128 \<le> r \<and> r \<noteq> 128"
  using assms by (auto simp: signed_of_def)

lemma signed_step_down:
  assumes "n < 256"
  defines "r \<equiv> if n = 0 then 255 else n - 1"
  shows "signed_of 128 n + - 1 < - 128 \<or> 128 \<le> signed_of 128 n + - 1 \<longleftrightarrow> r = 127"
    and "signed_of 128 n + - 1 < 0 \<longleftrightarrow> 128 \<le> r \<or> r = 127"
  using assms by (auto simp: signed_of_def)

lemma unat_u8_eqs: "r = 128 \<longleftrightarrow> unat r = 128" "r = 127 \<longleftrightarrow> unat r = 127" for r :: u8
  unfolding word_unat_eq_iff by simp_all

lemma int_unat_tests: "int (unat r) = 0 \<longleftrightarrow> r = 0" "128 \<le> int (unat r) \<longleftrightarrow> 128 \<le> unat r" for r :: u8
  subgoal by (simp only: of_nat_eq_0_iff unat_eq_0)
  subgoal by linarith
  done

lemma inc_sreg: "sreg_after (inc_flags8 (a + 1)) g = sreg_of (step_status a 1 (status_of g))"
proof (rule sreg_of_eq)
  have r: "unat (a + 1) = (if unat a = 255 then 0 else unat a + 1)"
    using unat_u8_less [of a] by (simp add: unat_u8_add mod_if)
  have u: "(uint a + 1) mod 256 = int (unat (a + 1))"
    unfolding uint_nat r by (rule int_step_up [OF unat_u8_less])
  show "status_of (sreg_after (inc_flags8 (a + 1)) g) = step_status a 1 (status_of g)"
    unfolding inc_flags8_bits step_status_def Let_def u sint_u8 int_unat_tests bit_u8_7 unat_u8_eqs
      signed_step_up [OF unat_u8_less [of a]]
    unfolding r ..
qed

lemma dec_sreg: "sreg_after (dec_flags8 (a - 1)) g = sreg_of (step_status a (- 1) (status_of g))"
proof (rule sreg_of_eq)
  have "unat a = (unat (a - 1) + 1) mod 256" using unat_u8_add [of "a - 1" 1] by simp
  then have r: "unat (a - 1) = (if unat a = 0 then 255 else unat a - 1)"
    using unat_u8_less [of "a - 1"] by (auto simp: mod_if split: if_splits)
  have u: "(uint a + - 1) mod 256 = int (unat (a - 1))"
    unfolding uint_nat r by (rule int_step_down [OF unat_u8_less])
  show "status_of (sreg_after (dec_flags8 (a - 1)) g) = step_status a (- 1) (status_of g)"
    unfolding dec_flags8_bits step_status_def Let_def u sint_u8 int_unat_tests bit_u8_7 unat_u8_eqs
      signed_step_down [OF unat_u8_less [of a]]
    unfolding r ..
qed

lemma instr_inc_eq: "idc_flags idc = (0, 0) \<Longrightarrow> instr_inc idc s =
   (let res = memory s (unat (ddddd idc)) + 1 in
    Inr (update_flags (\<lambda>_. inc_flags8 res) idc, mem_upd (unat (ddddd idc)) res s))"
  by (cases idc) (simp add: instr_inc_def inc_flags8_def Let_def update_flags_def idc_flags_def)

lemma instr_dec_eq: "idc_flags idc = (0, 0) \<Longrightarrow> instr_dec idc s =
   (let res = memory s (unat (ddddd idc)) - 1 in
    Inr (update_flags (\<lambda>_. dec_flags8 res) idc, mem_upd (unat (ddddd idc)) res s))"
  by (cases idc) (simp add: instr_dec_def dec_flags8_def Let_def update_flags_def idc_flags_def)

theorem inc_dec:
  assumes "ready s w" and "w AND 0xfe0f = (if down then 0x940a else 0x9403)"
  shows "let a = memory s (op_d5 w)
         in emulate1 des s = Inr (after s 1 ((memory s)
              (op_d5 w := if down then a - 1 else a + 1,
               SREG := sreg_of (step_status a (if down then -1 else 1) (status_of (memory s SREG)))))
              (pc s + 1))"
proof -
  let ?e = "(if down then plain 0x940a 0xfe0f Instr_dec else plain 0x9403 0xfe0f Instr_inc)\<lparr>ddddd84 := True\<rparr>"
  have l: "lookup w = Some ?e"
    by (rule lookup_masked [OF assms(2)]) (simp_all add: avr_instr_def plain_def)
  show ?thesis
    using op_less(1) [of w]
    by (cases down) (auto simp add: emulate1_one [OF assms(1) l] plain_def skips_def Let_def
        instr_inc_eq instr_dec_eq decode_flags_empty decode_d5 inc_sreg dec_sreg)
qed

lemma neg_sreg: "sreg_after (neg_flags8 (- a) a (0, 0)) g = sreg_of (sub_status 0 a False (status_of g))"
proof -
  let ?r = "- a"
  have "unat (?r + a) = (unat ?r + unat a) mod 256" by (rule unat_u8_add)
  then have r: "unat ?r = (if unat a = 0 then 0 else 256 - unat a)"
    using unat_u8_less [of a] unat_u8_less [of ?r] by (auto simp: mod_if split: if_splits)
  have C: "?r \<noteq> 0 \<longleftrightarrow> 128 \<le> unat a \<or> 128 \<le> unat ?r"
    unfolding word_unat_eq_iff r using unat_u8_less [of a] by auto
  have V: "?r = 128 \<longleftrightarrow> 128 \<le> unat a \<and> 128 \<le> unat ?r"
    unfolding word_unat_eq_iff r using unat_u8_less [of a] by auto
  have "status_of (sreg_after (neg_flags8 ?r a (0, 0)) g) =
     (let N = bit ?r 7; V = (?r = 128)
      in (status_of g)\<lparr>fC := ?r \<noteq> 0, fZ := ?r = 0, fN := N, fV := V, fS := N \<noteq> V,
         fH := bit ?r 3 \<or> bit a 3\<rparr>)"
    by (auto simp: neg_flags8_def Let_def bit_eqs flags_differ_def bit_simps status_of_def)
  also have "\<dots> = status_of (sreg_after (sub_flags8 ?r 0 a (0, 0)) g)"
    unfolding sub_flags8_bits Let_def C V bit_u8_7 by (cases "bit a 3"; cases "128 \<le> unat a"; cases "128 \<le> unat (- a)") simp_all
  also have "\<dots> = sub_status 0 a False (status_of g)"
    using sub_flags8_arith [of 0 a False g] by simp
  finally show ?thesis by (rule sreg_of_eq)
qed

lemma com_sreg: "sreg_after (com_flags8 r (0, 0)) g =
   sreg_of ((status_of g)\<lparr>fC := True, fZ := r = 0, fN := bit r 7, fV := False, fS := bit r 7\<rparr>)"
  by (rule sreg_of_eq) (auto simp: com_flags8_def Let_def bit_eqs bit_simps status_of_def)

lemma uint_and_ff: "uint (z AND 0xff) = uint z mod 256" for z :: u32
proof -
  have "int (unat (z AND 0xff)) = int (unat z mod 0x100)" by (simp only: unat_and_ff)
  also have "\<dots> = int (unat z) mod int 0x100" by (rule zmod_int)
  finally show ?thesis by (simp only: uint_nat of_nat_numeral)
qed

lemma neg_result: "ucast ((0 - ucast (a :: u8) :: u32) AND 0xff) = - a"
proof (rule word_uint_eq_iff [THEN iffD2])
  let ?z = "0 - ucast a :: u32"
  have a: "uint (ucast a :: u32) = uint a" by (simp only: uint_nat unat_ucast_u8)
  have "uint (ucast (?z AND 0xff) :: u8) = uint (?z AND 0xff) mod 256"
    by (simp only: unsigned_ucast_eq take_bit_eq_mod len_bit0 len_num1) simp
  also have "\<dots> = uint ?z mod 256"
    by (simp only: uint_and_ff mod_mod_trivial)
  also have "uint ?z = (- uint a) mod 4294967296"
    unfolding uint_word_ariths a by simp
  also have "\<dots> mod 256 = (- uint a) mod 256"
    by (rule mod_mod_cancel) simp
  also have "\<dots> = uint (- a)"
    unfolding uint_word_ariths by simp
  finally show "uint (ucast (?z AND 0xff) :: u8) = uint (- a)" .
qed

theorem neg_com:
  assumes "ready s w" and "w AND 0xfe0f = (if complement then 0x9400 else 0x9401)"
  shows "let a = memory s (op_d5 w); st = status_of (memory s SREG); r = NOT a
         in emulate1 des s = Inr (after s 1
           (if complement then (memory s)(op_d5 w := r,
               SREG := sreg_of (st\<lparr>fC := True, fZ := r = 0, fN := bit r 7, fV := False, fS := bit r 7\<rparr>))
            else (memory s)(op_d5 w := - a, SREG := sreg_of (sub_status 0 a False st))) (pc s + 1))"
proof -
  let ?e = "(if complement then plain 0x9400 0xfe0f Instr_com else plain 0x9401 0xfe0f Instr_neg)\<lparr>ddddd84 := True\<rparr>"
  have l: "lookup w = Some ?e"
    by (rule lookup_masked [OF assms(2)]) (simp_all add: avr_instr_def plain_def)
  have n: "0xff - a = NOT a" for a :: u8 by (simp add: not_eq_complement)
  show ?thesis
    using op_less(1) [of w]
    by (cases complement) (auto simp add: emulate1_one [OF assms(1) l] plain_def skips_def Let_def
        instr_com_def instr_neg_def neg_result [simplified] n decode_d5 neg_sreg com_sreg)
qed

lemma logic_sreg: "sreg_after (logic_flags8 r (0, 0)) g =
   sreg_of ((status_of g)\<lparr>fZ := r = 0, fN := bit r 7, fV := False, fS := bit r 7\<rparr>)"
  by (rule sreg_of_eq) (rule logic_flags8_bits)

theorem logic:
  assumes "ready s w"
    and "w AND 0xfc00 = 0x2000 \<and> d = op_d5 w \<and> r = memory s d AND memory s (op_r5 w) \<or>
         w AND 0xfc00 = 0x2400 \<and> d = op_d5 w \<and> r = memory s d XOR memory s (op_r5 w) \<or>
         w AND 0xfc00 = 0x2800 \<and> d = op_d5 w \<and> r = memory s d OR memory s (op_r5 w) \<or>
         w AND 0xf000 = 0x6000 \<and> d = op_d4 w \<and> r = memory s d OR op_K8 w \<or>
         w AND 0xf000 = 0x7000 \<and> d = op_d4 w \<and> r = memory s d AND op_K8 w"
  shows "emulate1 des s = Inr (after s 1 ((memory s)
    (d := r, SREG := sreg_of ((status_of (memory s SREG))
       \<lparr>fZ := r = 0, fN := bit r 7, fV := False, fS := bit r 7\<rparr>))) (pc s + 1))"
proof -
  have less: "op_d5 w < 32" "op_d4 w < 32" by (rule op_less)+
  note run = plain_def skips_def Let_def instr_and_def instr_or_def instr_xor_def instr_andi_def
    instr_ori_def decode_d5 decode_r5 decode_d4 decode_K8 logic_sreg
  from assms(2) show ?thesis
  proof (elim disjE conjE)
    assume *: "w AND 0xfc00 = 0x2000" and o: "d = op_d5 w" "r = memory s d AND memory s (op_r5 w)"
    have "lookup w = Some ((plain 0x2000 0xfc00 Instr_and)\<lparr>ddddd84 := True, rrrrr9_30 := True\<rparr>)"
      by (rule lookup_masked [OF *]) (simp_all add: avr_instr_def plain_def)
    from emulate1_one [OF assms(1) this] show ?thesis using less by (simp add: run o)
  next
    assume *: "w AND 0xfc00 = 0x2400" and o: "d = op_d5 w" "r = memory s d XOR memory s (op_r5 w)"
    have "lookup w = Some ((plain 0x2400 0xfc00 Instr_xor)\<lparr>ddddd84 := True, rrrrr9_30 := True\<rparr>)"
      by (rule lookup_masked [OF *]) (simp_all add: avr_instr_def plain_def)
    from emulate1_one [OF assms(1) this] show ?thesis using less by (simp add: run o)
  next
    assume *: "w AND 0xfc00 = 0x2800" and o: "d = op_d5 w" "r = memory s d OR memory s (op_r5 w)"
    have "lookup w = Some ((plain 0x2800 0xfc00 Instr_or)\<lparr>ddddd84 := True, rrrrr9_30 := True\<rparr>)"
      by (rule lookup_masked [OF *]) (simp_all add: avr_instr_def plain_def)
    from emulate1_one [OF assms(1) this] show ?thesis using less by (simp add: run o)
  next
    assume *: "w AND 0xf000 = 0x6000" and o: "d = op_d4 w" "r = memory s d OR op_K8 w"
    have "lookup w = Some ((plain 0x6000 0xf000 Instr_ori)\<lparr>dddd74 := True, KKKK118_30 := True\<rparr>)"
      by (rule lookup_masked [OF *]) (simp_all add: avr_instr_def plain_def)
    from emulate1_one [OF assms(1) this] show ?thesis using less by (simp add: run o)
  next
    assume *: "w AND 0xf000 = 0x7000" and o: "d = op_d4 w" "r = memory s d AND op_K8 w"
    have "lookup w = Some ((plain 0x7000 0xf000 Instr_andi)\<lparr>dddd74 := True, KKKK118_30 := True\<rparr>)"
      by (rule lookup_masked [OF *]) (simp_all add: avr_instr_def plain_def)
    from emulate1_one [OF assms(1) this] show ?thesis using less by (simp add: run o)
  qed
qed

section \<open>Shifts\<close>

lemma top_bit_and: "128 AND a = (if bit a 7 then 128 else 0)" for a :: u8
proof (rule bit_word_eqI)
  fix n assume "n < LENGTH(8)"
  then consider "n = 0" | "n = 1" | "n = 2" | "n = 3" | "n = 4" | "n = 5" | "n = 6" | "n = 7"
    by (auto simp: less_Suc_eq numeral_eq_Suc)
  then show "bit (128 AND a) n \<longleftrightarrow> bit (if bit a 7 then 128 else 0 :: u8) n"
    by cases (simp_all add: bit_and_iff)
qed

definition halved :: "u8 \<Rightarrow> bool \<Rightarrow> u8" where
  "halved a msb = of_nat (unat a div 2 + 128 * of_bool msb)"

lemma unat_halved: "unat (halved a msb) = unat a div 2 + 128 * of_bool msb"
  using unat_u8_less [of a] unfolding halved_def unat_of_nat by (cases msb) simp_all

lemma shift_right:
  "drop_bit (Suc 0) a = halved a False" "halved a False OR 128 = halved a True"
proof -
  have d: "unat (drop_bit (Suc 0) a) = unat a div 2" by (simp only: unat_drop_bit_eq) (simp add: drop_bit_Suc)
  then show *: "drop_bit (Suc 0) a = halved a False"
    unfolding word_unat_eq_iff unat_halved by simp
  have "drop_bit (Suc 0) a AND 128 = 0"
    using mask_u8(8) [of "drop_bit (Suc 0) a"] by (auto simp: bit_simps dest: bit_imp_le_length)
  then have "drop_bit (Suc 0) a OR 128 = drop_bit (Suc 0) a + 128"
    by (rule disjunctive_add_eq_or [symmetric])
  moreover have "unat (drop_bit (Suc 0) a + 128) = unat a div 2 + 128"
    using unat_u8_less [of a] by (simp add: unat_word_ariths d)
  ultimately show "halved a False OR 128 = halved a True"
    unfolding * [symmetric] word_unat_eq_iff unat_halved by simp
qed

lemma asr_sreg: "sreg_after (asr_flags8 (halved a msb) a (0, 0)) g =
   sreg_of ((status_of g)\<lparr>fC := odd (unat a), fZ := halved a msb = 0, fN := msb,
     fV := odd (unat a) \<noteq> msb, fS := odd (unat a)\<rparr>)"
proof (rule sreg_of_eq)
  have "bit (halved a msb) 7 = msb"
    using unat_u8_less [of a] unfolding bit_u8_7 unat_halved by auto
  moreover have "bit a 0 = odd (unat a)" by (simp add: bit_unat)
  ultimately show "status_of (sreg_after (asr_flags8 (halved a msb) a (0, 0)) g) = (status_of g)
     \<lparr>fC := odd (unat a), fZ := halved a msb = 0, fN := msb, fV := odd (unat a) \<noteq> msb, fS := odd (unat a)\<rparr>"
    unfolding asr_flags8_bits Let_def by (cases msb) simp_all
qed

text \<open>
C37: ASR, LSR and ROR halve the register with the sign, zero or the carry as the new top bit;
the bit shifted out becomes the carry.
\<close>

theorem asr_lsr_ror:
  assumes "ready s w"
    and "w AND 0xfe0f = 0x9405 \<and> msb = bit (memory s (op_d5 w)) 7 \<or>
         w AND 0xfe0f = 0x9406 \<and> msb = False \<or>
         w AND 0xfe0f = 0x9407 \<and> msb = fC (status_of (memory s SREG))"
  shows "let a = memory s (op_d5 w); r = halved a msb
         in unat r = unat a div 2 + 128 * of_bool msb \<and>
            emulate1 des s = Inr (after s 1 ((memory s)
              (op_d5 w := r, SREG := sreg_of ((status_of (memory s SREG))
                 \<lparr>fC := odd (unat a), fZ := r = 0, fN := msb, fV := odd (unat a) \<noteq> msb,
                  fS := odd (unat a)\<rparr>))) (pc s + 1))"
proof -
  have less: "op_d5 w < 32" by (rule op_less)
  note run = plain_def skips_def Let_def instr_asr_def instr_lsr_def instr_ror_def decode_d5 asr_sreg
    unat_halved shift_right top_bit_and sreg_C
  from assms(2) show ?thesis
  proof (elim disjE conjE)
    assume *: "w AND 0xfe0f = 0x9405" "msb = bit (memory s (op_d5 w)) 7"
    have l: "lookup w = Some ((plain 0x9405 0xfe0f Instr_asr)\<lparr>ddddd84 := True\<rparr>)"
      by (rule lookup_masked [OF *(1)]) (simp_all add: avr_instr_def plain_def)
    show ?thesis using less by (simp add: emulate1_one [OF assms(1) l] run * )
  next
    assume *: "w AND 0xfe0f = 0x9406" "msb = False"
    have l: "lookup w = Some ((plain 0x9406 0xfe0f Instr_lsr)\<lparr>ddddd84 := True\<rparr>)"
      by (rule lookup_masked [OF *(1)]) (simp_all add: avr_instr_def plain_def)
    show ?thesis using less by (simp add: emulate1_one [OF assms(1) l] run * )
  next
    assume *: "w AND 0xfe0f = 0x9407" "msb = fC (status_of (memory s SREG))"
    have l: "lookup w = Some ((plain 0x9407 0xfe0f Instr_ror)\<lparr>ddddd84 := True\<rparr>)"
      by (rule lookup_masked [OF *(1)]) (simp_all add: avr_instr_def plain_def)
    show ?thesis using less by (simp add: emulate1_one [OF assms(1) l] run * )
  qed
qed

section \<open>Multiplication\<close>

lemma sint_u8_range: "- 128 \<le> sint (a :: u8) \<and> sint a \<le> 127"
  unfolding sint_u8 signed_of_def using unat_u8_less [of a] by (simp only: split: if_split) linarith

lemma uint_u8_range: "0 \<le> uint (a :: u8) \<and> uint a \<le> 255"
  unfolding uint_nat using unat_u8_less [of a] by linarith

lemma product_bound:
  fixes x y :: int
  assumes "- m \<le> x" "x \<le> m" "- n \<le> y" "y \<le> n"
  shows "- (m * n) \<le> x * y" "x * y \<le> m * n"
proof -
  have "\<bar>x * y\<bar> \<le> m * n"
    unfolding abs_mult using assms by (intro mult_mono) auto
  then show "- (m * n) \<le> x * y" "x * y \<le> m * n" unfolding abs_le_iff by linarith+
qed

lemma uint_u16_of_int: "0 \<le> p \<Longrightarrow> p < 65536 \<Longrightarrow> uint (word_of_int p :: u16) = p"
  by (simp add: unsigned_of_int take_bit_eq_mod)

lemma sint_u16_of_int: "- 32768 \<le> p \<Longrightarrow> p < 32768 \<Longrightarrow> sint (word_of_int p :: u16) = p"
  by (simp add: signed_of_int signed_take_bit_int_eq_self)

lemma products:
  fixes a b :: u8
  shows "uint (ucast a * ucast b :: u16) = uint a * uint b"
    "sint (scast a * scast b :: u16) = sint a * sint b"
    "sint (scast a * ucast b :: u16) = sint a * uint b"
proof -
  note r = sint_u8_range [of a] sint_u8_range [of b] uint_u8_range [of a] uint_u8_range [of b]
  have e: "(ucast a * ucast b :: u16) = word_of_int (uint a * uint b)"
    "(scast a * scast b :: u16) = word_of_int (sint a * sint b)"
    "(scast a * ucast b :: u16) = word_of_int (sint a * uint b)"
    unfolding scast_eq ucast_eq by (simp_all only: of_int_mult)
  have u: "0 \<le> uint a * uint b" "uint a * uint b \<le> 255 * 255"
    using product_bound(2) [of 255 "uint a" 255 "uint b"] r by (simp, linarith)
  have s: "- (128 * 128) \<le> sint a * sint b" "sint a * sint b \<le> 128 * 128"
    using product_bound [of 128 "sint a" 128 "sint b"] r by linarith+
  have m: "- (128 * 255) \<le> sint a * uint b" "sint a * uint b \<le> 128 * 255"
    using product_bound [of 128 "sint a" 255 "uint b"] r by linarith+
  show "uint (ucast a * ucast b :: u16) = uint a * uint b"
    unfolding e by (rule uint_u16_of_int) (use u in linarith)+
  show "sint (scast a * scast b :: u16) = sint a * sint b"
    unfolding e by (rule sint_u16_of_int) (use s in linarith)+
  show "sint (scast a * ucast b :: u16) = sint a * uint b"
    unfolding e by (rule sint_u16_of_int) (use m in linarith)+
qed

lemma mul_sreg: "sreg_after (mul_flags16 v (0, 0)) g = sreg_of ((status_of g)\<lparr>fC := bit v 15, fZ := v = 0\<rparr>)"
  "sreg_after (fmul_flags16 v (0, 0)) g = sreg_of ((status_of g)\<lparr>fC := bit v 15, fZ := push_bit 1 v = 0\<rparr>)"
  by (rule sreg_of_eq, rule mul_flags16_bits, rule sreg_of_eq, rule fmul_flags16_bits)

lemma memwriteword_0: "memwriteword 0 v s = Inr (mem_upd (Suc 0) (hi_byte v) (mem_upd 0 (lo_byte v) s))"
  by (simp add: memwriteword_eq)

text \<open>
C16: MUL, MULS and MULSU leave in R1:R0 a word whose unsigned or signed value is exactly the
integer product, with carry its top bit.
\<close>

theorem mul_muls_mulsu:
  assumes "ready s w"
    and "w AND 0xfc00 = 0x9c00 \<and> d = op_d5 w \<and> r = op_r5 w \<and>
           p = uint (memory s d) * uint (memory s r) \<and> val = uint \<or>
         w AND 0xff00 = 0x0200 \<and> d = op_d4 w \<and> r = op_r4 w \<and>
           p = sint (memory s d) * sint (memory s r) \<and> val = sint \<or>
         w AND 0xff88 = 0x0300 \<and> d = op_d3 w \<and> r = op_r3 w \<and>
           p = sint (memory s d) * uint (memory s r) \<and> val = sint"
  shows "\<exists>v. val v = p \<and> emulate1 des s = Inr (after s 1
    ((set_pair (memory s) 0 v)(SREG := sreg_of ((status_of (memory s SREG))
       \<lparr>fC := bit v 15, fZ := v = 0\<rparr>))) (pc s + 1))"
proof -
  note run = plain_def skips_def Let_def instr_mul_def instr_muls_def instr_mulsu_def decode_d5 decode_r5
    decode_d4 decode_r4 decode_d3 decode_r3 memwriteword_0 mul_sreg set_pair_def
  from assms(2) show ?thesis
  proof (elim disjE conjE)
    assume *: "w AND 0xfc00 = 0x9c00" and ** [simp]: "d = op_d5 w" "r = op_r5 w"
      "p = uint (memory s d) * uint (memory s r)" "val = uint"
    have l: "lookup w = Some ((plain 0x9c00 0xfc00 Instr_mul)\<lparr>ddddd84 := True, rrrrr9_30 := True\<rparr>)"
      by (rule lookup_masked [OF *(1)]) (simp_all add: avr_instr_def plain_def)
    show ?thesis
      by (rule exI [of _ "ucast (memory s d) * ucast (memory s r)"])
       (simp add: emulate1_one [OF assms(1) l] run products)
  next
    assume *: "w AND 0xff00 = 0x0200" and ** [simp]: "d = op_d4 w" "r = op_r4 w"
      "p = sint (memory s d) * sint (memory s r)" "val = sint"
    have l: "lookup w = Some ((plain 0x0200 0xff00 Instr_muls)\<lparr>dddd74 := True, rrrr30 := True\<rparr>)"
      by (rule lookup_masked [OF *(1)]) (simp_all add: avr_instr_def plain_def)
    show ?thesis
      by (rule exI [of _ "scast (memory s d) * scast (memory s r)"])
       (simp add: emulate1_one [OF assms(1) l] run products)
  next
    assume *: "w AND 0xff88 = 0x0300" and ** [simp]: "d = op_d3 w" "r = op_r3 w"
      "p = sint (memory s d) * uint (memory s r)" "val = sint"
    have l: "lookup w = Some ((plain 0x0300 0xff88 Instr_mulsu)\<lparr>ddd64 := True, rrr20 := True\<rparr>)"
      by (rule lookup_masked [OF *(1)]) (simp_all add: avr_instr_def plain_def)
    show ?thesis
      by (rule exI [of _ "scast (memory s d) * ucast (memory s r)"])
       (simp add: emulate1_one [OF assms(1) l] run products)
  qed
qed

section \<open>Concrete instances\<close>

lemma add_adc_witness:
  "memory (projr (emulate1 des_xor (boot (\<lambda>_. 0x1c01) ((\<lambda>_. 0)(0 := 200, 1 := 100, SREG := 1))))) 0 = 45"
  using add_adc [of "boot (\<lambda>_. 0x1c01) ((\<lambda>_. 0)(0 := 200, 1 := 100, SREG := 1))" "0x1c01" True des_xor]
  by (simp add: at_boot)

lemma cp_cpc_sub_sbc_witness:
  "memory (projr (emulate1 des_xor (boot (\<lambda>_. 0x1801) ((\<lambda>_. 0)(0 := 7, 1 := 7))))) SREG = 0"
  using cp_cpc_sub_sbc [of "boot (\<lambda>_. 0x1801) ((\<lambda>_. 0)(0 := 7, 1 := 7))" "0x1801" False True des_xor]
  by (simp add: at_boot keep_zero_def sub_status_def)

lemma cpi_sbci_subi_witness:
  "memory (projr (emulate1 des_xor (boot (\<lambda>_. 0x5107) ((\<lambda>_. 0)(16 := 23))))) 16 = 0"
  using cpi_sbci_subi [of "boot (\<lambda>_. 0x5107) ((\<lambda>_. 0)(16 := 23))" "0x5107" False True des_xor]
  by (simp add: at_boot)

lemma adiw_sbiw_witness:
  "memory (projr (emulate1 des_xor (boot (\<lambda>_. 0x9601) ((\<lambda>_. 0)(24 := 0xff))))) 25 = 1"
  using adiw_sbiw [of "boot (\<lambda>_. 0x9601) ((\<lambda>_. 0)(24 := 0xff))" "0x9601" False des_xor]
  by (simp add: at_boot op_W_def set_pair_def le_word_def hi_byte_def lo_byte_def)

lemma inc_dec_witness:
  "memory (projr (emulate1 des_xor (boot (\<lambda>_. 0x9403) ((\<lambda>_. 0)(0 := 0x7f))))) SREG = 0x0c"
  using inc_dec [of "boot (\<lambda>_. 0x9403) ((\<lambda>_. 0)(0 := 0x7f))" "0x9403" False des_xor]
  by (simp add: at_boot step_status_def)

lemma neg_com_witness:
  "memory (projr (emulate1 des_xor (boot (\<lambda>_. 0x9401) ((\<lambda>_. 0)(0 := 1))))) 0 = 0xff"
  using neg_com [of "boot (\<lambda>_. 0x9401) ((\<lambda>_. 0)(0 := 1))" "0x9401" False des_xor]
  by (simp add: at_boot)

lemma logic_witness:
  "memory (projr (emulate1 des_xor (boot (\<lambda>_. 0x2001) ((\<lambda>_. 0)(0 := 0x0f, 1 := 0x3c))))) 0 = 0x0c"
  using logic [of "boot (\<lambda>_. 0x2001) ((\<lambda>_. 0)(0 := 0x0f, 1 := 0x3c))" "0x2001" 0 "0x0c" des_xor]
  by (simp add: at_boot)

lemma asr_lsr_ror_witness:
  "memory (projr (emulate1 des_xor (boot (\<lambda>_. 0x9407) ((\<lambda>_. 0)(0 := 3, SREG := 1))))) 0 = 0x81"
  using asr_lsr_ror [of "boot (\<lambda>_. 0x9407) ((\<lambda>_. 0)(0 := 3, SREG := 1))" "0x9407" True des_xor]
  by (simp add: at_boot halved_def)

lemma mul_muls_mulsu_witness:
  "\<exists>v. sint v = - 6 \<and> memory (projr (emulate1 des_xor (boot (\<lambda>_. 0x0201) ((\<lambda>_. 0)(16 := 0xfe, 17 := 3))))) 0 = lo_byte v"
  using mul_muls_mulsu [of "boot (\<lambda>_. 0x0201) ((\<lambda>_. 0)(16 := 0xfe, 17 := 3))" "0x0201" 16 17 "- 6" sint des_xor]
  by (auto simp: at_boot set_pair_def sint_u8 signed_of_def)

end
