(* ===== verification/Data_Spec.thy ===== *)
theory Data_Spec
  imports Alu_Spec
begin

text \<open>
  What the fractional multiplications, the moves between registers, the bit and flag
  instructions and DES do when \<open>emulate1\<close> runs them.
\<close>

unbundle bit_operations_syntax

section \<open>Fractional multiplication\<close>

theorem fmul_fmuls_fmulsu:
  assumes "ready s w"
    and "w AND 0xff88 = 0x0308 \<and> p = uint (memory s (op_d3 w)) * uint (memory s (op_r3 w)) \<or>
         w AND 0xff88 = 0x0380 \<and> p = sint (memory s (op_d3 w)) * sint (memory s (op_r3 w)) \<or>
         w AND 0xff88 = 0x0388 \<and> p = sint (memory s (op_d3 w)) * uint (memory s (op_r3 w))"
  shows "let v = word_of_int p :: u16; r = word_of_int (2 * p) :: u16
         in emulate1 des s = Inr (after s 1 ((set_pair (memory s) 0 r)
              (SREG := sreg_of ((status_of (memory s SREG))\<lparr>fC := bit v 15, fZ := r = 0\<rparr>))) (pc s + 1))"
proof -
  have e: "(ucast a * ucast b :: u16) = word_of_int (uint a * uint b)"
    "(scast a * scast b :: u16) = word_of_int (sint a * sint b)"
    "(scast a * ucast b :: u16) = word_of_int (sint a * uint b)" for a b :: u8
    unfolding scast_eq ucast_eq by (simp_all only: of_int_mult)
  have two: "(word_of_int q :: u16) * 2 = word_of_int (2 * q)" for q
    by simp
  note run = plain_def skips_def Let_def instr_fmul_def instr_fmulsu_def decode_d3 decode_r3
    memwriteword_0 mul_sreg set_pair_def e two
  from assms(2) show ?thesis
  proof (elim disjE conjE)
    assume *: "w AND 0xff88 = 0x0308" and p: "p = uint (memory s (op_d3 w)) * uint (memory s (op_r3 w))"
    have l: "lookup w = Some ((plain 0x0308 0xff88 Instr_fmul)\<lparr>ddd64 := True, rrr20 := True\<rparr>)"
      by (rule lookup_masked [OF *]) (simp_all add: avr_instr_def plain_def)
    show ?thesis by (simp add: emulate1_one [OF assms(1) l] run p del: of_int_mult of_int_numeral)
  next
    assume *: "w AND 0xff88 = 0x0380" and p: "p = sint (memory s (op_d3 w)) * sint (memory s (op_r3 w))"
    have l: "lookup w = Some ((plain 0x0380 0xff80 Instr_fmulsu)\<lparr>ddd64 := True, rrr20 := True\<rparr>)"
      by (rule lookup_masked [OF *]) (simp_all add: avr_instr_def plain_def)
    have "w AND 8 = 0" using masked_sub [OF *, of 8] by simp
    then show ?thesis by (simp add: emulate1_one [OF assms(1) l] run p del: of_int_mult of_int_numeral)
  next
    assume *: "w AND 0xff88 = 0x0388" and p: "p = sint (memory s (op_d3 w)) * uint (memory s (op_r3 w))"
    have l: "lookup w = Some ((plain 0x0380 0xff80 Instr_fmulsu)\<lparr>ddd64 := True, rrr20 := True\<rparr>)"
      by (rule lookup_masked [OF *]) (simp_all add: avr_instr_def plain_def)
    have "w AND 8 = 8" using masked_sub [OF *, of 8] by simp
    then show ?thesis by (simp add: emulate1_one [OF assms(1) l] run p del: of_int_mult of_int_numeral)
  qed
qed

section \<open>Moves between registers\<close>

definition op_DD :: "u16 \<Rightarrow> nat" where "op_DD w = 2 * (unat w div 16 mod 16)"
definition op_RR :: "u16 \<Rightarrow> nat" where "op_RR w = 2 * (unat w mod 16)"

lemma pair_of: "16 \<le> unat x \<Longrightarrow> unat x < 32 \<Longrightarrow> unat (x * 2 - 32) = 2 * (unat x - 16)"
  for x :: u8
proof -
  assume *: "16 \<le> unat x" "unat x < 32"
  have e: "x * 2 - 32 = push_bit (Suc 0) (x - 16)" by simp
  have "unat (x - 16) = unat x - 16" using *(1) by (subst unat_sub) (simp_all add: word_le_nat_alt)
  with * show "unat (x * 2 - 32) = 2 * (unat x - 16)"
    unfolding e by (simp only: unsigned_push_bit_eq) (simp add: push_bit_eq_mult take_bit_nat_eq_self)
qed

lemma op_DD_RR: "2 * (op_d4 w - 16) = op_DD w" "2 * (op_r4 w - 16) = op_RR w"
  by (simp_all add: op_d4_def op_r4_def op_DD_def op_RR_def)

lemma nibbles_swapped: "drop_bit 4 a OR push_bit 4 a = of_nat (unat a div 16 + 16 * (unat a mod 16))" for a :: u8
proof -
  have d: "unat (drop_bit 4 a) = unat a div 16" by (simp only: unat_drop_bit_eq) (simp add: drop_bit_eq_div)
  have p: "unat (push_bit 4 a) = 16 * (unat a mod 16)"
    by (simp only: unsigned_push_bit_eq) (simp add: push_bit_eq_mult take_bit_eq_mod mult_mod_right mult.commute)
  have "drop_bit 4 a AND push_bit 4 a = 0"
    by (intro bit_word_eqI) (auto simp: bit_simps dest: bit_imp_le_length)
  then have "drop_bit 4 a OR push_bit 4 a = drop_bit 4 a + push_bit 4 a"
    by (rule disjunctive_add_eq_or [symmetric])
  then show ?thesis unfolding word_unat_eq_iff unat_of_nat by (simp add: unat_word_ariths d p)
qed

theorem mov_movw_ldi_swap:
  assumes "ready s w"
    and "w AND 0xfc00 = 0x2c00 \<and> m = (memory s)(op_d5 w := memory s (op_r5 w)) \<or>
         w AND 0xff00 = 0x0100 \<and> m = (memory s)
           (op_DD w := memory s (op_RR w), op_DD w + 1 := memory s (op_RR w + 1)) \<or>
         w AND 0xf000 = 0xe000 \<and> m = (memory s)(op_d4 w := op_K8 w) \<or>
         w AND 0xfe0f = 0x9402 \<and> m = (memory s)(op_d5 w :=
           of_nat (unat (memory s (op_d5 w)) div 16 + 16 * (unat (memory s (op_d5 w)) mod 16)))"
  shows "emulate1 des s = Inr (after s 1 m (pc s + 1))"
proof -
  have less: "op_d5 w < 32" "op_d4 w < 32" "op_r4 w < 32" by (rule op_less)+
  have ge: "16 \<le> op_d4 w" "16 \<le> op_r4 w" by (simp_all add: op_d4_def op_r4_def)
  note run = plain_def skips_def Let_def instr_mov_def instr_movw_def instr_ldi_def instr_swap_def
    decode_d5 decode_r5 decode_d4 decode_r4 decode_K8
  from assms(2) show ?thesis
  proof (elim disjE conjE)
    assume *: "w AND 0xfc00 = 0x2c00" and m: "m = (memory s)(op_d5 w := memory s (op_r5 w))"
    have l: "lookup w = Some ((plain 0x2c00 0xfc00 Instr_mov)\<lparr>ddddd84 := True, rrrrr9_30 := True\<rparr>)"
      by (rule lookup_masked [OF *]) (simp_all add: avr_instr_def plain_def)
    show ?thesis using less by (simp add: emulate1_one [OF assms(1) l] run m)
  next
    assume *: "w AND 0xff00 = 0x0100" and m: "m = (memory s)
           (op_DD w := memory s (op_RR w), op_DD w + 1 := memory s (op_RR w + 1))"
    have l: "lookup w = Some ((plain 0x0100 0xff00 Instr_movw)\<lparr>dddd74 := True, rrrr30 := True\<rparr>)"
      by (rule lookup_masked [OF *]) (simp_all add: avr_instr_def plain_def)
    have "op_DD w < 32" using less(2) op_DD_RR [of w] by linarith
    then show ?thesis
      using less ge by (simp add: emulate1_one [OF assms(1) l] run m memword_pair memwriteword_pair 
        pair_of op_DD_RR)
  next
    assume *: "w AND 0xf000 = 0xe000" and m: "m = (memory s)(op_d4 w := op_K8 w)"
    have l: "lookup w = Some ((plain 0xe000 0xf000 Instr_ldi)\<lparr>dddd74 := True, KKKK118_30 := True\<rparr>)"
      by (rule lookup_masked [OF *]) (simp_all add: avr_instr_def plain_def)
    show ?thesis using less by (simp add: emulate1_one [OF assms(1) l] run m)
  next
    assume *: "w AND 0xfe0f = 0x9402" and m: "m = (memory s)(op_d5 w :=
           of_nat (unat (memory s (op_d5 w)) div 16 + 16 * (unat (memory s (op_d5 w)) mod 16)))"
    have l: "lookup w = Some ((plain 0x9402 0xfe0f Instr_swap)\<lparr>ddddd84 := True\<rparr>)"
      by (rule lookup_masked [OF *]) (simp_all add: avr_instr_def plain_def)
    show ?thesis using less by (simp add: emulate1_one [OF assms(1) l] run m nibbles_swapped)
  qed
qed

section \<open>Single bits of registers and of the status register\<close>

definition op_bit :: "u16 \<Rightarrow> nat" where "op_bit w = unat w mod 8"
definition op_flag :: "u16 \<Rightarrow> nat" where "op_flag w = unat w div 16 mod 8"

lemma mask_of_bit:
  fixes a :: u8
  shows "a OR 2 ^ n = set_bit n a" "a AND NOT (2 ^ n) = unset_bit n a" "a AND 2 ^ n = 0 \<longleftrightarrow> \<not> bit a n"
  unfolding set_bit_eq_or unset_bit_eq_and_not push_bit_of_1 by (simp_all add: and_exp_eq_0_iff_not_bit)

lemma decode_bit: "rrr20 e \<Longrightarrow> unat (rrrrr (decode_fields e w imm) - 16) = op_bit w"
  unfolding op_bit_def by (rule op_bit)

lemma decode_flag: "ddd64 e \<Longrightarrow> unat (ddddd (decode_fields e w imm) - 16) = op_flag w"
proof -
  have "unat w div 16 mod 8 < 8" by simp
  then have *: "unat w div 16 mod 8 < 256" by linarith
  show "ddd64 e \<Longrightarrow> ?thesis"
    by (simp add: decode_fields_def decode_ddddd_def unat_u8_of_u16 fields16 op_flag_def * del: drop_bit_and)
qed

lemma sreg_one_flag:
  "sreg_after (2 ^ n, 0) g = set_bit n g" "sreg_after (0, 2 ^ n) g = unset_bit n g"
  by (simp_all add: sreg_after_def mask_of_bit)

lemma sreg_T: "sreg_after (64, 0) g = sreg_of ((status_of g)\<lparr>fT := True\<rparr>)"
  "sreg_after (0, 64) g = sreg_of ((status_of g)\<lparr>fT := False\<rparr>)"
  by (rule sreg_of_eq, simp add: status_of_def bit_eqs bit_simps)+

theorem bset_bclr_bst_bld:
  assumes "ready s w"
    and "w AND 0xff8f = 0x9408 \<and> m = (memory s)(SREG := set_bit (op_flag w) (memory s SREG)) \<or>
         w AND 0xff8f = 0x9488 \<and> m = (memory s)(SREG := unset_bit (op_flag w) (memory s SREG)) \<or>
         w AND 0xfe08 = 0xfa00 \<and> m = (memory s)(SREG := sreg_of ((status_of (memory s SREG))
           \<lparr>fT := bit (memory s (op_d5 w)) (op_bit w)\<rparr>)) \<or>
         w AND 0xfe08 = 0xf800 \<and> m = (memory s)(op_d5 w :=
           (if fT (status_of (memory s SREG)) then set_bit (op_bit w) (memory s (op_d5 w))
            else unset_bit (op_bit w) (memory s (op_d5 w))))"
  shows "emulate1 des s = Inr (after s 1 m (pc s + 1))"
proof -
  have less: "op_d5 w < 32" by (rule op_less)
  note run = plain_def skips_def Let_def instr_bclrset_def instr_bst_def instr_bld_def
    decode_d5 decode_bit decode_flag mask_of_bit sreg_one_flag sreg_T
  from assms(2) show ?thesis
  proof (elim disjE conjE)
    assume *: "w AND 0xff8f = 0x9408" and m: "m = (memory s)(SREG := set_bit (op_flag w) (memory s SREG))"
    have l: "lookup w = Some ((plain 0x9408 0xff0f Instr_bclrset)\<lparr>ddd64 := True\<rparr>)"
      by (rule lookup_masked [OF *]) (simp_all add: avr_instr_def plain_def)
    have "w AND 0x80 = 0" using masked_sub [OF *, of 128] by simp
    then show ?thesis by (simp add: emulate1_one [OF assms(1) l] run m flagged_def idc_flags_def)
  next
    assume *: "w AND 0xff8f = 0x9488" and m: "m = (memory s)(SREG := unset_bit (op_flag w) (memory s SREG))"
    have l: "lookup w = Some ((plain 0x9408 0xff0f Instr_bclrset)\<lparr>ddd64 := True\<rparr>)"
      by (rule lookup_masked [OF *]) (simp_all add: avr_instr_def plain_def)
    have "w AND 0x80 = 0x80" using masked_sub [OF *, of 128] by simp
    then show ?thesis by (simp add: emulate1_one [OF assms(1) l] run m flagged_def idc_flags_def)
  next
    assume *: "w AND 0xfe08 = 0xfa00" and m: "m = (memory s)(SREG := sreg_of ((status_of (memory s SREG))
           \<lparr>fT := bit (memory s (op_d5 w)) (op_bit w)\<rparr>))"
    have l: "lookup w = Some ((plain 0xfa00 0xfe08 Instr_bst)\<lparr>ddddd84 := True, rrr20 := True\<rparr>)"
      by (rule lookup_masked [OF *]) (simp_all add: avr_instr_def plain_def)
    show ?thesis by (simp add: emulate1_one [OF assms(1) l] run m flagged_def idc_flags_def)
  next
    assume *: "w AND 0xfe08 = 0xf800" and m: "m = (memory s)(op_d5 w :=
           (if fT (status_of (memory s SREG)) then set_bit (op_bit w) (memory s (op_d5 w))
            else unset_bit (op_bit w) (memory s (op_d5 w))))"
    have l: "lookup w = Some ((plain 0xf800 0xfe08 Instr_bld)\<lparr>ddddd84 := True, rrr20 := True\<rparr>)"
      by (rule lookup_masked [OF *]) (simp_all add: avr_instr_def plain_def)
    have "memory s 0x5F AND 0x40 = 0 \<longleftrightarrow> \<not> fT (status_of (memory s 0x5F))"
      by (simp add: status_of_def bit_eqs)
    then show ?thesis using less by (simp add: emulate1_one [OF assms(1) l] run m)
  qed
qed

section \<open>DES\<close>

lemma des_exec:
  assumes "ready s 0x94fb"
  shows "emulate1 des s = Inr (after s 1 (\<lambda>i. if i < 8 then
      des (if fH (status_of (memory s SREG)) then DES_DECRYPT else DES_ENCRYPT) (des_block s 8) (des_block s 0) i
      else memory s i) (pc s + 1))"
proof -
  have l: "lookup 0x94fb = Some ((plain 0x940b 0xff0f Instr_des)\<lparr>dddd74 := True\<rparr>)"
    by (rule lookup_masked [of _ "0xff0f" "0x940b"]) (simp_all add: avr_instr_def plain_def)
  have d: "ddddd (decode_fields ((plain 0x940b 0xff0f Instr_des)\<lparr>dddd74 := True\<rparr>) 0x94fb 0) = 31"
    by (simp add: decode_fields_def decode_ddddd_def plain_def)
  have b: "des_block (begun s n) a = des_block s a" for n a
    by (simp add: des_block_def cong: if_cong)
  have h: "memory s 0x5F AND 0x20 = 0 \<longleftrightarrow> \<not> fH (status_of (memory s 0x5F))"
    by (simp add: status_of_def bit_eqs)
  show ?thesis
    using d by (simp add: emulate1_one [OF assms l] plain_def skips_def instr_des_def Let_def b h
      flagged_def idc_flags_def sreg_after_def fun_upd_idem cong: if_cong)
qed

theorem des_roundtrip:
  assumes "\<And>k x i. i < 8 \<Longrightarrow>
      des DES_DECRYPT k (\<lambda>j. if j < 8 then des DES_ENCRYPT k x j else 0) i = x i"
    and "ready s 0x94fb" "\<not> fH (status_of (memory s SREG))" "emulate1 des s = Inr t"
    and "ready u 0x94fb" "fH (status_of (memory u SREG))" "\<And>i. i < 16 \<Longrightarrow> memory u i = memory t i"
  shows "\<exists>v. emulate1 des u = Inr v \<and> (\<forall>i < 8. memory v i = memory s i)"
proof -
  have t: "memory t i = (if i < 8 then des DES_ENCRYPT (des_block s 8) (des_block s 0) i else memory s i)" for i
    using assms(3,4) unfolding des_exec [OF assms(2)] by (simp add: after_def) auto
  have "des_block u 8 = des_block s 8"
    by (rule ext) (simp add: des_block_def assms(7) t)
  moreover have "des_block u 0 = (\<lambda>j. if j < 8 then des DES_ENCRYPT (des_block s 8) (des_block s 0) j else 0)"
    by (rule ext) (simp add: des_block_def assms(7) t)
  ultimately have "des DES_DECRYPT (des_block u 8) (des_block u 0) i = des_block s 0 i" if "i < 8" for i
    by (simp only: assms(1) [OF that])
  then have "des DES_DECRYPT (des_block u 8) (des_block u 0) i = memory s i" if "i < 8" for i
    using that by (simp add: des_block_def)
  then show ?thesis
    using assms(6) unfolding des_exec [OF assms(5)] by (simp add: after_def)
qed

lemma des_roundtrip_witness:
  "let s = boot (\<lambda>_. 0x94fb) ((\<lambda>i. of_nat i)(SREG := 0));
       t = projr (emulate1 des_xor s);
       u = boot (\<lambda>_. 0x94fb) ((memory t)(SREG := 0x20))
   in \<exists>v. emulate1 des_xor u = Inr v \<and> (\<forall>i < 8. memory v i = memory s i)"
proof -
  let ?s = "boot (\<lambda>_. 0x94fb) ((\<lambda>i. of_nat i)(SREG := 0))"
  have s: "\<exists>t. emulate1 des_xor ?s = Inr t"
    using des_exec [of ?s des_xor] by (simp add: boot_def ready_def status_of_def)
  then show ?thesis unfolding Let_def
    by (intro des_roundtrip [of des_xor, where s = ?s])
      (auto simp: des_xor_def boot_def ready_def status_of_def xor.assoc [symmetric])
qed

section \<open>Concrete instances\<close>

lemma fmul_fmuls_fmulsu_witness:
  "memory (projr (emulate1 des_xor (boot (\<lambda>_. 0x0309) ((\<lambda>_. 0)(16 := 0x80, 17 := 0x80))))) 1 = 0x80"
  using fmul_fmuls_fmulsu [of "boot (\<lambda>_. 0x0309) ((\<lambda>_. 0)(16 := 0x80, 17 := 0x80))" "0x0309" 16384 des_xor]
  by (simp add: at_boot set_pair_def hi_byte_def)

lemma mov_movw_ldi_swap_witness:
  "memory (projr (emulate1 des_xor (boot (\<lambda>_. 0x0101) ((\<lambda>_. 0)(2 := 5, 3 := 6))))) 1 = 6"
  using mov_movw_ldi_swap [of "boot (\<lambda>_. 0x0101) ((\<lambda>_. 0)(2 := 5, 3 := 6))" "0x0101"
     "((\<lambda>_. 0)(2 := 5, 3 := 6))(0 := 5, 1 := 6)" des_xor]
  by (simp add: at_boot op_DD_def op_RR_def)

lemma bset_bclr_bst_bld_witness:
  "memory (projr (emulate1 des_xor (boot (\<lambda>_. 0x9478) (\<lambda>_. 0)))) SREG = 0x80"
  using bset_bclr_bst_bld [of "boot (\<lambda>_. 0x9478) (\<lambda>_. 0)" "0x9478"
     "(\<lambda>_. 0)(SREG := set_bit 7 0)" des_xor]
  by (simp add: at_boot op_flag_def set_bit_eq_or)

end
