(* ===== verification/Flow_Spec.thy ===== *)
theory Flow_Spec
  imports Data_Spec
begin

text \<open>
  What branches, jumps, calls, returns and skips do when \<open>emulate1\<close> runs them. Targets are
  given as the arithmetic of the offsets in the instruction word.
\<close>

unbundle bit_operations_syntax

lemma pushbyte_begun: "pushbyte b (begun s n) = begun (pushbyte b s) n"
  by (simp add: pushbyte_def Let_def setsp_eq begun_def mem_upd_def getsp_eq)

lemma push_pc_begun: "push_pc a (begun s n) = begun (push_pc a s) n"
  by (simp add: push_pc_def Let_def pushbyte_begun)

lemma pc_simps [simp]: "pc (push_pc a s) = pc s" "instr_size (push_pc a s) = instr_size s"
  "pc22 (push_pc a s) = pc22 s" "pc_start (push_pc a s) = pc_start s"
  by (simp_all add: push_pc_def Let_def pushbyte_def setsp_eq)

definition branch_offset :: "u16 \<Rightarrow> int" where
  "branch_offset w = (let k = unat w div 8 mod 128 in if 64 \<le> k then int k - 128 else int k)"

definition jump_offset :: "u16 \<Rightarrow> int" where
  "jump_offset w = (let k = unat w mod 4096 in if 2048 \<le> k then int k - 4096 else int k)"

lemma brb_imm:
  fixes w :: u16
  defines "v \<equiv> ucast (drop_bit 3 (w AND 0x3f8)) :: u8"
  shows "v AND 0x40 \<noteq> 0 \<Longrightarrow> scast (v OR 0x80) = (word_of_int (branch_offset w) :: u32)"
    "v AND 0x40 = 0 \<Longrightarrow> scast v = (word_of_int (branch_offset w) :: u32)"
proof -
  let ?k = "unat w div 8 mod 128"
  have k: "?k < 128" by simp
  have v: "unat v = ?k" unfolding v_def unat_u8_of_u16 fields16 using k by simp
  have six: "v AND 0x40 \<noteq> 0 \<longleftrightarrow> 64 \<le> ?k"
    using odd_top_bit_nat [of ?k 64] k mask_u8(7) [of v] by (simp add: bit_unat v)
  have "v AND 0x80 = 0" using k by (simp add: bit_eqs bit_u8_7 v)
  then have "v OR 0x80 = v + 0x80" by (rule disjunctive_add_eq_or [symmetric])
  then have "unat (v OR 0x80) = ?k + 128" using k by (simp add: unat_word_ariths v)
  then have "sint (v OR 0x80) = int ?k - 128" unfolding sint_u8 signed_of_def by simp
  then show "v AND 0x40 \<noteq> 0 \<Longrightarrow> scast (v OR 0x80) = (word_of_int (branch_offset w) :: u32)"
    unfolding scast_eq branch_offset_def Let_def six by simp
  have "sint v = int ?k" unfolding sint_u8 signed_of_def v using k by simp
  then show "v AND 0x40 = 0 \<Longrightarrow> scast v = (word_of_int (branch_offset w) :: u32)"
    using six unfolding scast_eq branch_offset_def Let_def by simp
qed

text \<open>
C34: A conditional branch on any status bit is taken exactly when the bit has the tested value,
to pc + 1 + k for the signed seven-bit offset k.
\<close>

theorem brbs_brbc:
  assumes "ready s w" and "w AND 0xfc00 = (if if_set then 0xf000 else 0xf400)"
  shows "emulate1 des s = Inr (after s 1 (memory s)
    (pc s + (if bit (memory s SREG) (op_bit w) = if_set then word_of_int (branch_offset w) else 0) + 1))"
proof -
  have l: "lookup w = Some ((plain 0xf000 0xf800 Instr_brb)\<lparr>rrr20 := True\<rparr>)"
    by (rule lookup_masked [OF assms(2)]) (simp_all add: avr_instr_def plain_def)
  have "w AND 0x400 = (if if_set then 0xf000 else 0xf400) AND 0x400"
    by (rule masked_sub [OF assms(2)]) simp
  then have m: "w AND 0x400 = 0 \<longleftrightarrow> if_set" by (simp split: if_splits)
  show ?thesis
    by (cases if_set; cases "bit (memory s SREG) (op_bit w)";
        cases "(ucast (drop_bit 3 (w AND 0x3f8)) :: u8) AND 0x40 = 0")
      (simp_all add: emulate1_one [OF assms(1) l] plain_def skips_def instr_brb_def Let_def
        decode_bit mask_of_bit brb_imm m del: drop_bit_and)
qed

lemma rcall_imm:
  fixes w :: u16
  defines "v \<equiv> w AND 0xfff"
  shows "v AND 0x800 \<noteq> 0 \<Longrightarrow> scast (v OR 0xf000) = (word_of_int (jump_offset w) :: u32)"
    "v AND 0x800 = 0 \<Longrightarrow> scast v = (word_of_int (jump_offset w) :: u32)"
proof -
  let ?k = "unat w mod 4096"
  have k: "?k < 4096" by simp
  have v: "unat v = ?k" unfolding v_def using field_low [of w 12] by (simp add: mask_eq_exp_minus_1)
  have six: "v AND 0x800 \<noteq> 0 \<longleftrightarrow> 2048 \<le> ?k"
    using odd_top_bit_nat [of ?k 2048] k and_exp_eq_0_iff_not_bit [of v 11] by (simp add: bit_unat v)
  have "v AND 0xf000 = 0" unfolding v_def by (simp add: and.assoc)
  then have "v OR 0xf000 = v + 0xf000" by (rule disjunctive_add_eq_or [symmetric])
  then have "unat (v OR 0xf000) = ?k + 61440" using k by (simp add: unat_word_ariths v)
  then have "sint (v OR 0xf000) = int ?k - 4096" unfolding sint_u16 signed_of_def by simp
  then show "v AND 0x800 \<noteq> 0 \<Longrightarrow> scast (v OR 0xf000) = (word_of_int (jump_offset w) :: u32)"
    unfolding scast_eq jump_offset_def Let_def six by simp
  have "sint v = int ?k" unfolding sint_u16 signed_of_def v using k by simp
  then show "v AND 0x800 = 0 \<Longrightarrow> scast v = (word_of_int (jump_offset w) :: u32)"
    using six unfolding scast_eq jump_offset_def Let_def by simp
qed

lemma rjmp_rcall_exec:
  assumes "ready s w" and "w AND 0xf000 = (if calling then 0xd000 else 0xc000)"
  shows "emulate1 des s = Inr (after s 1
    (if calling then memory (push_pc (pc s + 1) s) else memory s)
    (pc s + word_of_int (jump_offset w) + 1))"
proof -
  have l: "lookup w = Some (plain 0xc000 0xe000 Instr_rcalljmp)"
    by (rule lookup_masked [OF assms(2)]) (simp_all add: avr_instr_def plain_def)
  have "w AND 0x1000 = (if calling then 0xd000 else 0xc000) AND 0x1000"
    by (rule masked_sub [OF assms(2)]) simp
  then have m: "w AND 0x1000 = 0 \<longleftrightarrow> \<not> calling" by (simp split: if_splits)
  show ?thesis
    by (cases calling; cases "(w AND 0xfff) AND 0x800 = 0")
      (simp_all add: emulate1_one [OF assms(1) l] plain_def skips_def instr_rcalljmp_def Let_def
        rcall_imm m push_pc_begun)
qed

definition long_address :: "bool \<Rightarrow> u16 \<Rightarrow> u16 \<Rightarrow> nat" where
  "long_address long w imm =
     unat imm + (if long then 65536 * (2 * (unat w div 16 mod 32) + unat w mod 2) else 0)"

lemma unat_or_u32: "x AND y = 0 \<Longrightarrow> unat x + unat y < 2 ^ 32 \<Longrightarrow> unat (x OR y) = unat x + unat y" for x y :: u32
proof -
  assume *: "x AND y = 0" "unat x + unat y < 2 ^ 32"
  have "x OR y = x + y" by (rule disjunctive_add_eq_or [OF *(1), symmetric])
  then show ?thesis using *(2) by (simp add: unat_word_ariths)
qed

lemma long_target_address:
  "unat (long_target (decode_fields e w imm) s) = long_address (pc22 s) w imm"
proof (cases "pc22 s")
  case True
  let ?h = "drop_bit 3 (w AND 0x1f0)"
  let ?x = "ucast ?h OR ucast (w AND 1) :: u32"
  have h: "unat ?h = 2 * (unat w div 16 mod 32)"
    using unat_field [of 3 4 5 w] unfolding field_masks by simp
  have b: "unat (w AND 1) = unat w mod 2" using field_low [of w 1] by (simp add: mask_eq_exp_minus_1)
  have small: "unat w div 16 mod 32 < 32" "unat w mod 2 < 2" by simp_all
  have d: "(ucast ?h :: u32) AND ucast (w AND 1) = 0"
    by (intro bit_word_eqI) (auto simp: bit_simps intro!: gr0I)
  have x: "unat ?x = 2 * (unat w div 16 mod 32) + unat w mod 2"
    by (subst unat_or_u32 [OF d]) (use small in \<open>simp_all add: h b del: drop_bit_and\<close>)
  have p: "unat (push_bit 16 ?x) = 65536 * unat ?x"
    unfolding unsigned_push_bit_eq by (simp only: push_bit_eq_mult)
      (use small in \<open>simp add: x take_bit_nat_eq_self del: drop_bit_and\<close>)
  have d2: "(ucast imm :: u32) AND push_bit 16 ?x = 0"
    by (intro bit_word_eqI) (auto simp: bit_simps dest: bit_imp_le_length)
  have "unat (ucast imm OR push_bit 16 ?x) = unat imm + 65536 * unat ?x"
    by (subst unat_or_u32 [OF d2])
      (use small unat_u16_less [of imm] in \<open>simp_all only: p x unat_ucast_u16, simp_all\<close>)
  then show ?thesis
    using True x by (simp add: long_target_def Let_def long_address_def del: drop_bit_and)
qed (simp add: long_target_def long_address_def)

lemma jmp_call_exec:
  assumes "ready2 s w imm" and "w AND 0xfe0e = (if calling then 0x940e else 0x940c)"
  shows "emulate1 des s = Inr (after s 2
    (if calling then memory (push_pc (pc s + 2) s) else memory s)
    (of_nat (long_address (pc22 s) w imm)))"
proof -
  let ?e = "(if calling then plain 0x940e 0xfe0e Instr_call else plain 0x940c 0xfe0e Instr_jmp)\<lparr>imm16 := True\<rparr>"
  have l: "lookup w = Some ?e"
    by (rule lookup_masked [OF assms(2)]) (simp_all add: avr_instr_def plain_def)
  have t: "long_target (decode_fields e w imm) s = of_nat (long_address (pc22 s) w imm)" for e
    unfolding long_target_address [of e w imm s, symmetric] by simp
  have b: "long_target idc (begun s n) = long_target idc s" for idc n
    by (simp add: long_target_def)
  show ?thesis
  proof (cases calling)
    case True
    then have "emulate1 des s = Inr (after s 2
       (flagged (decode_fields ?e w imm) (memory (push_pc (pc s + 2) (begun s 2))))
       (long_target (decode_fields ?e w imm) s - 2 + 2))"
      using emulate1_two [OF assms(1) l, of des "decode_fields ?e w imm"
        "(push_pc (pc s + 2) (begun s 2))\<lparr>pc := long_target (decode_fields ?e w imm) s - 2\<rparr>"]
      by (simp add: plain_def skips_def instr_call_def Let_def b)
    then show ?thesis using True by (simp add: t push_pc_begun)
  next
    case False
    then have "emulate1 des s = Inr (after s 2
       (flagged (decode_fields ?e w imm) (memory (begun s 2)))
       (long_target (decode_fields ?e w imm) s - 2 + 2))"
      using emulate1_two [OF assms(1) l, of des "decode_fields ?e w imm"
        "(begun s 2)\<lparr>pc := long_target (decode_fields ?e w imm) s - 2\<rparr>"]
      by (simp add: plain_def skips_def instr_jmp_def Let_def b)
    then show ?thesis using False by (simp add: t)
  qed
qed

lemma Z_even: "memword 30 s = Inr (le_word (memory s 30) (memory s 31))" by (rule memword_Z)

lemma ijmp_icall_eijmp_eicall_exec:
  assumes "ready s w" and "w AND 0xfeef = 0x9409"
  shows "let ext = bit w 4; z = unat (le_word (memory s 30) (memory s 31));
             target = z + (if ext then 65536 * unat (memory s EIND) else 0)
         in emulate1 des s =
              (if ext \<and> \<not> pc22 s then Inl (illins w (begun s 1))
               else Inr (after s 1 (if bit w 8 then memory (push_pc (pc s + 1) s) else memory s)
                      (of_nat target)))"
proof -
  have l: "lookup w = Some (plain 0x9409 0xfeef Instr_eicalljump)"
    by (rule lookup_masked [OF assms(2)]) (simp_all add: avr_instr_def plain_def)
  have m: "w AND 0x10 = 0 \<longleftrightarrow> \<not> bit w 4" "w AND 0x100 = 0 \<longleftrightarrow> \<not> bit w 8"
    using and_exp_eq_0_iff_not_bit [of w 4] and_exp_eq_0_iff_not_bit [of w 8] by simp_all
  have a: "ucast v OR push_bit 16 (ucast b) = (of_nat (unat v + 65536 * unat b) :: u32)" for v :: u16 and b :: u8
    unfolding unat_addr24 [symmetric] by simp
  have c: "ucast v = (of_nat (unat v) :: u32)" for v :: u16 by simp
  show ?thesis
    by (cases "bit w 4"; cases "bit w 8"; cases "pc22 s")
      (simp_all add: emulate1_one [OF assms(1) l] plain_def skips_def instr_eicalljump_def Let_def
        memword_Z m a push_pc_begun del: of_nat_add of_nat_mult)
qed

theorem ret_reti:
  assumes "ready s w" and "w = (if from_interrupt then 0x9518 else 0x9508)"
  shows "let (a, t) = pop_pc s
         in emulate1 des s = Inr (after s 1
              (if from_interrupt then (memory t)(SREG := memory t SREG OR SREG_I) else memory t) a)"
proof -
  let ?e = "if from_interrupt then plain 0x9518 0xffff Instr_reti else plain 0x9508 0xffff Instr_ret"
  have l: "lookup w = Some ?e" unfolding assms(2)
    by (rule lookup_row) (simp_all add: avr_instr_def plain_def matches_def)
  have p: "popbyte (begun s n) = (fst (popbyte s), begun (snd (popbyte s)) n)" for s n
    by (simp add: popbyte_def Let_def setsp_eq begun_def mem_upd_def getsp_eq)
  then have "pop_pc (begun s n) = (fst (pop_pc s), begun (snd (pop_pc s)) n)" for n
    by (simp add: pop_pc_def Let_def split_beta)
  then show ?thesis
    by (cases from_interrupt; cases "pop_pc s")
      (simp_all add: emulate1_one [OF assms(1) l] plain_def skips_def instr_ret_def instr_reti_def Let_def
        instr_ret_common_def)
qed

section \<open>A call and its return\<close>

lemma getsp_frame: "memory t = memory s \<Longrightarrow> getsp t = getsp s"
  by (simp add: getsp_def)

lemma stack_holds_frame:
  assumes "stack_holds t bs" "getsp u = getsp t"
    and "\<And>i. unat (getsp t) < i \<Longrightarrow> i \<le> unat (getsp t) + length bs \<Longrightarrow> memory u i = memory t i"
  shows "stack_holds u bs"
proof -
  have "map (\<lambda>i. memory u (unat (getsp t) + 1 + i)) [0..<length bs] =
      map (\<lambda>i. memory t (unat (getsp t) + 1 + i)) [0..<length bs]"
    by (rule map_cong) (auto intro!: assms(3))
  with assms(1,2) show ?thesis by (simp add: stack_holds_def)
qed

lemma call_pushes:
  assumes "ready s w" "emulate1 des s = Inr t"
    and "w AND 0xfe0e = 0x940e \<and> ready2 s w imm \<and> n = 2 \<or> w AND 0xf000 = 0xd000 \<and> n = 1 \<or>
         w AND 0xffef = 0x9509 \<and> n = 1"
  shows "memory t = memory (push_pc (pc s + n) s)"
  using assms(3)
proof (elim disjE conjE)
  assume "w AND 0xfe0e = 0x940e" "ready2 s w imm" "n = 2"
  then show ?thesis using jmp_call_exec [of s w imm True des] assms(2) by (auto simp: after_def)
next
  assume "w AND 0xf000 = 0xd000" "n = 1"
  then show ?thesis using rjmp_rcall_exec [of s w True des] assms(1,2) by (auto simp: after_def)
next
  assume *: "w AND 0xffef = 0x9509" "n = 1"
  then have "w AND 0xfeef = 0x9409" "bit w 8"
    using masked_sub [OF *(1), of "0xfeef"] masked_sub [OF *(1), of "0x100"]
      and_exp_eq_0_iff_not_bit [of w 8] by simp_all
  then show ?thesis
    using ijmp_icall_eijmp_eicall_exec [OF assms(1), of des] assms(2) *
    by (auto simp: after_def Let_def split: if_splits)
qed


section \<open>Skips\<close>

definition two_words :: "u16 \<Rightarrow> bool" where
  "two_words w \<longleftrightarrow> w AND 0xfc0f = 0x9000 \<or> w AND 0xfe0c = 0x940c"

lemma matches_unique: "e \<in> set avr_instr \<Longrightarrow> f \<in> set avr_instr \<Longrightarrow> matches w e \<Longrightarrow> matches w f \<Longrightarrow> e = f"
  using lookup_row [of e w] lookup_row [of f w] by simp

lemma split_bit_mask: "w AND m = p \<Longrightarrow> w AND (m OR b) = p OR (w AND b)" for w :: u16
  by (simp add: bit.conj_disj_distrib)

lemma two_words_row:
  assumes "two_words w"
  shows "\<exists>e. lookup w = Some e \<and> imm16 e"
proof -
  have half: "w AND b = 0 \<or> w AND b = b" if "b = 2 ^ k" "k < 16" for b k
  proof (cases "bit w k")
    case True
    have "w AND push_bit k 1 = push_bit k 1"
      using True that(2) by (intro bit_word_eqI) (auto simp: bit_simps bit_1_iff)
    then show ?thesis using that by simp
  qed (use that and_exp_eq_0_iff_not_bit [of w k] in simp)
  have 1: "w AND 0x200 = 0 \<or> w AND 0x200 = 0x200" and 2: "w AND 2 = 0 \<or> w AND 2 = 2"
    using half [of "0x200" 9] half [of 2 1] by simp_all
  from assms show ?thesis unfolding two_words_def
  proof
    assume "w AND 0xfc0f = 0x9000"
    then have "w AND 0xfe0f = 0x9000 OR (w AND 0x200)"
      using split_bit_mask [of w "0xfc0f" "0x9000" "0x200"] by simp
    then have "w AND 0xfe0f = 0x9000 \<or> w AND 0xfe0f = 0x9200" using 1 by auto
    then show ?thesis
    proof
      assume *: "w AND 0xfe0f = 0x9000"
      have "lookup w = Some ((plain 0x9000 0xfe0f Instr_lds)\<lparr>ddddd84 := True, imm16 := True\<rparr>)"
        by (rule lookup_masked [OF *]) (simp_all add: avr_instr_def plain_def)
      then show ?thesis by simp
    next
      assume *: "w AND 0xfe0f = 0x9200"
      have "lookup w = Some ((plain 0x9200 0xfe0f Instr_sts)\<lparr>ddddd84 := True, imm16 := True\<rparr>)"
        by (rule lookup_masked [OF *]) (simp_all add: avr_instr_def plain_def)
      then show ?thesis by simp
    qed
  next
    assume "w AND 0xfe0c = 0x940c"
    then have "w AND 0xfe0e = 0x940c OR (w AND 2)"
      using split_bit_mask [of w "0xfe0c" "0x940c" 2] by simp
    then have "w AND 0xfe0e = 0x940c \<or> w AND 0xfe0e = 0x940e" using 2 by auto
    then show ?thesis
    proof
      assume *: "w AND 0xfe0e = 0x940c"
      have "lookup w = Some ((plain 0x940c 0xfe0e Instr_jmp)\<lparr>imm16 := True\<rparr>)"
        by (rule lookup_masked [OF *]) (simp_all add: avr_instr_def plain_def)
      then show ?thesis by simp
    next
      assume *: "w AND 0xfe0e = 0x940e"
      have "lookup w = Some ((plain 0x940e 0xfe0e Instr_call)\<lparr>imm16 := True\<rparr>)"
        by (rule lookup_masked [OF *]) (simp_all add: avr_instr_def plain_def)
      then show ?thesis by simp
    qed
  qed
qed

lemma imm16_rows:
  assumes "e \<in> set avr_instr" "imm16 e"
  shows "imask e = 0xfe0f \<and> (pattern e = 0x9000 \<or> pattern e = 0x9200) \<or>
         imask e = 0xfe0e \<and> (pattern e = 0x940c \<or> pattern e = 0x940e)"
proof -
  have "list_all (\<lambda>e. imm16 e \<longrightarrow>
     imask e = 0xfe0f \<and> (pattern e = 0x9000 \<or> pattern e = 0x9200) \<or>
     imask e = 0xfe0e \<and> (pattern e = 0x940c \<or> pattern e = 0x940e)) avr_instr"
    by (simp add: avr_instr_def plain_def)
  with assms show ?thesis by (auto simp: list_all_iff)
qed

lemma lookup_two_words: "lookup w = Some e \<Longrightarrow> imm16 e \<longleftrightarrow> two_words w"
proof
  assume l: "lookup w = Some e" and "imm16 e"
  then have m: "e \<in> set avr_instr" "w AND imask e = pattern e"
    using lookup_Some [OF l] by (auto simp: matches_def)
  from imm16_rows [OF m(1) \<open>imm16 e\<close>] show "two_words w"
  proof (elim disjE conjE)
    assume *: "imask e = 0xfe0f" "pattern e = 0x9000"
    show ?thesis using masked_sub [OF m(2) [unfolded *], of "0xfc0f"] by (simp add: two_words_def)
  next
    assume *: "imask e = 0xfe0f" "pattern e = 0x9200"
    show ?thesis using masked_sub [OF m(2) [unfolded *], of "0xfc0f"] by (simp add: two_words_def)
  next
    assume *: "imask e = 0xfe0e" "pattern e = 0x940c"
    show ?thesis using masked_sub [OF m(2) [unfolded *], of "0xfe0c"] by (simp add: two_words_def)
  next
    assume *: "imask e = 0xfe0e" "pattern e = 0x940e"
    show ?thesis using masked_sub [OF m(2) [unfolded *], of "0xfe0c"] by (simp add: two_words_def)
  qed
next
  assume l: "lookup w = Some e" and "two_words w"
  obtain f where "lookup w = Some f" "imm16 f" using two_words_row [OF \<open>two_words w\<close>] by blast
  with l show "imm16 e" by simp
qed

lemma skip_pass:
  assumes "ready s w" "lookup w = Some e" "\<not> imm16 e"
    and h: "call_instr des (code e) (decode_fields e w 0) (begun s 1) =
      Inr (decode_fields e w 0, if c then (begun s 1)\<lparr>skip_next_instruction := True\<rparr> else begun s 1)"
    and w2: "w2 = flash s (unat (pc s + 1))" "lookup w2 \<noteq> None"
    and n: "n = (if two_words w2 then 2 else 1)" "unat (pc s) + n < FLASH_SIZE"
  shows "emulate1 des s = Inr (if c then skipped (after s 1 (memory s) (pc s + 1)) n
    else after s 1 (memory s) (pc s + 1))"
proof (cases c)
  case True
  obtain f where f: "lookup w2 = Some f" using w2(2) by auto
  have n': "n = (if imm16 f then 2 else 1)" using lookup_two_words [OF f] n(1) by simp
  have rom: "unat (pc s + 1 + of_nat i) < FLASH_SIZE" if "i < n" for i
  proof -
    have "unat (pc s + 1 + of_nat i) = (unat (pc s) + 1 + i) mod 4294967296"
      by (simp add: unat_word_ariths unat_of_nat mod_simps)
    also have "\<dots> = unat (pc s) + 1 + i"
      using that n(2) by simp
    finally have "unat (pc s + 1 + of_nat i) = unat (pc s) + 1 + i" .
    then show ?thesis using that n(2) by simp
  qed
  show ?thesis
    using exec_skip [OF assms(1-3) h _ f [unfolded w2(1)]] rom n' True
    by (simp add: begun_def)
next
  case False
  then show ?thesis using exec_one [OF assms(1-3) h] assms(1) by (simp add: ready_def)
qed

text \<open>
C9: CPSE, SBRC, SBRS, SBIC and SBIS skip the following instruction exactly when their condition
holds, by one word or by two according to the size of that instruction, in the same call of
emulate1.
\<close>

theorem cpse_sbrc_sbrs_sbic_sbis:
  assumes "ready s w"
    and "w AND 0xfc00 = 0x1000 \<and> c = (memory s (op_d5 w) = memory s (op_r5 w)) \<or>
         w AND 0xfe08 = 0xfc00 \<and> c = (\<not> bit (memory s (op_d5 w)) (op_bit w)) \<or>
         w AND 0xfe08 = 0xfe00 \<and> c = bit (memory s (op_d5 w)) (op_bit w) \<or>
         w AND 0xff00 = 0x9900 \<and> c = (\<not> bit (memory s (IO_BASE + op_A5 w)) (op_bit w)) \<or>
         w AND 0xff00 = 0x9b00 \<and> c = bit (memory s (IO_BASE + op_A5 w)) (op_bit w)"
    and "w2 = flash s (unat (pc s + 1))" "lookup w2 \<noteq> None"
    and "n = (if two_words w2 then 2 else 1)" "unat (pc s) + n < FLASH_SIZE"
  shows "emulate1 des s = Inr (if c then skipped (after s 1 (memory s) (pc s + 1)) n
    else after s 1 (memory s) (pc s + 1))"
proof -
  have A5: "unat (ucast (drop_bit 3 (w AND 0xf8)) :: u8) = op_A5 w"
    using op_less(8) [of w] unfolding unat_u8_of_u16 fields16 op_A5_def by simp
  note run = plain_def Let_def instr_cpse_def instr_sbrcs_def instr_sbics_def decode_d5 decode_r5
    decode_bit mask_of_bit A5
  from assms(2) show ?thesis
  proof (elim disjE conjE)
    assume *: "w AND 0xfc00 = 0x1000" and c: "c = (memory s (op_d5 w) = memory s (op_r5 w))"
    have l: "lookup w = Some ((plain 0x1000 0xfc00 Instr_cpse)\<lparr>ddddd84 := True, rrrrr9_30 := True\<rparr>)"
      by (rule lookup_masked [OF *]) (simp_all add: avr_instr_def plain_def)
    show ?thesis
      by (rule skip_pass [OF assms(1) l _ _ assms(3-6)]) (simp_all add: run c)
  next
    assume *: "w AND 0xfe08 = 0xfc00" and c: "c = (\<not> bit (memory s (op_d5 w)) (op_bit w))"
    have l: "lookup w = Some ((plain 0xfc00 0xfc08 Instr_sbrcs)\<lparr>ddddd84 := True, rrr20 := True\<rparr>)"
      by (rule lookup_masked [OF *]) (simp_all add: avr_instr_def plain_def)
    have m: "w AND 0x200 = 0" using masked_sub [OF *, of "0x200"] by simp
    show ?thesis
      by (rule skip_pass [OF assms(1) l _ _ assms(3-6)]) (simp_all add: run c m)
  next
    assume *: "w AND 0xfe08 = 0xfe00" and c: "c = bit (memory s (op_d5 w)) (op_bit w)"
    have l: "lookup w = Some ((plain 0xfc00 0xfc08 Instr_sbrcs)\<lparr>ddddd84 := True, rrr20 := True\<rparr>)"
      by (rule lookup_masked [OF *]) (simp_all add: avr_instr_def plain_def)
    have m: "w AND 0x200 = 0x200" using masked_sub [OF *, of "0x200"] by simp
    show ?thesis
      by (rule skip_pass [OF assms(1) l _ _ assms(3-6)]) (simp_all add: run c m)
  next
    assume *: "w AND 0xff00 = 0x9900" and c: "c = (\<not> bit (memory s (IO_BASE + op_A5 w)) (op_bit w))"
    have l: "lookup w = Some ((plain 0x9900 0xfd00 Instr_sbics)\<lparr>rrr20 := True\<rparr>)"
      by (rule lookup_masked [OF *]) (simp_all add: avr_instr_def plain_def)
    have m: "w AND 0x200 = 0" using masked_sub [OF *, of "0x200"] by simp
    show ?thesis
      by (rule skip_pass [OF assms(1) l _ _ assms(3-6)]) (simp_all add: run c m del: drop_bit_and)
  next
    assume *: "w AND 0xff00 = 0x9b00" and c: "c = bit (memory s (IO_BASE + op_A5 w)) (op_bit w)"
    have l: "lookup w = Some ((plain 0x9900 0xfd00 Instr_sbics)\<lparr>rrr20 := True\<rparr>)"
      by (rule lookup_masked [OF *]) (simp_all add: avr_instr_def plain_def)
    have m: "w AND 0x200 = 0x200" using masked_sub [OF *, of "0x200"] by simp
    show ?thesis
      by (rule skip_pass [OF assms(1) l _ _ assms(3-6)]) (simp_all add: run c m del: drop_bit_and)
  qed
qed

section \<open>The stack as a whole\<close>

lemma getsp_pushes: "getsp (fold pushbyte bs s) = getsp s - of_nat (length bs)"
  by (induction bs arbitrary: s) (simp_all add: getsp_pushbyte)

lemma getsp_pops: "getsp (snd (stack.pops n s)) = getsp s + of_nat n"
  by (induction n arbitrary: s) (simp_all add: Let_def split_beta getsp_popbyte)

lemma memory_pushes:
  "0x5E + length bs \<le> unat (getsp s) \<Longrightarrow> unat (getsp s) < i \<Longrightarrow> memory (fold pushbyte bs s) i = memory s i"
proof (induction bs arbitrary: s)
  case (Cons b bs)
  have "unat (getsp (pushbyte b s)) = unat (getsp s) - 1"
    using Cons.prems by (simp add: getsp_pushbyte unat_sp_minus)
  then show ?case
    using Cons.IH [of "pushbyte b s"] Cons.prems by (simp add: memory_pushbyte)
qed simp

lemma memory_pops: "0x5F \<le> i \<Longrightarrow> memory (snd (stack.pops n s)) i = memory s i"
  by (induction n arbitrary: s) (simp_all add: Let_def split_beta memory_popbyte)

text \<open>
C8: Popping as many bytes as were pushed returns them in reverse order and restores the stack
pointer and everything above it, provided the stack stays above its own pointer register.
\<close>

theorem stack_lifo:
  assumes "0x5E + length bs \<le> unat (getsp s)"
  shows "let t = fold pushbyte bs s; r = stack.pops (length bs) t
         in getsp t = getsp s - of_nat (length bs) \<and> fst r = rev bs \<and> getsp (snd r) = getsp s \<and>
            (\<forall>i > unat (getsp s). memory (snd r) i = memory s i)"
proof -
  have "stack_room s (length bs)" using assms by (simp add: stack_room_def)
  moreover have "stack_holds s []"
    using assms unat_u16_less [of "getsp s"] by (simp add: stack_holds_def)
  ultimately have "fst (stack.pops (length bs) (fold pushbyte bs s)) = rev bs"
    by (rule stack.last_in_first_out)
  then show ?thesis
    using assms by (simp add: Let_def getsp_pushes getsp_pops memory_pops memory_pushes)
qed

theorem pop_after_push_at_zero:
  assumes "getsp s = 0"
  shows "getsp (pushbyte b s) = 0xffff \<and> getsp (snd (popbyte (pushbyte b s))) = 0 \<and>
    fst (popbyte (pushbyte b s)) = memory s 0x10000"
proof -
  have "unat (- 1 :: u16) = 65535" by (simp add: unsigned_minus_1_eq_mask mask_eq_exp_minus_1)
  then show ?thesis
    using assms by (simp add: popbyte_def pushbyte_def Let_def getsp_setsp setsp_eq getsp_eq)
qed

section \<open>Jumps and calls\<close>

theorem rjmp_rcall:
  assumes "ready s w" and "w AND 0xf000 = (if calling then 0xd000 else 0xc000)"
  shows "emulate1 des s = Inr (after s 1
    (if calling then memory (push_pc (pc s + 1) s) else memory s)
    (pc s + word_of_int (jump_offset w) + 1))"
  by (rule rjmp_rcall_exec [OF assms])

text \<open>
C35: JMP and CALL continue at the absolute address of their two words, of 22 bits on a machine
with a 22-bit program counter, CALL after pushing the address of the next instruction.
\<close>

theorem jmp_call:
  assumes "ready2 s w imm" and "w AND 0xfe0e = (if calling then 0x940e else 0x940c)"
  shows "emulate1 des s = Inr (after s 2
    (if calling then memory (push_pc (pc s + 2) s) else memory s)
    (of_nat (long_address (pc22 s) w imm)))"
  by (rule jmp_call_exec [OF assms])

text \<open>
C36: The indirect jumps and calls continue at Z, extended by EIND for the E forms, which are
reported as illegal on a machine without a 22-bit program counter.
\<close>

theorem ijmp_icall_eijmp_eicall:
  assumes "ready s w" and "w AND 0xfeef = 0x9409"
  shows "let ext = bit w 4; z = unat (le_word (memory s 30) (memory s 31));
             target = z + (if ext then 65536 * unat (memory s EIND) else 0)
         in emulate1 des s =
              (if ext \<and> \<not> pc22 s then Inl (illins w (begun s 1))
               else Inr (after s 1 (if bit w 8 then memory (push_pc (pc s + 1) s) else memory s)
                      (of_nat target)))"
  by (rule ijmp_icall_eijmp_eicall_exec [OF assms])

section \<open>Concrete instances\<close>

lemma stack_lifo_witness:
  "fst (stack.pops (length [1, 2, 3 :: u8]) (fold pushbyte [1, 2, 3] (boot (\<lambda>_. 0) ((\<lambda>_. 0)(SP_HI := 2))))) = [3, 2, 1]"
  (is "fst (stack.pops (length ?bs) (fold pushbyte ?bs ?s)) = _")
proof -
  have "0x5E + length ?bs \<le> unat (getsp ?s)" by (simp add: boot_def getsp_def)
  then have "fst (stack.pops (length ?bs) (fold pushbyte ?bs ?s)) = rev ?bs"
    using stack_lifo by (simp only: Let_def)
  then show ?thesis by (rule trans) simp
qed

lemma brbs_brbc_witness:
  "pc (projr (emulate1 des_xor (boot (\<lambda>_. 0xf019) ((\<lambda>_. 0)(SREG := 2))))) = 4"
  using brbs_brbc [of "boot (\<lambda>_. 0xf019) ((\<lambda>_. 0)(SREG := 2))" "0xf019" True des_xor]
  by (simp add: at_boot op_bit_def branch_offset_def)

lemma rjmp_rcall_witness:
  "pc (projr (emulate1 des_xor (boot (\<lambda>_. 0xcfff) (\<lambda>_. 0)))) = 0"
  using rjmp_rcall [of "boot (\<lambda>_. 0xcfff) (\<lambda>_. 0)" "0xcfff" False des_xor]
  by (simp add: at_boot jump_offset_def)

lemma jmp_call_witness:
  "pc (projr (emulate1 des_xor (boot ((\<lambda>_. 0x940c)(1 := 0x1234)) (\<lambda>_. 0)))) = 0x1234"
  using jmp_call [of "boot ((\<lambda>_. 0x940c)(1 := 0x1234)) (\<lambda>_. 0)" "0x940c" "0x1234" False des_xor]
  by (simp add: at_boot long_address_def)

lemma ijmp_icall_eijmp_eicall_witness:
  "emulate1 des_xor (boot (\<lambda>_. 0x9419) (\<lambda>_. 0)) = Inl (Illegal_instr 0x9419)"
  using ijmp_icall_eijmp_eicall [of "boot (\<lambda>_. 0x9419) (\<lambda>_. 0)" "0x9419" des_xor]
  by (simp add: at_boot illins_def report_oob_def begun_def)


lemma cpse_sbrc_sbrs_sbic_sbis_witness:
  "pc (projr (emulate1 des_xor (boot ((\<lambda>_. 0)(0 := 0x1001, 1 := 0x940c)) (\<lambda>_. 0)))) = 3"
proof -
  have "lookup 0x940c = Some ((plain 0x940c 0xfe0e Instr_jmp)\<lparr>imm16 := True\<rparr>)"
    by (rule lookup_row) (simp_all add: avr_instr_def plain_def matches_def)
  then show ?thesis
  using cpse_sbrc_sbrs_sbic_sbis [of "boot ((\<lambda>_. 0)(0 := 0x1001, 1 := 0x940c)) (\<lambda>_. 0)" "0x1001" True "0x940c" 2 des_xor]
  by (simp add: at_boot two_words_def skipped_def)
qed

end
