(* ===== verification/Mem_Spec.thy ===== *)
theory Mem_Spec
  imports Flow_Spec
begin

text \<open>
  What the loads, stores, I/O, stack and program-memory instructions do when \<open>emulate1\<close> runs
  them: the effective address as arithmetic on the pointer, the RAMP register and the width that
  the machine model allows, and the pointer after an increment or a decrement.
\<close>

unbundle bit_operations_syntax

section \<open>Effective addresses\<close>

definition row_of :: "u16 \<Rightarrow> u16 \<Rightarrow> instr_decode option" where
  "row_of m p = find (\<lambda>e. imask e AND m = imask e \<and> p AND imask e = pattern e) avr_instr"

lemma row_of_lookup: "row_of m p = Some e \<Longrightarrow> w AND m = p \<Longrightarrow> lookup w = Some e"
  by (auto simp: row_of_def find_Some_iff intro!: lookup_masked [of w m p])

definition data_width :: "machine \<Rightarrow> int" where
  "data_width s = (if pc_mem_max_256b s then 0x100 else if pc_mem_max_64k s then 0x10000 else 0x1000000)"

definition pointer :: "machine \<Rightarrow> nat \<Rightarrow> nat \<Rightarrow> int" where
  "pointer s p r = uint (le_word (memory s p) (memory s (Suc p))) +
     (if pc_mem_max_64k s then 0 else 65536 * uint (memory s r))"

definition data_addr :: "machine \<Rightarrow> nat \<Rightarrow> nat \<Rightarrow> int \<Rightarrow> nat" where
  "data_addr s p r offset = nat ((pointer s p r + offset) mod data_width s)"

definition set_pointer :: "machine \<Rightarrow> nat \<Rightarrow> nat \<Rightarrow> nat \<Rightarrow> (nat \<Rightarrow> u8) \<Rightarrow> nat \<Rightarrow> u8" where
  "set_pointer s p r v m =
     (if pc_mem_max_256b s then m(p := of_nat v)
      else if pc_mem_max_64k s then set_pair m p (of_nat v)
      else (set_pair m p (of_nat v))(r := of_nat (v div 65536)))"

lemma uint_and_masks:
  fixes a :: u32
  shows "uint (a AND 0xffffff) = uint a mod 0x1000000" "uint (a AND 0xffff) = uint a mod 0x10000"
    "uint (a AND 0xff) = uint a mod 0x100"
proof -
  have "int (unat (a AND 0xffffff)) = int (unat a) mod int 0x1000000"
    unfolding unat_and_ffffff by (rule zmod_int)
  then show "uint (a AND 0xffffff) = uint a mod 0x1000000" by (simp only: uint_nat of_nat_numeral)
  have "int (unat (a AND 0xffff)) = int (unat a) mod int 0x10000"
    unfolding unat_and_ffff by (rule zmod_int)
  then show "uint (a AND 0xffff) = uint a mod 0x10000" by (simp only: uint_nat of_nat_numeral)
  have "int (unat (a AND 0xff)) = int (unat a) mod int 0x100"
    unfolding unat_and_ff by (rule zmod_int)
  then show "uint (a AND 0xff) = uint a mod 0x100" by (simp only: uint_nat of_nat_numeral)
qed

lemma ldst_addr_spec:
  assumes "\<not> (predec \<and> postinc)"
  shows "unat (ldst_addr rp ext predec postinc k (le_word (memory s p) (memory s (Suc p))) s) =
    data_addr s p (unat ext) (if predec then - 1 else if postinc then 0 else uint k)"
proof -
  let ?w = "le_word (memory s p) (memory s (Suc p))"
  let ?b = "if pc_mem_max_64k s then ucast ?w
     else ucast ?w OR push_bit 16 (ucast (memory s (unat ext))) :: u32"
  let ?c = "if predec then (?b - 1) AND 0xffffff
     else if postinc then ?b else (?b + ucast k) AND 0xffffff"
  let ?off = "if predec then - 1 else if postinc then 0 else uint k"
  have b24: "uint (ucast ?w OR push_bit 16 (ucast (memory s (unat ext))) :: u32) =
      uint ?w + 65536 * uint (memory s (unat ext))"
  proof -
    have "int (unat (ucast ?w OR push_bit 16 (ucast (memory s (unat ext))) :: u32)) =
      int (unat ?w) + 65536 * int (unat (memory s (unat ext)))"
      unfolding unat_addr24 by simp
    then show ?thesis by (simp only: uint_nat)
  qed
  have b16: "uint (ucast ?w :: u32) = uint ?w" by (simp only: uint_nat unat_ucast_u16)
  have b: "uint ?b = pointer s p (unat ext)"
    using b24 b16 by (simp add: pointer_def)
  have k: "uint (ucast k :: u32) = uint k" by (simp only: uint_nat unat_ucast_u8)
  have d: "data_width s dvd 0x1000000" by (simp add: data_width_def)
  have c: "uint ?c mod data_width s = (pointer s p (unat ext) + ?off) mod data_width s"
    using d by (auto simp: uint_and_masks uint_word_ariths b [symmetric] k mod_mod_cancel mod_simps)
  have small: "uint ?b < 0x1000000"
  proof -
    have "uint ?w < 65536" "uint (memory s (unat ext)) < 256"
      using unat_u16_less [of ?w] unat_u8_less [of "memory s (unat ext)"] unfolding uint_nat by linarith+
    then show ?thesis unfolding b pointer_def by simp
  qed
  have "uint (ldst_addr rp ext predec postinc k ?w s) = uint ?c mod data_width s"
    using assms small by (auto simp: ldst_addr_def Let_def data_width_def uint_and_masks)
  then have "uint (ldst_addr rp ext predec postinc k ?w s) = (pointer s p (unat ext) + ?off) mod data_width s"
    using c by simp
  then show ?thesis unfolding data_addr_def by (metis unat_eq_nat_uint)
qed


lemma ldst_writeback_spec:
  assumes "even rp" "unat addr < MEM_SIZE" "v = (if postinc then unat addr + 1 else unat addr)"
  shows "ldst_writeback rp ext predec postinc addr t = Inr (t\<lparr>memory :=
    if postinc \<or> predec then set_pointer t (unat rp) (unat ext) v (memory t) else memory t\<rparr>)"
proof -
  let ?a = "if postinc then addr + 1 else addr"
  have v: "unat ?a = v" using assms(2,3) by (simp add: unat_word_ariths)
  have 8: "ucast (?a AND 0xff) = (of_nat v :: u8)"
    unfolding word_unat_eq_iff v [symmetric]
    by (simp only: unsigned_ucast_eq unat_and_ff unat_of_nat take_bit_eq_mod len_bit0 len_num1) simp
  have 16: "ucast (?a AND 0xffff) = (of_nat v :: u16)"
    unfolding word_unat_eq_iff v [symmetric]
    by (simp only: unsigned_ucast_eq unat_and_ffff unat_of_nat take_bit_eq_mod len_bit0 len_num1) simp
  have "unat (drop_bit 16 ?a) = v div 65536"
    by (simp only: unat_drop_bit_eq v) (simp add: drop_bit_eq_div)
  then have h: "ucast (drop_bit 16 ?a) = (of_nat (v div 65536) :: u8)"
    unfolding word_unat_eq_iff
    by (simp only: unsigned_ucast_eq unat_of_nat take_bit_eq_mod)
  show ?thesis
    unfolding ldst_writeback_def Let_def 8 16 h
    using assms(1) by (simp add: memwriteword_pair set_pointer_def set_pair_def mem_upd_def)
qed


definition ldst_memory :: "machine \<Rightarrow> nat \<Rightarrow> nat \<Rightarrow> nat \<Rightarrow> nat \<Rightarrow> bool \<Rightarrow> nat \<Rightarrow> nat \<Rightarrow> u8" where
  "ldst_memory s p r mode q store d =
     (let ea = data_addr s p r (if mode = 2 then - 1 else if mode = 1 then 0 else int q);
          m = (if store then (memory s)(ea := memory s d) else (memory s)(d := memory s ea))
      in if mode = 1 then set_pointer s p r (ea + 1) m
         else if mode = 2 then set_pointer s p r ea m else m)"

lemma set_pointer_frame:
  "pc_mem_max_64k t = pc_mem_max_64k s \<Longrightarrow> pc_mem_max_256b t = pc_mem_max_256b s \<Longrightarrow>
     set_pointer t p r v m = set_pointer s p r v m"
  by (simp add: set_pointer_def)

lemma ldst_common_spec:
  assumes "even rp"
  shows "instr_ldst_common rp ext mode k store idc s =
    (if (mode = 2 \<or> mode = 1) \<and> (ddddd idc = rp \<or> unat (ddddd idc) = unat rp + 1)
     then Inl (illins (instr idc) s)
     else Inr (idc, s\<lparr>memory := ldst_memory s (unat rp) (unat ext) (unat mode) (unat k) store (unat (ddddd idc))\<rparr>))"
proof (cases "(mode = 2 \<or> mode = 1) \<and> (ddddd idc = rp \<or> unat (ddddd idc) = unat rp + 1)")
  case False
  define w where "w = le_word (memory s (unat rp)) (memory s (Suc (unat rp)))"
  define a where "a = ldst_addr rp ext (mode = 2) (mode = 1) k w s"
  define ea where "ea = data_addr s (unat rp) (unat ext) (if mode = 2 then - 1 else if mode = 1 then 0 else int (unat k))"
  define d where "d = unat (ddddd idc)"
  define m where "m = (if store then (memory s)(ea := memory s d) else (memory s)(d := memory s ea))"
  have "(mode = 2 \<longrightarrow> mode \<noteq> 1)" by simp
  then have a: "unat a = ea"
    using ldst_addr_spec [of "mode = 2" "mode = 1" rp ext k s "unat rp"]
    unfolding a_def w_def ea_def uint_nat by blast
  have less: "unat a < MEM_SIZE" unfolding a_def by (rule ldst_addr_less)
  have access: "(if store then mem_put a (memory s d) s
      else bindR (mem_at a s) (\<lambda>v. Inr (mem_upd d v s))) = Inr (s\<lparr>memory := m\<rparr>)"
    using less by (simp add: mem_put_def mem_at_def a mem_upd_def m_def)
  have modes: "unat mode = 2 \<longleftrightarrow> mode = 2" "unat mode = 1 \<longleftrightarrow> mode = 1"
    unfolding word_unat_eq_iff by simp_all
  have wb: "ldst_writeback rp ext (mode = 2) (mode = 1) a (s\<lparr>memory := m\<rparr>) =
      Inr (s\<lparr>memory := if mode = 1 \<or> mode = 2
        then set_pointer s (unat rp) (unat ext) (if mode = 1 then ea + 1 else ea) m else m\<rparr>)"
    using ldst_writeback_spec [OF assms less refl, of ext "mode = 2" "mode = 1" "s\<lparr>memory := m\<rparr>"]
    by (simp add: a set_pointer_def)
  have "instr_ldst_common rp ext mode k store idc s = Inr (idc, s\<lparr>memory := if mode = 1 \<or> mode = 2
        then set_pointer s (unat rp) (unat ext) (if mode = 1 then ea + 1 else ea) m else m\<rparr>)"
    unfolding instr_ldst_common_def Let_def memword_pair [OF assms] bindR.simps
      w_def [symmetric] a_def [symmetric] d_def [symmetric] access wb
    using False [folded d_def] by simp
  moreover have "ldst_memory s (unat rp) (unat ext) (unat mode) (unat k) store d =
    (if mode = 1 \<or> mode = 2 then set_pointer s (unat rp) (unat ext) (if mode = 1 then ea + 1 else ea) m else m)"
    unfolding ldst_memory_def Let_def modes ea_def [symmetric] m_def [symmetric] by auto
  ultimately show ?thesis
    using False [folded d_def] unfolding d_def [symmetric] by simp
qed (simp add: instr_ldst_common_def Let_def)

definition op_q :: "u16 \<Rightarrow> nat" where
  "op_q w = unat w mod 8 + 8 * (unat w div 1024 mod 4) + 32 * (unat w div 8192 mod 2)"

lemma yz_displace_q:
  assumes "w AND 0x1000 = 0"
  shows "unat (yz_displace w) = op_q w"
proof -
  let ?x = "drop_bit 8 (w AND 0x2000)" and ?y = "drop_bit 7 (w AND 0xc00)" and ?z = "w AND 7"
  have masks: "push_bit 13 (mask 1) = (0x2000 :: u16)" "push_bit 10 (mask 2) = (0xc00 :: u16)"
    by (simp_all add: mask_eq_exp_minus_1)
  have x: "unat ?x = unat w div 8192 mod 2 * 32" and y: "unat ?y = unat w div 1024 mod 4 * 8"
    using unat_field [of 8 13 1 w] unat_field [of 7 10 2 w] unfolding masks by simp_all
  have sx: "?x = push_bit 5 (take_bit 1 (drop_bit 13 w))" and sy: "?y = push_bit 3 (take_bit 2 (drop_bit 10 w))"
    using field_shifted [of 8 13 w 1] field_shifted [of 7 10 w 2] unfolding masks by simp_all
  have z: "unat ?z = unat w mod 8" by (rule fields16)
  have z': "?z = take_bit 3 w" by (simp add: take_bit_eq_mask mask_eq_exp_minus_1)
  have small: "unat w div 8192 mod 2 < 2" "unat w div 1024 mod 4 < 4" "unat w mod 8 < 8" by simp_all
  have "?y AND ?z = 0" unfolding sy z' by (intro bit_word_eqI) (auto simp: bit_simps)
  moreover have "unat ?y + unat ?z < 65536" using y z small by linarith
  ultimately have yz: "unat (?y OR ?z) = unat w div 1024 mod 4 * 8 + unat w mod 8"
    by (simp only: unat_or_disjoint y z)
  have "?x AND (?y OR ?z) = 0" unfolding sx sy z' by (intro bit_word_eqI) (auto simp: bit_simps)
  moreover have "unat ?x + unat (?y OR ?z) < 65536" using x yz small by linarith
  ultimately have "unat (?x OR (?y OR ?z)) = unat ?x + unat (?y OR ?z)"
    by (rule unat_or_disjoint)
  then have "unat (?x OR (?y OR ?z)) = op_q w"
    using x yz unfolding op_q_def by linarith
  moreover have "op_q w < 256" using small unfolding op_q_def by linarith
  ultimately show ?thesis
    using assms by (simp add: yz_displace_def unat_u8_of_u16 del: drop_bit_and)
qed

lemma and_one_bit: "w AND 2 ^ n = (if bit w n then 2 ^ n else 0)" for w :: "'a::len word"
  by (intro bit_word_eqI) (auto simp: bit_simps)

lemma bit9_split:
  fixes w :: u16
  assumes "w AND m = p" "m AND 0x200 = 0"
  shows "bit w 9 \<and> w AND (m OR 0x200) = p OR 0x200 \<or> \<not> bit w 9 \<and> w AND (m OR 0x200) = p"
proof -
  have "w AND 0x200 = (if bit w 9 then 0x200 else 0)"
    using and_one_bit [of w 9] by simp
  then show ?thesis using assms(1) by (simp add: bit.conj_disj_distrib)
qed

lemma ldst_rows:
  "row_of 0xfe0f 0x900c = Some ((plain 0x900c 0xfe0e Instr_ldx)\<lparr>ddddd84 := True\<rparr>)"
  "row_of 0xfe0f 0x900d = Some ((plain 0x900c 0xfe0e Instr_ldx)\<lparr>ddddd84 := True\<rparr>)"
  "row_of 0xfe0f 0x900e = Some ((plain 0x900e 0xfe0f Instr_ldx)\<lparr>ddddd84 := True\<rparr>)"
  "row_of 0xfe0f 0x920c = Some ((plain 0x920c 0xfe0e Instr_stx)\<lparr>ddddd84 := True\<rparr>)"
  "row_of 0xfe0f 0x920d = Some ((plain 0x920c 0xfe0e Instr_stx)\<lparr>ddddd84 := True\<rparr>)"
  "row_of 0xfe0f 0x920e = Some ((plain 0x920e 0xfe0f Instr_stx)\<lparr>ddddd84 := True\<rparr>)"
  "row_of 0xfe0f 0x9001 = Some ((plain 0x9001 0xfe07 Instr_ldyz)\<lparr>ddddd84 := True\<rparr>)"
  "row_of 0xfe0f 0x9009 = Some ((plain 0x9001 0xfe07 Instr_ldyz)\<lparr>ddddd84 := True\<rparr>)"
  "row_of 0xfe0f 0x9002 = Some ((plain 0x9002 0xfe07 Instr_ldyz)\<lparr>ddddd84 := True\<rparr>)"
  "row_of 0xfe0f 0x900a = Some ((plain 0x9002 0xfe07 Instr_ldyz)\<lparr>ddddd84 := True\<rparr>)"
  "row_of 0xfe0f 0x9201 = Some ((plain 0x9201 0xfe07 Instr_styz)\<lparr>ddddd84 := True\<rparr>)"
  "row_of 0xfe0f 0x9209 = Some ((plain 0x9201 0xfe07 Instr_styz)\<lparr>ddddd84 := True\<rparr>)"
  "row_of 0xfe0f 0x9202 = Some ((plain 0x9202 0xfe07 Instr_styz)\<lparr>ddddd84 := True\<rparr>)"
  "row_of 0xfe0f 0x920a = Some ((plain 0x9202 0xfe07 Instr_styz)\<lparr>ddddd84 := True\<rparr>)"
  "row_of 0xd208 0x8000 = Some ((plain 0x8000 0xd200 Instr_ldyz)\<lparr>ddddd84 := True\<rparr>)"
  "row_of 0xd208 0x8008 = Some ((plain 0x8000 0xd200 Instr_ldyz)\<lparr>ddddd84 := True\<rparr>)"
  "row_of 0xd208 0x8200 = Some ((plain 0x8200 0xd200 Instr_styz)\<lparr>ddddd84 := True\<rparr>)"
  "row_of 0xd208 0x8208 = Some ((plain 0x8200 0xd200 Instr_styz)\<lparr>ddddd84 := True\<rparr>)"
  by (simp_all add: row_of_def avr_instr_def plain_def)

text \<open>Every form of a load or store runs \<open>instr_ldst_common\<close> with these operands.\<close>

definition runs_ldst :: "u16 \<Rightarrow> u8 \<Rightarrow> u8 \<Rightarrow> u8 \<Rightarrow> u8 \<Rightarrow> bool" where
  "runs_ldst w rp r mode k \<longleftrightarrow> (\<exists>e. lookup w = Some e \<and> \<not> imm16 e \<and> \<not> skips (code e) \<and>
     unat (ddddd (decode_fields e w 0)) = op_d5 w \<and>
     (\<forall>des s. call_instr des (code e) (decode_fields e w 0) s =
        instr_ldst_common rp r mode k (bit w 9) (decode_fields e w 0) s))"

lemma runs_ldstI:
  assumes "w AND m = p" "row_of m p = Some e" "\<not> imm16 e" "\<not> skips (code e)"
    and "ddddd84 e" "\<not> dddd74 e" "\<not> ddd64 e"
    and "\<And>des idc s. instr idc = w \<Longrightarrow>
      call_instr des (code e) idc s = instr_ldst_common rp r mode k (bit w 9) idc s"
  shows "runs_ldst w rp r mode k"
  unfolding runs_ldst_def using assms(3-8) row_of_lookup [OF assms(2,1)]
  by (intro exI [of _ e]) (auto simp: decode_d5)

lemma runs_ldst_pair:
  assumes "w AND m = p" "m AND 0x200 = 0"
    and "row_of (m OR 0x200) p = Some e" "row_of (m OR 0x200) (p OR 0x200) = Some f"
    and "\<not> imm16 e \<and> \<not> skips (code e) \<and> ddddd84 e \<and> \<not> dddd74 e \<and> \<not> ddd64 e"
    and "\<not> imm16 f \<and> \<not> skips (code f) \<and> ddddd84 f \<and> \<not> dddd74 f \<and> \<not> ddd64 f"
    and "\<And>des idc s. instr idc = w \<Longrightarrow>
      call_instr des (code e) idc s = instr_ldst_common rp r mode k False idc s"
    and "\<And>des idc s. instr idc = w \<Longrightarrow>
      call_instr des (code f) idc s = instr_ldst_common rp r mode k True idc s"
  shows "runs_ldst w rp r mode k"
proof -
  consider "bit w 9" "w AND (m OR 0x200) = p OR 0x200" | "\<not> bit w 9" "w AND (m OR 0x200) = p"
    using bit9_split [OF assms(1,2)] by blast
  then show ?thesis
  proof cases
    case 1
    then show ?thesis using assms(6,8) by (intro runs_ldstI [OF _ assms(4)]) simp_all
  next
    case 2
    then show ?thesis using assms(5,7) by (intro runs_ldstI [OF _ assms(3)]) simp_all
  qed
qed

lemma runs_ldst_X:
  assumes "w AND 0xfc0f = p" "p = 0x900c \<and> mode = 0 \<or> p = 0x900d \<and> mode = 1 \<or> p = 0x900e \<and> mode = 2"
  shows "runs_ldst w 26 0x59 mode 0"
proof -
  have "w AND 3 = p AND 3" by (rule masked_sub [OF assms(1)]) simp
  then have m: "ucast (w AND 3) = mode" using assms(2) by auto
  note run = plain_def skips_def instr_ldx_def instr_stx_def m
  from assms(2) show ?thesis
  proof (elim disjE)
    assume "p = 0x900c \<and> mode = 0"
    then show ?thesis
      by (intro runs_ldst_pair [OF assms(1)]) (simp_all add: ldst_rows, simp_all add: run)
  next
    assume "p = 0x900d \<and> mode = 1"
    then show ?thesis
      by (intro runs_ldst_pair [OF assms(1)]) (simp_all add: ldst_rows, simp_all add: run)
  next
    assume "p = 0x900e \<and> mode = 2"
    then show ?thesis
      by (intro runs_ldst_pair [OF assms(1)]) (simp_all add: ldst_rows, simp_all add: run)
  qed
qed

lemma runs_ldst_YZ:
  assumes "w AND 0xfc0f = p"
    and "p = 0x9009 \<and> mode = 1 \<and> rp = 28 \<and> r = 0x5A \<or> p = 0x900a \<and> mode = 2 \<and> rp = 28 \<and> r = 0x5A \<or>
         p = 0x9001 \<and> mode = 1 \<and> rp = 30 \<and> r = 0x5B \<or> p = 0x9002 \<and> mode = 2 \<and> rp = 30 \<and> r = 0x5B"
  shows "runs_ldst w rp r mode 0"
proof -
  have "w AND 3 = p AND 3" "w AND 8 = p AND 8" by (rule masked_sub [OF assms(1)], simp)+
  moreover have "w AND 0x1000 = p AND 0x1000" by (rule masked_sub [OF assms(1)]) simp
  ultimately have m: "yz_mode w = mode" "yz_displace w = 0" "w AND 8 = 0 \<longleftrightarrow> rp = 30"
    using assms(2) by (auto simp: yz_mode_def yz_displace_def)
  note run = plain_def skips_def instr_ldyz_def instr_styz_def m
  from assms(2) show ?thesis
  proof (elim disjE)
    assume "p = 0x9009 \<and> mode = 1 \<and> rp = 28 \<and> r = 0x5A"
    then show ?thesis
      by (intro runs_ldst_pair [OF assms(1)]) (simp_all add: ldst_rows, simp_all add: run)
  next
    assume "p = 0x900a \<and> mode = 2 \<and> rp = 28 \<and> r = 0x5A"
    then show ?thesis
      by (intro runs_ldst_pair [OF assms(1)]) (simp_all add: ldst_rows, simp_all add: run)
  next
    assume "p = 0x9001 \<and> mode = 1 \<and> rp = 30 \<and> r = 0x5B"
    then show ?thesis
      by (intro runs_ldst_pair [OF assms(1)]) (simp_all add: ldst_rows, simp_all add: run)
  next
    assume "p = 0x9002 \<and> mode = 2 \<and> rp = 30 \<and> r = 0x5B"
    then show ?thesis
      by (intro runs_ldst_pair [OF assms(1)]) (simp_all add: ldst_rows, simp_all add: run)
  qed
qed

lemma runs_ldst_displace:
  assumes "w AND 0xd008 = p" "p = 0x8008 \<and> rp = 28 \<and> r = 0x5A \<or> p = 0x8000 \<and> rp = 30 \<and> r = 0x5B"
  shows "runs_ldst w rp r 0 (yz_displace w)"
proof -
  have "w AND 8 = p AND 8" "w AND 0x1000 = p AND 0x1000" by (rule masked_sub [OF assms(1)], simp)+
  then have m: "yz_mode w = 0" "w AND 8 = 0 \<longleftrightarrow> rp = 30"
    using assms(2) by (auto simp: yz_mode_def)
  note run = plain_def skips_def instr_ldyz_def instr_styz_def m
  from assms(2) show ?thesis
  proof
    assume "p = 0x8008 \<and> rp = 28 \<and> r = 0x5A"
    then show ?thesis
      by (intro runs_ldst_pair [OF assms(1)]) (simp_all add: ldst_rows, simp_all add: run)
  next
    assume "p = 0x8000 \<and> rp = 30 \<and> r = 0x5B"
    then show ?thesis
      by (intro runs_ldst_pair [OF assms(1)]) (simp_all add: ldst_rows, simp_all add: run)
  qed
qed

section \<open>Loads and stores\<close>

lemma ldst_memory_begun: "ldst_memory (begun s n) p r mode q store d = ldst_memory s p r mode q store d"
  by (simp add: ldst_memory_def data_addr_def pointer_def data_width_def set_pointer_def Let_def)

lemma ldst_exec:
  assumes "ready s w" "runs_ldst w rp r mode k" "even rp"
  shows "emulate1 des s =
    (if (mode = 2 \<or> mode = 1) \<and> (op_d5 w = unat rp \<or> op_d5 w = unat rp + 1)
     then Inl (illins w (begun s 1))
     else Inr (after s 1 (ldst_memory s (unat rp) (unat r) (unat mode) (unat k) (bit w 9) (op_d5 w)) (pc s + 1)))"
    (is "_ = (if ?bad then _ else Inr (after s 1 ?m _))")
proof -
  obtain e where e: "lookup w = Some e" "\<not> imm16 e" "\<not> skips (code e)"
    and d: "unat (ddddd (decode_fields e w 0)) = op_d5 w"
    and c: "call_instr des (code e) (decode_fields e w 0) (begun s 1) =
      instr_ldst_common rp r mode k (bit w 9) (decode_fields e w 0) (begun s 1)"
    using assms(2) unfolding runs_ldst_def by blast
  have bad: "ddddd (decode_fields e w 0) = rp \<longleftrightarrow> op_d5 w = unat rp"
    unfolding word_unat_eq_iff d by (rule refl)
  have "pc ((begun s 1)\<lparr>memory := x\<rparr>) = pc s" for x by simp
  then show ?thesis
    unfolding emulate1_one [OF assms(1) e] c ldst_common_spec [OF assms(3)] bad d ldst_memory_begun
    by simp
qed


section \<open>Direct addressing, I/O, stack, exchange and program memory\<close>

text \<open>
C38: LDS and STS access the address of their second word, extended by RAMPD on a large machine;
only STS limits the address to eight bits on a 256-byte machine.
\<close>

theorem lds_sts:
  assumes "ready2 s w imm" and "w AND 0xfe0f = (if store then 0x9200 else 0x9000)"
  shows "let far = unat imm + (if pc_mem_max_64k s then 0 else 65536 * unat (memory s RAMPD));
             ea = (if store \<and> pc_mem_max_64k s \<and> pc_mem_max_256b s then far mod 256 else far)
         in emulate1 des s = Inr (after s 2
              (if store then (memory s)(ea := memory s (op_d5 w))
               else (memory s)(op_d5 w := memory s ea)) (pc s + 2))"
proof -
  let ?e = "(if store then plain 0x9200 0xfe0f Instr_sts else plain 0x9000 0xfe0f Instr_lds)\<lparr>ddddd84 := True, imm16 := True\<rparr>"
  have l: "lookup w = Some ?e"
    by (rule lookup_masked [OF assms(2)]) (simp_all add: avr_instr_def plain_def)
  have ff: "unat (ucast imm AND 0xff :: u32) = unat imm mod 256"
    by (simp only: unat_and_ff unat_ucast_u16)
  have less: "unat imm mod 256 < 16777216" "unat imm + 65536 * unat (memory s 0x58) < 16777216"
    using unat_u16_less [of imm] unat_u8_less [of "memory s 0x58"] by linarith+
  show ?thesis
    by (cases store; cases "pc_mem_max_64k s"; cases "pc_mem_max_256b s")
      (simp_all add: emulate1_double [OF assms(1) l] plain_def skips_def instr_sts_def instr_lds_def Let_def
        mem_put_def mem_at_def unat_addr24 ff decode_d5 less)
qed

theorem in_out_sbi_cbi:
  assumes "ready s w"
    and "w AND 0xf800 = 0xb000 \<and> m = (memory s)(op_d5 w := memory s (IO_BASE + op_A6 w)) \<or>
         w AND 0xf800 = 0xb800 \<and> m = (memory s)(IO_BASE + op_A6 w := memory s (op_d5 w)) \<or>
         w AND 0xff00 = 0x9a00 \<and> m = (memory s)(IO_BASE + op_A5 w := set_bit (op_bit w) (memory s (IO_BASE + op_A5 w))) \<or>
         w AND 0xff00 = 0x9800 \<and> m = (memory s)(IO_BASE + op_A5 w := unset_bit (op_bit w) (memory s (IO_BASE + op_A5 w)))"
  shows "emulate1 des s = Inr (after s 1 m (pc s + 1))"
proof -
  have A5: "unat (ucast (drop_bit 3 (w AND 0xf8)) :: u8) = op_A5 w"
    using op_less(8) [of w] unfolding unat_u8_of_u16 fields16 op_A5_def by simp
  have A6: "unat (ucast (drop_bit 5 (w AND 0x600) OR w AND 15) :: u8) = op_A6 w"
    using op_less(9) [of w] unfolding unat_u8_of_u16 field_pairs op_A6_def by simp
  note run = plain_def skips_def Let_def instr_in_def instr_out_def instr_cbisbi_def decode_d5
    decode_bit mask_of_bit A5 A6
  from assms(2) show ?thesis
  proof (elim disjE conjE)
    assume *: "w AND 0xf800 = 0xb000" and m: "m = (memory s)(op_d5 w := memory s (IO_BASE + op_A6 w))"
    have l: "lookup w = Some ((plain 0xb000 0xf800 Instr_in)\<lparr>ddddd84 := True\<rparr>)"
      by (rule lookup_masked [OF *]) (simp_all add: avr_instr_def plain_def)
    show ?thesis by (simp add: emulate1_one [OF assms(1) l] run m del: drop_bit_and)
  next
    assume *: "w AND 0xf800 = 0xb800" and m: "m = (memory s)(IO_BASE + op_A6 w := memory s (op_d5 w))"
    have l: "lookup w = Some ((plain 0xb800 0xf800 Instr_out)\<lparr>ddddd84 := True\<rparr>)"
      by (rule lookup_masked [OF *]) (simp_all add: avr_instr_def plain_def)
    show ?thesis by (simp add: emulate1_one [OF assms(1) l] run m del: drop_bit_and)
  next
    assume *: "w AND 0xff00 = 0x9a00"
      and m: "m = (memory s)(IO_BASE + op_A5 w := set_bit (op_bit w) (memory s (IO_BASE + op_A5 w)))"
    have l: "lookup w = Some ((plain 0x9800 0xfd00 Instr_cbisbi)\<lparr>rrr20 := True\<rparr>)"
      by (rule lookup_masked [OF *]) (simp_all add: avr_instr_def plain_def)
    have "w AND 0x200 = 0x200" using masked_sub [OF *, of "0x200"] by simp
    then show ?thesis by (simp add: emulate1_one [OF assms(1) l] run m del: drop_bit_and)
  next
    assume *: "w AND 0xff00 = 0x9800"
      and m: "m = (memory s)(IO_BASE + op_A5 w := unset_bit (op_bit w) (memory s (IO_BASE + op_A5 w)))"
    have l: "lookup w = Some ((plain 0x9800 0xfd00 Instr_cbisbi)\<lparr>rrr20 := True\<rparr>)"
      by (rule lookup_masked [OF *]) (simp_all add: avr_instr_def plain_def)
    have "w AND 0x200 = 0" using masked_sub [OF *, of "0x200"] by simp
    then show ?thesis by (simp add: emulate1_one [OF assms(1) l] run m del: drop_bit_and)
  qed
qed

theorem push_pop:
  assumes "ready s w" and "w AND 0xfe0f = (if store then 0x920f else 0x900f)"
  shows "let sp = getsp s
         in emulate1 des s = Inr (after s 1
              (if store then (memory s)(unat sp := memory s (op_d5 w),
                 SP_LO := lo_byte (sp - 1), SP_HI := hi_byte (sp - 1))
               else ((memory s)(SP_LO := lo_byte (sp + 1), SP_HI := hi_byte (sp + 1)))
                 (op_d5 w := ((memory s)(SP_LO := lo_byte (sp + 1), SP_HI := hi_byte (sp + 1))) (unat sp + 1)))
              (pc s + 1))"
proof -
  let ?e = "(if store then plain 0x920f 0xfe0f Instr_push else plain 0x900f 0xfe0f Instr_pop)\<lparr>ddddd84 := True\<rparr>"
  have l: "lookup w = Some ?e"
    by (rule lookup_masked [OF assms(2)]) (simp_all add: avr_instr_def plain_def)
  have b: "getsp (begun s 1) = getsp s" by (simp add: getsp_def)
  show ?thesis
    by (cases store) (simp_all add: emulate1_one [OF assms(1) l] plain_def skips_def instr_push_def instr_pop_def
       Let_def decode_d5 pushbyte_def popbyte_def setsp_eq b [simplified])
qed

theorem xch_las_lac_lat:
  assumes "ready s w" and "w AND 0xfe0c = 0x9204"
  shows "let z = unat (le_word (memory s 30) (memory s 31)); d = op_d5 w; rd = memory s d; old = memory s z;
             new = (if unat w mod 4 = 0 then rd else if unat w mod 4 = 1 then old OR rd
                    else if unat w mod 4 = 2 then old AND NOT rd else old XOR rd)
         in emulate1 des s = Inr (after s 1 ((memory s)(z := new, d := old)) (pc s + 1))"
proof -
  have l: "lookup w = Some ((plain 0x9204 0xfe0c Instr_xch)\<lparr>ddddd84 := True\<rparr>)"
    by (rule lookup_masked [OF assms(2)]) (simp_all add: avr_instr_def plain_def)
  let ?m = "ucast (w AND 3) :: u8"
  have "unat (w AND 3) = unat w mod 4" using field_low [of w 2] by (simp add: mask_eq_exp_minus_1)
  moreover have "unat w mod 4 < 4" by simp
  ultimately have "unat ?m = unat w mod 4" unfolding unat_u8_of_u16 by simp
  then have m: "?m = 0 \<longleftrightarrow> unat w mod 4 = 0" "?m = 1 \<longleftrightarrow> unat w mod 4 = 1" "?m = 2 \<longleftrightarrow> unat w mod 4 = 2"
    unfolding word_unat_eq_iff by simp_all
  show ?thesis
    unfolding Let_def
    by (simp add: emulate1_one [OF assms(1) l] plain_def skips_def instr_xch_def Let_def memword_Z mem_at_def
        mem_put_def decode_d5 m [simplified])
qed

definition rom_byte :: "machine \<Rightarrow> nat \<Rightarrow> u8" where
  "rom_byte s a = (if odd a then hi_byte (flash s (a div 2)) else lo_byte (flash s (a div 2)))"

lemma rom_byte_eq:
  "(if a AND 1 \<noteq> 0 then ucast (drop_bit 8 (flash s (unat a div 2))) else ucast (flash s (unat a div 2) AND 0xff)) =
     rom_byte s (unat a)" for a :: u32
  using even_u32 [of a] by (simp add: rom_byte_def hi_byte_def lo_byte_def)

lemma next_pointer:
  "ucast ((ucast z + 1 :: u32) AND 0xffff) = z + 1"
  "ucast (((ucast z OR push_bit 16 (ucast b)) + 1 :: u32) AND 0xffff) = z + 1" for z :: u16 and b :: u8
proof -
  have *: "unat (ucast (x AND 0xffff) :: u16) = unat x mod 65536" for x :: u32
    by (simp only: unsigned_ucast_eq unat_and_ffff take_bit_eq_mod len_bit0 len_num1) simp
  have "unat (ucast z + 1 :: u32) = unat z + 1"
    using unat_u16_less [of z] by (simp add: unat_word_ariths)
  then show "ucast ((ucast z + 1 :: u32) AND 0xffff) = z + 1"
    unfolding word_unat_eq_iff * by (simp add: unat_word_ariths)
  have "unat ((ucast z OR push_bit 16 (ucast b)) + 1 :: u32) = unat z + 65536 * unat b + 1"
    using unat_u16_less [of z] unat_u8_less [of b] by (simp add: unat_word_ariths unat_addr24)
  then have "unat ((ucast z OR push_bit 16 (ucast b)) + 1 :: u32) mod 65536 = (unat z + 1) mod 65536"
    using mod_mult_self2 [of "unat z + 1" 65536 "unat b"] by (simp add: ac_simps)
  then show "ucast (((ucast z OR push_bit 16 (ucast b)) + 1 :: u32) AND 0xffff) = z + 1"
    unfolding word_unat_eq_iff * by (simp add: unat_word_ariths)
qed

text \<open>
C33: LPM and ELPM read the addressed byte of flash; the post-increment form advances Z modulo
65536 and never carries into RAMPZ.
\<close>

theorem lpm_elpm:
  assumes "ready s w"
    and "w AND 0xffef = 0x95c8 \<and> d = 0 \<and> ext = bit w 4 \<and> inc = False \<or>
         w AND 0xfe0c = 0x9004 \<and> d = op_d5 w \<and> ext = bit w 1 \<and> inc = bit w 0"
  shows "let z = le_word (memory s 30) (memory s 31);
             a = unat z + (if ext then 65536 * unat (memory s (unat RAMPZ)) else 0);
             m = (memory s)(d := rom_byte s a)
         in emulate1 des s = (if inc \<and> (d = 30 \<or> d = 31) then Inl (illins w (begun s 1))
              else Inr (after s 1 (if inc then set_pair m 30 (z + 1) else m) (pc s + 1)))"
proof -
  let ?z = "le_word (memory s 30) (memory s 31)"
  define addr where "addr = (if ext then ucast ?z OR push_bit 16 (ucast (memory s (unat RAMPZ))) else ucast ?z :: u32)"
  have a: "unat addr = unat ?z + (if ext then 65536 * unat (memory s (unat RAMPZ)) else 0)"
    by (simp add: addr_def unat_addr24)
  have less: "unat addr < 16777216" by (simp add: addr_def)
  have up: "ucast ((addr + 1) AND 0xffff) = ?z + 1" by (simp add: addr_def next_pointer)
  have rom: "romword (drop_bit 1 addr) (begun s 1) = Inr (flash s (unat addr div 2))"
    using romword_drop [OF less, of "begun s 1"] by simp
  have z: "memword (ucast REGP_Z) (begun s 1) = Inr ?z" by (simp add: memword_Z)
  from assms(2) show ?thesis
    unfolding Let_def a [symmetric]
  proof (elim disjE conjE)
    assume *: "w AND 0xffef = 0x95c8" "d = 0" "ext = bit w 4" "inc = False"
    have l: "lookup w = Some (plain 0x95c8 0xffef Instr_elpm)"
      by (rule lookup_masked [OF *(1)]) (simp_all add: avr_instr_def plain_def)
    have "bits w 4 4 \<noteq> 0 \<longleftrightarrow> ext"
      using and_exp_eq_0_iff_not_bit [of w 4] * by simp
    then have "call_instr des Instr_elpm (decode_fields (plain 0x95c8 0xffef Instr_elpm) w 0) (begun s 1) =
        Inr (decode_fields (plain 0x95c8 0xffef Instr_elpm) w 0, mem_upd 0 (rom_byte s (unat addr)) (begun s 1))"
      unfolding call_instr.simps instr_elpm_def Let_def decode_flags z bindR.simps
      by (simp only: begun_simps addr_def [symmetric] rom bindR.simps rom_byte_eq)
    then show "emulate1 des s = (if inc \<and> (d = 30 \<or> d = 31) then Inl (illins w (begun s 1))
        else Inr (after s 1 (if inc then set_pair ((memory s)(d := rom_byte s (unat addr))) 30 (?z + 1)
          else (memory s)(d := rom_byte s (unat addr))) (pc s + 1)))"
      using * by (simp add: emulate1_one [OF assms(1) l] plain_def skips_def)
  next
    assume *: "w AND 0xfe0c = 0x9004" "d = op_d5 w" "ext = bit w 1" "inc = bit w 0"
    let ?e = "(plain 0x9004 0xfe0c Instr_elpmz)\<lparr>ddddd84 := True\<rparr>"
    have l: "lookup w = Some ?e"
      by (rule lookup_masked [OF *(1)]) (simp_all add: avr_instr_def plain_def)
    have m: "bits w 1 1 \<noteq> 0 \<longleftrightarrow> ext" "bits w 0 0 \<noteq> 0 \<longleftrightarrow> inc"
      using and_exp_eq_0_iff_not_bit [of w 1] and_exp_eq_0_iff_not_bit [of w 0] * by simp_all
    have d: "unat (ddddd (decode_fields ?e w 0)) = d" unfolding * by (rule decode_d5) (simp_all add: plain_def)
    then have d30: "ddddd (decode_fields ?e w 0) = 30 \<or> ddddd (decode_fields ?e w 0) = 31 \<longleftrightarrow> d = 30 \<or> d = 31"
      unfolding word_unat_eq_iff by simp
    have "call_instr des Instr_elpmz (decode_fields ?e w 0) (begun s 1) =
       (if inc \<and> (d = 30 \<or> d = 31) then Inl (illins w (begun s 1))
        else Inr (decode_fields ?e w 0, (begun s 1)\<lparr>memory :=
          if inc then set_pair ((memory s)(d := rom_byte s (unat addr))) 30 (?z + 1)
          else (memory s)(d := rom_byte s (unat addr))\<rparr>))"
      unfolding call_instr.simps instr_elpmz_def Let_def decode_flags m d d30 z bindR.simps
      unfolding begun_simps addr_def [symmetric] rom bindR.simps rom_byte_eq up
      by (simp add: memwriteword_Z set_pair_def mem_upd_def)
    then show "emulate1 des s = (if inc \<and> (d = 30 \<or> d = 31) then Inl (illins w (begun s 1))
        else Inr (after s 1 (if inc then set_pair ((memory s)(d := rom_byte s (unat addr))) 30 (?z + 1)
          else (memory s)(d := rom_byte s (unat addr))) (pc s + 1)))"
      by (simp add: emulate1_one [OF assms(1) l] plain_def skips_def)
  qed
qed

section \<open>Concrete instances\<close>


lemma lds_sts_witness:
  "memory (projr (emulate1 des_xor (boot ((\<lambda>_. 0x9200)(1 := 0x100)) ((\<lambda>_. 0)(0 := 9))))) 0x100 = 9"
  using lds_sts [of "boot ((\<lambda>_. 0x9200)(1 := 0x100)) ((\<lambda>_. 0)(0 := 9))" "0x9200" "0x100" True des_xor]
  by (simp add: at_boot)

lemma in_out_sbi_cbi_witness:
  "memory (projr (emulate1 des_xor (boot (\<lambda>_. 0xb805) ((\<lambda>_. 0)(0 := 9))))) 0x25 = 9"
  using in_out_sbi_cbi [of "boot (\<lambda>_. 0xb805) ((\<lambda>_. 0)(0 := 9))" "0xb805" "((\<lambda>_. 0)(0 := 9))(0x25 := 9)" des_xor]
  by (simp add: at_boot)

lemma push_pop_witness:
  "memory (projr (emulate1 des_xor (boot (\<lambda>_. 0x920f) ((\<lambda>_. 0)(0 := 9, SP_HI := 1))))) 0x100 = 9"
  using push_pop [of "boot (\<lambda>_. 0x920f) ((\<lambda>_. 0)(0 := 9, SP_HI := 1))" "0x920f" True des_xor]
  by (simp add: at_boot getsp_def)

lemma xch_las_lac_lat_witness:
  "memory (projr (emulate1 des_xor (boot (\<lambda>_. 0x9206) ((\<lambda>_. 0)(0 := 0x0f, 31 := 1, 0x100 := 0x3c))))) 0x100 = 0x30"
  using xch_las_lac_lat [of "boot (\<lambda>_. 0x9206) ((\<lambda>_. 0)(0 := 0x0f, 31 := 1, 0x100 := 0x3c))" "0x9206" des_xor]
  by (simp add: at_boot le_word_def)

lemma lpm_elpm_witness:
  "memory (projr (emulate1 des_xor (boot (\<lambda>_. 0x9007) ((\<lambda>_. 0)(30 := 0xff, 31 := 0xff, 0x5B := 3))))) 0x5B = 3"
  using lpm_elpm [of "boot (\<lambda>_. 0x9007) ((\<lambda>_. 0)(30 := 0xff, 31 := 0xff, 0x5B := 3))" "0x9007" 0 True True des_xor]
  by (simp add: at_boot set_pair_def)

end
