(* ===== verification/Step_Spec.thy ===== *)
theory Step_Spec
  imports Alu_Spec
begin

text \<open>
  What holds of every step of \<open>emulate1\<close>, whatever the instruction: it faults only for an
  illegal or an unimplemented instruction, it leaves flash, the machine model and the debugger's
  variables alone, it counts one instruction, and it appends exactly the words of the executed
  instruction to the trace.
\<close>

unbundle bit_operations_syntax

section \<open>Passes\<close>

lemma fetch_begun:
  assumes "fetch s = Inr (w, e, imm, t)"
  shows "t = begun s (if imm16 e then 2 else 1) \<and> unat (pc s) < FLASH_SIZE \<and> lookup w = Some e"
  using assms by (rule fetch_Inr) (auto simp: begun_def)

text \<open>What a pass leaves alone.\<close>

definition outside :: "machine \<Rightarrow> machine \<Rightarrow> bool" where
  "outside s t \<longleftrightarrow>
     flash t = flash s \<and> pc22 t = pc22 s \<and> pc_mem_max_64k t = pc_mem_max_64k s \<and>
     pc_mem_max_256b t = pc_mem_max_256b s \<and> insnlimit t = insnlimit s \<and>
     insnreplaylim t = insnreplaylim s \<and> off t = off s \<and> replay_mode t = replay_mode s \<and>
     stepone t = stepone s \<and> tracehex t = tracehex s"

lemma outside_trans: "outside s t \<Longrightarrow> outside t u \<Longrightarrow> outside s u"
  by (simp add: outside_def)

lemma pass_cases:
  assumes "emulate1_pass des s = Inr (t, again)"
  obtains (skip) n where "skip_next_instruction s" "\<not> again" "n = 1 \<or> n = 2"
      "t = (skipped s n)\<lparr>skip_next_instruction := False\<rparr>"
  | (run) w e imm n idc u where "\<not> skip_next_instruction s" "again = skip_next_instruction u"
      "fetch s = Inr (w, e, imm, begun s n)" "n = 1 \<or> n = 2"
      "call_instr des (code e) (decode_fields e w imm) (begun s n) = Inr (idc, u)"
      "t = after s n (flagged idc (memory u)) (pc u + of_nat n) \<lparr>skip_next_instruction := skip_next_instruction u\<rparr>"
proof -
  from assms obtain w e imm v where f: "fetch s = Inr (w, e, imm, v)"
    by (auto simp: emulate1_pass_def elim!: bindR_InrE)
  define n :: nat where "n = (if imm16 e then 2 else 1)"
  have v: "v = begun s n" using fetch_begun [OF f] by (simp add: n_def)
  show thesis
  proof (cases "skip_next_instruction s")
    case True
    then have "t = (skipped s n)\<lparr>skip_next_instruction := False\<rparr>" "\<not> again"
      using assms f by (auto simp: emulate1_pass_def v skipped_def begun_def)
    with True show thesis by (intro skip [of n]) (simp_all add: n_def)
  next
    case False
    then obtain idc u where c: "call_instr des (code e) (decode_fields e w imm) (begun s n) = Inr (idc, u)"
      using assms f by (auto simp: emulate1_pass_def v elim!: bindR_InrE)
    show thesis
      using emulate1_pass_exec [OF f [unfolded v] n_def False c] assms
      by (intro run [OF False _ f [unfolded v] _ c]) (simp_all add: n_def)
  qed
qed

lemma imm16_no_skip: "e \<in> set avr_instr \<Longrightarrow> imm16 e \<Longrightarrow> \<not> skips (code e)"
proof -
  have "list_all (\<lambda>e. imm16 e \<longrightarrow> \<not> skips (code e)) avr_instr"
    by (simp add: avr_instr_def plain_def skips_def)
  then show "e \<in> set avr_instr \<Longrightarrow> imm16 e \<Longrightarrow> ?thesis" by (auto simp: list_all_iff)
qed

lemma begun_inject: "n = 1 \<or> n = 2 \<Longrightarrow> m = 1 \<or> m = 2 \<Longrightarrow> begun s n = begun s m \<Longrightarrow> n = m"
proof -
  assume nm: "n = 1 \<or> n = 2" "m = 1 \<or> m = 2" and "begun s n = begun s m"
  then have "instr_size (begun s n) = instr_size (begun s m)" by simp
  then have "(of_nat n :: u32) = of_nat m" by (simp only: begun_simps)
  with nm show "n = m" by auto
qed

lemma pass_outside:
  assumes "emulate1_pass des s = Inr (t, again)"
  shows "outside s t \<and> insns t = insns s + of_bool (\<not> skip_next_instruction s) \<and>
    skip_next_instruction t = again \<and>
    (again \<longrightarrow> pc t = pc s + 1)"
  using assms
proof (cases rule: pass_cases)
  case (skip n)
  then show ?thesis by (simp add: outside_def skipped_def)
next
  case (run w e imm n idc u)
  have n: "n = (if imm16 e then 2 else 1)" and l: "lookup w = Some e"
    using fetch_begun [OF run(3)] begun_inject [of n "if imm16 e then 2 else 1" s] run(4) by simp_all
  have "n = 1" if "skip_next_instruction u"
    using imm16_no_skip [of e] lookup_Some [OF l] call_instr_no_skip [OF run(5)] that run(1) n by auto
  moreover have "pc u = pc s" if "skip_next_instruction u"
    using call.skip [OF run(5)] that run(1) by (simp add: skip_ok_def)
  ultimately show ?thesis using run(1,2,6) by (simp add: outside_def after_def)
qed

lemma illins_in_flash:
  "unat (pc_start s) + 3 \<le> FLASH_SIZE \<Longrightarrow> illins w s = Illegal_instr w"
  "unat (pc_start s) + 3 \<le> FLASH_SIZE \<Longrightarrow> unhandled w s = Not_implemented w"
  by (simp_all add: illins_def unhandled_def report_oob_def unat_word_ariths)

lemma unat_pc_plus: "unat (pc s) + 4 \<le> FLASH_SIZE \<Longrightarrow> unat (pc s + 1) = unat (pc s) + 1"
  by (simp add: unat_word_ariths)

lemma pass_safe:
  assumes "unat (pc s) + 3 \<le> FLASH_SIZE" "emulate1_pass des s = Inl f"
  shows "\<exists>w. f = Illegal_instr w \<or> f = Not_implemented w"
proof (cases "fetch s")
  case (Inl g)
  have "unat (pc s) < FLASH_SIZE" "unat (pc s + 1) < FLASH_SIZE"
    using assms(1) by (simp_all add: unat_word_ariths)
  then have "g = illins (flash s (unat (pc s))) (s\<lparr>pc_start := pc s, instr_size := 1\<rparr>)"
    using Inl by (auto simp: fetch_def Let_def rom_in_range split: option.splits if_splits)
  moreover have "f = g" using assms(2) Inl by (simp add: emulate1_pass_def)
  ultimately show ?thesis using assms(1) by (simp add: illins_in_flash)
next
  case (Inr r)
  then obtain w e imm v where f: "fetch s = Inr (w, e, imm, v)" by (cases r) auto
  define n :: nat where "n = (if imm16 e then 2 else 1)"
  have v: "v = begun s n" using fetch_begun [OF f] by (simp add: n_def)
  have ns: "\<not> skip_next_instruction s"
    using assms(2) f by (auto simp: emulate1_pass_def v)
  show ?thesis
  proof (cases "call_instr des (code e) (decode_fields e w imm) (begun s n)")
    case (Inl g)
    then have "f = g" using assms(2) f ns by (auto simp: emulate1_pass_def v)
    moreover have "pc_start (begun s n) = pc s" by simp
    ultimately show ?thesis
      using call.aborts [OF Inl] assms(1) illins_in_flash [of "begun s n"] by auto
  next
    case (Inr q)
    then obtain idc u where "call_instr des (code e) (decode_fields e w imm) (begun s n) = Inr (idc, u)"
      by (cases q) auto
    from emulate1_pass_exec [OF f [unfolded v] n_def ns this] show ?thesis
      using assms(2) by simp
  qed
qed

lemma emulate1_Inr:
  assumes "emulate1 des s = Inr t"
  obtains "emulate1_pass des s = Inr (t, False)"
  | u where "emulate1_pass des s = Inr (u, True)" "emulate1_pass des u = Inr (t, False)"
proof -
  obtain u again where p: "emulate1_pass des s = Inr (u, again)"
    using assms by (cases "emulate1_pass des s") (auto simp: emulate1.simps [of des s])
  show thesis
  proof (cases again)
    case True
    then have e: "emulate1 des u = Inr t" using assms p by (simp add: emulate1.simps [of des s])
    then obtain v again' where q: "emulate1_pass des u = Inr (v, again')"
      by (cases "emulate1_pass des u") (auto simp: emulate1.simps [of des u])
    have "\<not> again'" using pass_again [of des u v] pass_outside [OF p] q True by auto
    with q e have "emulate1_pass des u = Inr (t, False)" by (simp add: emulate1.simps [of des u])
    with p True that show thesis by simp
  next
    case False
    with p assms that show thesis by (simp add: emulate1.simps [of des s])
  qed
qed


lemma emulate1_kept:
  assumes "emulate1 des s = Inr t"
  shows "outside s t \<and> \<not> skip_next_instruction t \<and>
    insns t = insns s + of_bool (\<not> skip_next_instruction s)"
  using assms
proof (cases rule: emulate1_Inr)
  case 1
  then show ?thesis using pass_outside [OF 1] by simp
next
  case (2 u)
  then show ?thesis
    using pass_outside [OF 2(1)] pass_outside [OF 2(2)] pass_again [of des s u] outside_trans by auto
qed

text \<open>
C39: A completed emulate1 never changes flash, the machine model, the limits, or the debugger's
and the trace's settings; it leaves no skip pending and counts exactly one instruction, or none
when it only skipped.
\<close>

theorem emulate1_frame:
  assumes "emulate1 des s = Inr t"
  shows "outside s t \<and> \<not> skip_next_instruction t \<and>
    insns t = insns s + of_bool (\<not> skip_next_instruction s)"
  using emulate1_kept [OF assms] .

theorem decode_unique:
  "lookup w = Some e \<longleftrightarrow> e \<in> set avr_instr \<and> matches w e"
  using lookup_Some lookup_row by blast


lemma run_pass_trace:
  assumes "emulate1_pass des s = Inr (t, again)" "\<not> skip_next_instruction s"
  shows "\<exists>e. lookup (flash s (unat (pc s))) = Some e \<and>
    tracefile t = traced s (words_at s (pc s) (if imm16 e then 2 else 1))"
  using assms(1)
proof (cases rule: pass_cases)
  case (skip n)
  then show ?thesis using assms(2) by simp
next
  case (run w e imm n idc u)
  have "n = (if imm16 e then 2 else 1)"
    using fetch_begun [OF run(3)] begun_inject [of n "if imm16 e then 2 else 1" s] run(4) by simp
  moreover have "w = flash s (unat (pc s))" "lookup w = Some e"
    using run(3) by (auto elim: fetch_Inr)
  ultimately show ?thesis using run(6) by (auto simp: after_def)
qed

text \<open>
C40: A completed emulate1 appends to the trace file exactly the words of the instruction it
executed, in hexadecimal or binary, and nothing while replaying; a skipped instruction is not
traced.
\<close>

theorem trace_appends:
  assumes "emulate1 des s = Inr t" "\<not> skip_next_instruction s"
  shows "\<exists>e. lookup (flash s (unat (pc s))) = Some e \<and>
    tracefile t = (if replay_mode s then tracefile s
      else map_option (\<lambda>out. out @
        concat (map (trace_word (tracehex s)) (words_at s (pc s) (if imm16 e then 2 else 1))) @
        (if tracehex s then [10] else [])) (tracefile s))"
  using assms(1)
proof (cases rule: emulate1_Inr)
  case 1
  then show ?thesis using run_pass_trace [OF 1 assms(2)] by (simp add: traced_def)
next
  case (2 u)
  have "skip_next_instruction u" using pass_outside [OF 2(1)] by simp
  with 2(2) have "tracefile t = tracefile u"
    by (auto elim!: pass_cases simp: skipped_def)
  then show ?thesis using run_pass_trace [OF 2(1) assms(2)] by (simp add: traced_def)
qed

section \<open>The hexadecimal trace\<close>

definition hex_value :: "u8 \<Rightarrow> u16" where
  "hex_value c = (if c < 58 then ucast c - 48 else ucast c - 87)"

fun parse_hex4 :: "u8 list \<Rightarrow> u16 option" where
  "parse_hex4 [a, b, c, d] = Some (((hex_value a * 16 + hex_value b) * 16 + hex_value c) * 16 + hex_value d)"
| "parse_hex4 _ = None"

lemma hex_digit_value: "unat d < 16 \<Longrightarrow> hex_value (hex_digit d) = d"
proof -
  assume d: "unat d < 16"
  have u: "unat (ucast d :: u8) = unat d" using d by (simp add: unat_u8_of_u16)
  have h: "unat (hex_digit d) = (if unat d < 10 then 48 + unat d else 87 + unat d)"
    using d by (auto simp: hex_digit_def word_less_nat_alt unat_word_ariths u)
  have "unat (hex_value (hex_digit d)) = unat d"
    using d h by (auto simp: hex_value_def word_less_nat_alt unat_sub word_le_nat_alt unat_ucast_u8_u16)
  then show ?thesis by (simp only: word_unat_eq_iff)
qed

lemma nibbles:
  fixes w :: u16
  shows "unat (drop_bit 12 w) = unat w div 4096" "unat (drop_bit 8 w AND 15) = unat w div 256 mod 16"
    "unat (drop_bit 4 w AND 15) = unat w div 16 mod 16"
proof -
  show "unat (drop_bit 12 w) = unat w div 4096" by (simp only: unat_drop_bit_eq) (simp add: drop_bit_eq_div)
  have "unat (drop_bit 8 w) = unat w div 256" "unat (drop_bit 4 w) = unat w div 16"
    by (simp only: unat_drop_bit_eq, simp add: drop_bit_eq_div)+
  then show "unat (drop_bit 8 w AND 15) = unat w div 256 mod 16" "unat (drop_bit 4 w AND 15) = unat w div 16 mod 16"
    using field_low [of "drop_bit 8 w" 4] field_low [of "drop_bit 4 w" 4] by (simp_all add: mask_eq_exp_minus_1)
qed

theorem trace_hex_roundtrip: "parse_hex4 (hex4 w) = Some w"
proof -
  have "unat w div 4096 < 16" using unat_u16_less [of w] by linarith
  then have v: "hex_value (hex_digit (drop_bit 12 w)) = drop_bit 12 w"
    "hex_value (hex_digit (drop_bit 8 w AND 15)) = drop_bit 8 w AND 15"
    "hex_value (hex_digit (drop_bit 4 w AND 15)) = drop_bit 4 w AND 15"
    "hex_value (hex_digit (w AND 15)) = w AND 15"
    by (simp_all add: hex_digit_value nibbles fields16 del: drop_bit_and)
  define n where "n = ((unat w div 4096 * 16 + unat w div 256 mod 16) * 16 + unat w div 16 mod 16) * 16 + unat w mod 16"
  have "unat w div 4096 * 16 + unat w div 256 mod 16 = unat w div 256"
    using div_mult_mod_eq [of "unat w div 256" 16] div_mult2_eq [of "unat w" 256 16] by simp
  moreover have "unat w div 256 * 16 + unat w div 16 mod 16 = unat w div 16"
    using div_mult_mod_eq [of "unat w div 16" 16] div_mult2_eq [of "unat w" 16 16] by simp
  ultimately have n: "n = unat w" unfolding n_def by simp
  have digit: "(drop_bit 12 w) = of_nat (unat w div 4096)" "(drop_bit 8 w AND 15) = of_nat (unat w div 256 mod 16)"
    "(drop_bit 4 w AND 15) = of_nat (unat w div 16 mod 16)" "w AND 15 = of_nat (unat w mod 16)"
    unfolding nibbles [symmetric] fields16(2) [symmetric] by simp_all
  have "((drop_bit 12 w * 16 + (drop_bit 8 w AND 15)) * 16 + (drop_bit 4 w AND 15)) * 16 + (w AND 15) = of_nat n"
    unfolding digit n_def by simp
  then show ?thesis by (simp add: hex4_def v n)
qed

section \<open>Concrete instances\<close>

lemma lookup_nop: "lookup 0 = Some (plain 0x0000 0xffff Instr_nop)"
  by (rule lookup_row) (simp_all add: avr_instr_def plain_def matches_def)

lemma nop_boot: "emulate1 des_xor (boot (\<lambda>_. 0) m) = Inr (after (boot (\<lambda>_. 0) m) 1 m 1)"
  by (subst emulate1_one [of _ 0, OF _ lookup_nop])
    (simp_all add: ready_def boot_def plain_def skips_def instr_nop_def)


lemma emulate1_frame_witness:
  "\<exists>t. emulate1 des_xor (boot (\<lambda>_. 0) (\<lambda>_. 0)) = Inr t \<and> insns t = 1"
proof (intro exI conjI)
  show "emulate1 des_xor (boot (\<lambda>_. 0) (\<lambda>_. 0)) = Inr (after (boot (\<lambda>_. 0) (\<lambda>_. 0)) 1 (\<lambda>_. 0) 1)"
    by (rule nop_boot)
  then show "insns (after (boot (\<lambda>_. 0) (\<lambda>_. 0)) 1 (\<lambda>_. 0) 1) = 1"
    using emulate1_frame [of des_xor "boot (\<lambda>_. 0) (\<lambda>_. 0)"] by (simp add: boot_def)
qed

lemma trace_appends_witness:
  "\<exists>t. emulate1 des_xor ((boot (\<lambda>_. 0) (\<lambda>_. 0))\<lparr>tracehex := True, tracefile := Some []\<rparr>) = Inr t \<and>
     tracefile t = Some [48, 48, 48, 48, 32, 10]"
proof -
  let ?s = "(boot (\<lambda>_. 0) (\<lambda>_. 0))\<lparr>tracehex := True, tracefile := Some []\<rparr>"
  have "ready ?s 0" by (simp add: ready_def boot_def)
  then obtain t where t: "emulate1 des_xor ?s = Inr t"
    using emulate1_one [of ?s 0 _ des_xor, OF _ lookup_nop] by (simp add: plain_def skips_def instr_nop_def)
  then have "tracefile t = Some [48, 48, 48, 48, 32, 10]"
    using trace_appends [OF t] lookup_nop
    by (simp add: boot_def plain_def words_at_def trace_word_def hex4_def hex_digit_def)
  with t show ?thesis by blast
qed

end
