(* ===== verification/Manual.thy ===== *)
theory Manual
  imports Execute
begin

text \<open>
  The encoding of the instructions in the AVR instruction set manual, and the proof that the
  table of the program decodes exactly these: every word that the manual defines is sent to the
  routine of its instruction with the operands of its bit pattern, and every other word is
  reported as illegal.
\<close>

unbundle bit_operations_syntax

section \<open>Bit patterns\<close>

text \<open>
  A pattern has sixteen characters, the most significant bit first: zero, one, or the letter of an
  operand. An entry names the letters of the register or bit number that the manual puts into the
  first and the second operand, the letter of an eight-bit constant, and whether a second word
  follows. Registers with fewer than five bits start at R16, as the routines expect.
\<close>

record manual_entry =
  mnemonic :: string
  opcode :: string
  routine :: instr_code
  first_letter :: "char option"
  second_letter :: "char option"
  const_letter :: "char option"
  second_word :: bool

definition entry :: "string \<Rightarrow> string \<Rightarrow> instr_code \<Rightarrow> char option \<Rightarrow> char option \<Rightarrow> char option \<Rightarrow> bool \<Rightarrow> manual_entry" where
  "entry n p c x y k s = \<lparr>mnemonic = n, opcode = p, routine = c, first_letter = x, second_letter = y,
     const_letter = k, second_word = s\<rparr>"

definition positions :: "string \<Rightarrow> (nat \<times> char) list" where
  "positions p = zip [15, 14, 13, 12, 11, 10, 9, 8, 7, 6, 5, 4, 3, 2, 1, 0] p"

definition fits :: "(nat \<times> char) list \<Rightarrow> u16 \<Rightarrow> bool" where
  "fits ps w \<longleftrightarrow> list_all (\<lambda>(i, c). (c = CHR ''0'' \<longrightarrow> \<not> bit w i) \<and> (c = CHR ''1'' \<longrightarrow> bit w i)) ps"

definition encodes :: "manual_entry \<Rightarrow> u16 \<Rightarrow> bool" where
  "encodes en w \<longleftrightarrow> fits (positions (opcode en)) w"

definition letter_bits :: "char option \<Rightarrow> string \<Rightarrow> nat list" where
  "letter_bits c p = map fst (filter (\<lambda>(i, d). c = Some d) (positions p))"

definition bits_value :: "nat list \<Rightarrow> u16 \<Rightarrow> nat" where
  "bits_value is w = foldl (\<lambda>v i. 2 * v + of_bool (bit w i)) 0 is"

definition operand :: "nat list \<Rightarrow> u16 \<Rightarrow> nat" where
  "operand is w = (if is = [] then 0 else if length is = 5 then bits_value is w else 16 + bits_value is w)"

section \<open>The instruction set\<close>

definition manual :: "manual_entry list" where
  "manual = [
     entry ''ADC'' ''000111rdddddrrrr'' Instr_adc (Some CHR ''d'') (Some CHR ''r'') None False,
     entry ''ADD'' ''000011rdddddrrrr'' Instr_adc (Some CHR ''d'') (Some CHR ''r'') None False,
     entry ''ADIW'' ''10010110KKddKKKK'' Instr_adiw None None None False,
     entry ''AND'' ''001000rdddddrrrr'' Instr_and (Some CHR ''d'') (Some CHR ''r'') None False,
     entry ''ANDI'' ''0111KKKKddddKKKK'' Instr_andi (Some CHR ''d'') None (Some CHR ''K'') False,
     entry ''ASR'' ''1001010ddddd0101'' Instr_asr (Some CHR ''d'') None None False,
     entry ''BCLR'' ''100101001sss1000'' Instr_bclrset (Some CHR ''s'') None None False,
     entry ''BLD'' ''1111100ddddd0bbb'' Instr_bld (Some CHR ''d'') (Some CHR ''b'') None False,
     entry ''BRBC'' ''111101kkkkkkksss'' Instr_brb None (Some CHR ''s'') None False,
     entry ''BRBS'' ''111100kkkkkkksss'' Instr_brb None (Some CHR ''s'') None False,
     entry ''BREAK'' ''1001010110011000'' Instr_unimp None None None False,
     entry ''BSET'' ''100101000sss1000'' Instr_bclrset (Some CHR ''s'') None None False,
     entry ''BST'' ''1111101ddddd0bbb'' Instr_bst (Some CHR ''d'') (Some CHR ''b'') None False,
     entry ''CALL'' ''1001010kkkkk111k'' Instr_call None None None True,
     entry ''CBI'' ''10011000AAAAAbbb'' Instr_cbisbi None (Some CHR ''b'') None False,
     entry ''COM'' ''1001010ddddd0000'' Instr_com (Some CHR ''d'') None None False,
     entry ''CP'' ''000101rdddddrrrr'' Instr_cpc (Some CHR ''d'') (Some CHR ''r'') None False,
     entry ''CPC'' ''000001rdddddrrrr'' Instr_cpc (Some CHR ''d'') (Some CHR ''r'') None False,
     entry ''CPI'' ''0011KKKKddddKKKK'' Instr_cpi (Some CHR ''d'') None (Some CHR ''K'') False,
     entry ''CPSE'' ''000100rdddddrrrr'' Instr_cpse (Some CHR ''d'') (Some CHR ''r'') None False,
     entry ''DEC'' ''1001010ddddd1010'' Instr_dec (Some CHR ''d'') None None False,
     entry ''DES'' ''10010100KKKK1011'' Instr_des (Some CHR ''K'') None None False,
     entry ''EICALL'' ''1001010100011001'' Instr_eicalljump None None None False,
     entry ''EIJMP'' ''1001010000011001'' Instr_eicalljump None None None False,
     entry ''ELPM'' ''1001010111011000'' Instr_elpm None None None False,
     entry ''ELPM Z'' ''1001000ddddd0110'' Instr_elpmz (Some CHR ''d'') None None False,
     entry ''ELPM Z+'' ''1001000ddddd0111'' Instr_elpmz (Some CHR ''d'') None None False,
     entry ''EOR'' ''001001rdddddrrrr'' Instr_xor (Some CHR ''d'') (Some CHR ''r'') None False,
     entry ''FMUL'' ''000000110ddd1rrr'' Instr_fmul (Some CHR ''d'') (Some CHR ''r'') None False,
     entry ''FMULS'' ''000000111ddd0rrr'' Instr_fmulsu (Some CHR ''d'') (Some CHR ''r'') None False,
     entry ''FMULSU'' ''000000111ddd1rrr'' Instr_fmulsu (Some CHR ''d'') (Some CHR ''r'') None False,
     entry ''ICALL'' ''1001010100001001'' Instr_eicalljump None None None False,
     entry ''IJMP'' ''1001010000001001'' Instr_eicalljump None None None False,
     entry ''IN'' ''10110AAdddddAAAA'' Instr_in (Some CHR ''d'') None None False,
     entry ''INC'' ''1001010ddddd0011'' Instr_inc (Some CHR ''d'') None None False,
     entry ''JMP'' ''1001010kkkkk110k'' Instr_jmp None None None True,
     entry ''LAC'' ''1001001rrrrr0110'' Instr_xch (Some CHR ''r'') None None False,
     entry ''LAS'' ''1001001rrrrr0101'' Instr_xch (Some CHR ''r'') None None False,
     entry ''LAT'' ''1001001rrrrr0111'' Instr_xch (Some CHR ''r'') None None False,
     entry ''LD X'' ''1001000ddddd1100'' Instr_ldx (Some CHR ''d'') None None False,
     entry ''LD X+'' ''1001000ddddd1101'' Instr_ldx (Some CHR ''d'') None None False,
     entry ''LD -X'' ''1001000ddddd1110'' Instr_ldx (Some CHR ''d'') None None False,
     entry ''LD Y+'' ''1001000ddddd1001'' Instr_ldyz (Some CHR ''d'') None None False,
     entry ''LD -Y'' ''1001000ddddd1010'' Instr_ldyz (Some CHR ''d'') None None False,
     entry ''LDD Y'' ''10q0qq0ddddd1qqq'' Instr_ldyz (Some CHR ''d'') None None False,
     entry ''LD Z+'' ''1001000ddddd0001'' Instr_ldyz (Some CHR ''d'') None None False,
     entry ''LD -Z'' ''1001000ddddd0010'' Instr_ldyz (Some CHR ''d'') None None False,
     entry ''LDD Z'' ''10q0qq0ddddd0qqq'' Instr_ldyz (Some CHR ''d'') None None False,
     entry ''LDI'' ''1110KKKKddddKKKK'' Instr_ldi (Some CHR ''d'') None (Some CHR ''K'') False,
     entry ''LDS'' ''1001000ddddd0000'' Instr_lds (Some CHR ''d'') None None True,
     entry ''LPM'' ''1001010111001000'' Instr_elpm None None None False,
     entry ''LPM Z'' ''1001000ddddd0100'' Instr_elpmz (Some CHR ''d'') None None False,
     entry ''LPM Z+'' ''1001000ddddd0101'' Instr_elpmz (Some CHR ''d'') None None False,
     entry ''LSR'' ''1001010ddddd0110'' Instr_lsr (Some CHR ''d'') None None False,
     entry ''MOV'' ''001011rdddddrrrr'' Instr_mov (Some CHR ''d'') (Some CHR ''r'') None False,
     entry ''MOVW'' ''00000001ddddrrrr'' Instr_movw (Some CHR ''d'') (Some CHR ''r'') None False,
     entry ''MUL'' ''100111rdddddrrrr'' Instr_mul (Some CHR ''d'') (Some CHR ''r'') None False,
     entry ''MULS'' ''00000010ddddrrrr'' Instr_muls (Some CHR ''d'') (Some CHR ''r'') None False,
     entry ''MULSU'' ''000000110ddd0rrr'' Instr_mulsu (Some CHR ''d'') (Some CHR ''r'') None False,
     entry ''NEG'' ''1001010ddddd0001'' Instr_neg (Some CHR ''d'') None None False,
     entry ''NOP'' ''0000000000000000'' Instr_nop None None None False,
     entry ''OR'' ''001010rdddddrrrr'' Instr_or (Some CHR ''d'') (Some CHR ''r'') None False,
     entry ''ORI'' ''0110KKKKddddKKKK'' Instr_ori (Some CHR ''d'') None (Some CHR ''K'') False,
     entry ''OUT'' ''10111AArrrrrAAAA'' Instr_out (Some CHR ''r'') None None False,
     entry ''POP'' ''1001000ddddd1111'' Instr_pop (Some CHR ''d'') None None False,
     entry ''PUSH'' ''1001001ddddd1111'' Instr_push (Some CHR ''d'') None None False,
     entry ''RCALL'' ''1101kkkkkkkkkkkk'' Instr_rcalljmp None None None False,
     entry ''RET'' ''1001010100001000'' Instr_ret None None None False,
     entry ''RETI'' ''1001010100011000'' Instr_reti None None None False,
     entry ''RJMP'' ''1100kkkkkkkkkkkk'' Instr_rcalljmp None None None False,
     entry ''ROR'' ''1001010ddddd0111'' Instr_ror (Some CHR ''d'') None None False,
     entry ''SBC'' ''000010rdddddrrrr'' Instr_cpc (Some CHR ''d'') (Some CHR ''r'') None False,
     entry ''SBCI'' ''0100KKKKddddKKKK'' Instr_cpi (Some CHR ''d'') None (Some CHR ''K'') False,
     entry ''SBI'' ''10011010AAAAAbbb'' Instr_cbisbi None (Some CHR ''b'') None False,
     entry ''SBIC'' ''10011001AAAAAbbb'' Instr_sbics None (Some CHR ''b'') None False,
     entry ''SBIS'' ''10011011AAAAAbbb'' Instr_sbics None (Some CHR ''b'') None False,
     entry ''SBIW'' ''10010111KKddKKKK'' Instr_sbiw None None None False,
     entry ''SBRC'' ''1111110rrrrr0bbb'' Instr_sbrcs (Some CHR ''r'') (Some CHR ''b'') None False,
     entry ''SBRS'' ''1111111rrrrr0bbb'' Instr_sbrcs (Some CHR ''r'') (Some CHR ''b'') None False,
     entry ''SLEEP'' ''1001010110001000'' Instr_unimp None None None False,
     entry ''SPM'' ''1001010111101000'' Instr_unimp None None None False,
     entry ''SPM Z+'' ''1001010111111000'' Instr_unimp None None None False,
     entry ''ST X'' ''1001001rrrrr1100'' Instr_stx (Some CHR ''r'') None None False,
     entry ''ST X+'' ''1001001rrrrr1101'' Instr_stx (Some CHR ''r'') None None False,
     entry ''ST -X'' ''1001001rrrrr1110'' Instr_stx (Some CHR ''r'') None None False,
     entry ''ST Y+'' ''1001001rrrrr1001'' Instr_styz (Some CHR ''r'') None None False,
     entry ''ST -Y'' ''1001001rrrrr1010'' Instr_styz (Some CHR ''r'') None None False,
     entry ''STD Y'' ''10q0qq1rrrrr1qqq'' Instr_styz (Some CHR ''r'') None None False,
     entry ''ST Z+'' ''1001001rrrrr0001'' Instr_styz (Some CHR ''r'') None None False,
     entry ''ST -Z'' ''1001001rrrrr0010'' Instr_styz (Some CHR ''r'') None None False,
     entry ''STD Z'' ''10q0qq1rrrrr0qqq'' Instr_styz (Some CHR ''r'') None None False,
     entry ''STS'' ''1001001ddddd0000'' Instr_sts (Some CHR ''d'') None None True,
     entry ''SUB'' ''000110rdddddrrrr'' Instr_cpc (Some CHR ''d'') (Some CHR ''r'') None False,
     entry ''SUBI'' ''0101KKKKddddKKKK'' Instr_cpi (Some CHR ''d'') None (Some CHR ''K'') False,
     entry ''SWAP'' ''1001010ddddd0010'' Instr_swap (Some CHR ''d'') None None False,
     entry ''WDR'' ''1001010110101000'' Instr_unimp None None None False,
     entry ''XCH'' ''1001001rrrrr0100'' Instr_xch (Some CHR ''r'') None None False]"

section \<open>Patterns as masks\<close>

fun pat_mask :: "(nat \<times> char) list \<Rightarrow> u16" where
  "pat_mask [] = 0"
| "pat_mask ((i, c) # ps) = (if c = CHR ''0'' \<or> c = CHR ''1'' then set_bit i (pat_mask ps) else pat_mask ps)"

fun pat_value :: "(nat \<times> char) list \<Rightarrow> u16" where
  "pat_value [] = 0"
| "pat_value ((i, c) # ps) = (if c = CHR ''1'' then set_bit i (pat_value ps) else pat_value ps)"

lemma bit_pat_mask: "bit (pat_mask ps) n \<longleftrightarrow> n < 16 \<and> ((n, CHR ''0'') \<in> set ps \<or> (n, CHR ''1'') \<in> set ps)"
  by (induction ps rule: pat_mask.induct) (auto simp: bit_set_bit_iff)

lemma bit_pat_value: "bit (pat_value ps) n \<longleftrightarrow> n < 16 \<and> (n, CHR ''1'') \<in> set ps"
  by (induction ps rule: pat_value.induct) (auto simp: bit_set_bit_iff)

lemma fits_mask:
  assumes "distinct (map fst ps)" "\<forall>i \<in> fst ` set ps. i < 16"
  shows "fits ps w \<longleftrightarrow> w AND pat_mask ps = pat_value ps"
proof -
  have one: "c = d" if "(n, c) \<in> set ps" "(n, d) \<in> set ps" for n c d
    using assms(1) that by (metis eq_key_imp_eq_value)
  show ?thesis
  proof
    assume f: "fits ps w"
    show "w AND pat_mask ps = pat_value ps"
      by (rule bit_word_eqI) (use f in \<open>auto simp: fits_def list_all_iff bit_and_iff bit_pat_mask bit_pat_value\<close>)
  next
    assume m: "w AND pat_mask ps = pat_value ps"
    have "bit w n \<longleftrightarrow> (n, CHR ''1'') \<in> set ps"
      if "(n, CHR ''0'') \<in> set ps \<or> (n, CHR ''1'') \<in> set ps" for n
    proof -
      have "n < 16" using that assms(2) by force
      then show ?thesis using that arg_cong [OF m, of "\<lambda>x. bit x n"]
        by (simp add: bit_and_iff bit_pat_mask bit_pat_value)
    qed
    then show "fits ps w" using one by (fastforce simp: fits_def list_all_iff)
  qed
qed

lemma positions_ok: "distinct (map fst (positions p))" "\<forall>i \<in> fst ` set (positions p). i < 16"
proof -
  let ?is = "[15, 14, 13, 12, 11, 10, 9, 8, 7, 6, 5, 4, 3, 2, 1, 0] :: nat list"
  have t: "map fst (positions p) = take (length p) ?is"
    by (simp add: positions_def map_fst_zip_take min_def)
  have "distinct ?is" by simp
  then show "distinct (map fst (positions p))" unfolding t by (rule distinct_take)
  have "\<forall>i \<in> set ?is. i < 16" by simp
  moreover have "set (take (length p) ?is) \<subseteq> set ?is" by (rule set_take_subset)
  ultimately show "\<forall>i \<in> fst ` set (positions p). i < 16"
    unfolding set_map [symmetric] t by blast
qed

definition en_mask :: "manual_entry \<Rightarrow> u16" where
  "en_mask en = pat_mask (positions (opcode en))"

definition en_value :: "manual_entry \<Rightarrow> u16" where
  "en_value en = pat_value (positions (opcode en))"

lemma encodes_mask: "encodes en w \<longleftrightarrow> w AND en_mask en = en_value en"
  unfolding encodes_def en_mask_def en_value_def by (rule fits_mask [OF positions_ok])

section \<open>Every entry has its row\<close>

text \<open>Which flag of a row extracts the operand at the given bits.\<close>

definition first_ok :: "nat list \<Rightarrow> instr_decode \<Rightarrow> bool" where
  "first_ok is e = (if is = [] then \<not> ddddd84 e \<and> \<not> dddd74 e \<and> \<not> ddd64 e
     else if is = [8, 7, 6, 5, 4] then ddddd84 e \<and> \<not> dddd74 e \<and> \<not> ddd64 e
     else if is = [7, 6, 5, 4] then dddd74 e \<and> \<not> ddd64 e
     else is = [6, 5, 4] \<and> ddd64 e)"

definition second_ok :: "nat list \<Rightarrow> instr_decode \<Rightarrow> bool" where
  "second_ok is e = (if is = [] then \<not> rrrrr9_30 e \<and> \<not> rrrr30 e \<and> \<not> rrr20 e
     else if is = [9, 3, 2, 1, 0] then rrrrr9_30 e \<and> \<not> rrrr30 e \<and> \<not> rrr20 e
     else if is = [3, 2, 1, 0] then rrrr30 e \<and> \<not> rrr20 e
     else is = [2, 1, 0] \<and> rrr20 e)"

definition const_ok :: "nat list \<Rightarrow> instr_decode \<Rightarrow> bool" where
  "const_ok is e = (if is = [] then \<not> KKKK118_30 e else is = [11, 10, 9, 8, 3, 2, 1, 0] \<and> KKKK118_30 e)"

definition row_ok :: "instr_code \<Rightarrow> bool \<Rightarrow> u16 \<Rightarrow> u16 \<Rightarrow> nat list \<Rightarrow> nat list \<Rightarrow> nat list \<Rightarrow> instr_decode \<Rightarrow> bool" where
  "row_ok c s m v x y k e =
     (if code e = c then
        if imask e AND m = imask e \<and> v AND imask e = pattern e then
          imm16 e = s \<and> first_ok x e \<and> second_ok y e \<and> const_ok k e
        else False
      else False)"

definition has_row :: "manual_entry \<Rightarrow> bool" where
  "has_row en = list_ex (row_ok (routine en) (second_word en) (en_mask en) (en_value en)
     (letter_bits (first_letter en) (opcode en)) (letter_bits (second_letter en) (opcode en))
     (letter_bits (const_letter en) (opcode en))) avr_instr"

lemma all_have_rows: "list_all has_row manual"
  unfolding manual_def list.pred_inject
  by (intro conjI TrueI)
    (simp_all add: has_row_def entry_def en_mask_def en_value_def letter_bits_def positions_def
      avr_instr_def plain_def row_ok_def first_ok_def second_ok_def const_ok_def set_bit_eq_or)

section \<open>Operand values\<close>

lemma bits_value_start:
  "foldl (\<lambda>v i. 2 * v + of_bool (bit w i)) a js = a * 2 ^ length js + bits_value js w"
proof (induction js arbitrary: a)
  case (Cons j js)
  have "bits_value (j # js) w = of_bool (bit w j) * 2 ^ length js + bits_value js w"
    using Cons.IH [of "of_bool (bit w j)"] by (simp add: bits_value_def)
  then show ?case using Cons.IH [of "2 * a + of_bool (bit w j)"] by (simp add: add_mult_distrib)
qed (simp add: bits_value_def)

lemma bits_value_append: "bits_value (is @ js) w = bits_value is w * 2 ^ length js + bits_value js w"
proof -
  have "bits_value (is @ js) w = foldl (\<lambda>v i. 2 * v + of_bool (bit w i)) (bits_value is w) js"
    by (simp add: bits_value_def)
  then show ?thesis by (simp only: bits_value_start)
qed

lemma bits_value_upt: "bits_value (rev [l..<l + k]) w = unat w div 2 ^ l mod 2 ^ k"
proof (induction k)
  case (Suc k)
  have b: "of_bool (bit w (l + k)) = unat w div 2 ^ (l + k) mod 2"
    using bit_unat [of w "l + k"] by (simp add: bit_iff_odd [of "unat w"] mod_2_eq_odd)
  have "unat w div 2 ^ l mod 2 ^ Suc k =
      unat w div 2 ^ l mod 2 ^ k + 2 ^ k * (unat w div 2 ^ l div 2 ^ k mod 2)"
    using mod_mult2_eq [of "unat w div 2 ^ l" "2 ^ k" 2] by (simp add: mult.commute)
  then show ?case
    using Suc bits_value_append [of "[l + k]" "rev [l..<l + k]" w] b
    by (simp add: bits_value_def power_add div_mult2_eq)
qed (simp add: bits_value_def)

lemma segment_values:
  "bits_value [8, 7, 6, 5, 4] w = unat w div 16 mod 32" "bits_value [7, 6, 5, 4] w = unat w div 16 mod 16"
  "bits_value [6, 5, 4] w = unat w div 16 mod 8"
  "bits_value [9, 3, 2, 1, 0] w = unat w mod 16 + 16 * (unat w div 512 mod 2)"
  "bits_value [3, 2, 1, 0] w = unat w mod 16" "bits_value [2, 1, 0] w = unat w mod 8"
  "bits_value [11, 10, 9, 8, 3, 2, 1, 0] w = unat w mod 16 + 16 * (unat w div 256 mod 16)"
proof -
  have u: "bits_value (rev [l..<n]) w = unat w div 2 ^ l mod 2 ^ (n - l)" if "l \<le> n" for l n
    using bits_value_upt [of l "n - l" w] that by simp
  show "bits_value [8, 7, 6, 5, 4] w = unat w div 16 mod 32" "bits_value [7, 6, 5, 4] w = unat w div 16 mod 16"
    "bits_value [6, 5, 4] w = unat w div 16 mod 8"
    using u [of 4 9] u [of 4 8] u [of 4 7] by (simp_all add: upt_rec)
  have l: "[2, 1, 0] = rev [0..<3]" by (simp add: upt_rec numeral_2_eq_2)
  show "bits_value [2, 1, 0] w = unat w mod 8" unfolding l using u [of 0 3] by simp
  have k: "[3, 2, 1, 0] = rev [0..<4]" by (simp add: upt_rec numeral_2_eq_2 numeral_3_eq_3)
  show low: "bits_value [3, 2, 1, 0] w = unat w mod 16" unfolding k using u [of 0 4] by simp
  show "bits_value [9, 3, 2, 1, 0] w = unat w mod 16 + 16 * (unat w div 512 mod 2)"
    "bits_value [11, 10, 9, 8, 3, 2, 1, 0] w = unat w mod 16 + 16 * (unat w div 256 mod 16)"
    using bits_value_append [of "[9]" "[3, 2, 1, 0]" w] bits_value_append [of "[11, 10, 9, 8]" "[3, 2, 1, 0]" w]
      u [of 9 10] u [of 8 12] low by (simp_all add: upt_rec)
qed

lemma first_value:
  assumes "first_ok is e"
  shows "unat (ddddd (decode_fields e w imm)) = operand is w"
proof -
  consider "is = []" "\<not> ddddd84 e" "\<not> dddd74 e" "\<not> ddd64 e"
    | "is = [8, 7, 6, 5, 4]" "ddddd84 e" "\<not> dddd74 e" "\<not> ddd64 e"
    | "is = [7, 6, 5, 4]" "dddd74 e" "\<not> ddd64 e" | "is = [6, 5, 4]" "ddd64 e"
    using assms unfolding first_ok_def by (auto simp only: split: if_splits)
  then show ?thesis
  proof cases
    case 1
    then show ?thesis by (simp add: operand_def decode_fields_def decode_ddddd_def)
  qed (simp_all only: decode_d5 decode_d4 decode_d3 operand_def segment_values op_d5_def op_d4_def op_d3_def
        list.size list.distinct if_False if_True not_False_eq_True, simp_all)
qed

lemma second_value:
  assumes "second_ok is e"
  shows "unat (rrrrr (decode_fields e w imm)) = operand is w"
proof -
  consider "is = []" "\<not> rrrrr9_30 e" "\<not> rrrr30 e" "\<not> rrr20 e"
    | "is = [9, 3, 2, 1, 0]" "rrrrr9_30 e" "\<not> rrrr30 e" "\<not> rrr20 e"
    | "is = [3, 2, 1, 0]" "rrrr30 e" "\<not> rrr20 e" | "is = [2, 1, 0]" "rrr20 e"
    using assms unfolding second_ok_def by (auto simp only: split: if_splits)
  then show ?thesis
  proof cases
    case 1
    then show ?thesis by (simp add: operand_def decode_fields_def decode_rrrrr_def)
  qed (simp_all only: decode_r5 decode_r4 decode_r3 operand_def segment_values op_r5_def op_r4_def op_r3_def
        list.size list.distinct if_False if_True not_False_eq_True, simp_all)
qed

lemma const_value:
  assumes "const_ok is e"
  shows "unat (imm_u8 (decode_fields e w imm)) = bits_value is w"
proof -
  consider "is = []" "\<not> KKKK118_30 e" | "is = [11, 10, 9, 8, 3, 2, 1, 0]" "KKKK118_30 e"
    using assms unfolding const_ok_def by (auto simp only: split: if_splits)
  then show ?thesis
  proof cases
    case 1
    then show ?thesis by (simp add: bits_value_def decode_fields_def decode_imm_u8_def)
  next
    case 2
    have "unat w mod 16 < 16" "unat w div 256 mod 16 < 16" by simp_all
    then have "unat w mod 16 + 16 * (unat w div 256 mod 16) < 256" by linarith
    then show ?thesis
      unfolding 2(1) segment_values decode_K8 [OF 2(2)] op_K8_def by (simp only: unat_of_nat) simp
  qed
qed

section \<open>Every row is covered\<close>

text \<open>
  Every word with the bits \<open>v\<close> under the mask \<open>m\<close> has one of the keys, found by deciding
  the listed bits one after the other.
\<close>

fun covered :: "nat list \<Rightarrow> (u16 \<times> u16) list \<Rightarrow> u16 \<Rightarrow> u16 \<Rightarrow> bool" where
  "covered is ks m v =
     (if list_ex (\<lambda>(k, x). k AND m = k \<and> v AND k = x) ks then True
      else case is of [] \<Rightarrow> False
           | i # js \<Rightarrow> covered js ks (set_bit i m) v \<and> covered js ks (set_bit i m) (set_bit i v))"

declare covered.simps [simp del]

lemma masked_set_bit:
  "w AND m = v \<Longrightarrow> w AND set_bit i m = (if bit w i then set_bit i v else v)" for w :: u16
  by (rule bit_word_eqI) (auto simp: bit_simps)

lemma covered_sound:
  "covered is ks m v \<Longrightarrow> w AND m = v \<Longrightarrow> \<exists>(k, x) \<in> set ks. w AND k = x" for w :: u16
proof (induction "is" ks m v rule: covered.induct)
  case (1 "is" ks m v)
  show ?case
  proof (cases "list_ex (\<lambda>(k, x). k AND m = k \<and> v AND k = x) ks")
    case True
    then obtain k x where k: "(k, x) \<in> set ks" "k AND m = k" "v AND k = x" by (auto simp: list_ex_iff)
    then have "w AND k = x" using masked_sub [OF 1(4)] by simp
    then show ?thesis using k(1) by blast
  next
    case False
    then obtain i js where "is": "is = i # js" using 1(3) by (cases "is") (auto simp: covered.simps)
    then have c: "covered js ks (set_bit i m) v" "covered js ks (set_bit i m) (set_bit i v)"
      using 1(3) False by (subst (asm) covered.simps, simp)+
    show ?thesis
      using 1(1) [OF False "is" c(1)] 1(2) [OF False "is" c(2)] masked_set_bit [OF 1(4), of i]
      by (auto split: if_splits)
  qed
qed

text \<open>The masks and values of the entries, computed once.\<close>

definition manual_keys :: "(instr_code \<times> u16 \<times> u16) list" where
  "manual_keys = [
     (Instr_adc, 0xfc00, 0x1c00), (Instr_adc, 0xfc00, 0x0c00), (Instr_adiw, 0xff00, 0x9600),
     (Instr_and, 0xfc00, 0x2000), (Instr_andi, 0xf000, 0x7000), (Instr_asr, 0xfe0f, 0x9405),
     (Instr_bclrset, 0xff8f, 0x9488), (Instr_bld, 0xfe08, 0xf800), (Instr_brb, 0xfc00,
     0xf400), (Instr_brb, 0xfc00, 0xf000), (Instr_unimp, 0xffff, 0x9598), (Instr_bclrset,
     0xff8f, 0x9408), (Instr_bst, 0xfe08, 0xfa00), (Instr_call, 0xfe0e, 0x940e),
     (Instr_cbisbi, 0xff00, 0x9800), (Instr_com, 0xfe0f, 0x9400), (Instr_cpc, 0xfc00,
     0x1400), (Instr_cpc, 0xfc00, 0x0400), (Instr_cpi, 0xf000, 0x3000), (Instr_cpse, 0xfc00,
     0x1000), (Instr_dec, 0xfe0f, 0x940a), (Instr_des, 0xff0f, 0x940b), (Instr_eicalljump,
     0xffff, 0x9519), (Instr_eicalljump, 0xffff, 0x9419), (Instr_elpm, 0xffff, 0x95d8),
     (Instr_elpmz, 0xfe0f, 0x9006), (Instr_elpmz, 0xfe0f, 0x9007), (Instr_xor, 0xfc00,
     0x2400), (Instr_fmul, 0xff88, 0x0308), (Instr_fmulsu, 0xff88, 0x0380), (Instr_fmulsu,
     0xff88, 0x0388), (Instr_eicalljump, 0xffff, 0x9509), (Instr_eicalljump, 0xffff,
     0x9409), (Instr_in, 0xf800, 0xb000), (Instr_inc, 0xfe0f, 0x9403), (Instr_jmp, 0xfe0e,
     0x940c), (Instr_xch, 0xfe0f, 0x9206), (Instr_xch, 0xfe0f, 0x9205), (Instr_xch, 0xfe0f,
     0x9207), (Instr_ldx, 0xfe0f, 0x900c), (Instr_ldx, 0xfe0f, 0x900d), (Instr_ldx, 0xfe0f,
     0x900e), (Instr_ldyz, 0xfe0f, 0x9009), (Instr_ldyz, 0xfe0f, 0x900a), (Instr_ldyz,
     0xd208, 0x8008), (Instr_ldyz, 0xfe0f, 0x9001), (Instr_ldyz, 0xfe0f, 0x9002),
     (Instr_ldyz, 0xd208, 0x8000), (Instr_ldi, 0xf000, 0xe000), (Instr_lds, 0xfe0f, 0x9000),
     (Instr_elpm, 0xffff, 0x95c8), (Instr_elpmz, 0xfe0f, 0x9004), (Instr_elpmz, 0xfe0f,
     0x9005), (Instr_lsr, 0xfe0f, 0x9406), (Instr_mov, 0xfc00, 0x2c00), (Instr_movw, 0xff00,
     0x0100), (Instr_mul, 0xfc00, 0x9c00), (Instr_muls, 0xff00, 0x0200), (Instr_mulsu,
     0xff88, 0x0300), (Instr_neg, 0xfe0f, 0x9401), (Instr_nop, 0xffff, 0x0000), (Instr_or,
     0xfc00, 0x2800), (Instr_ori, 0xf000, 0x6000), (Instr_out, 0xf800, 0xb800), (Instr_pop,
     0xfe0f, 0x900f), (Instr_push, 0xfe0f, 0x920f), (Instr_rcalljmp, 0xf000, 0xd000),
     (Instr_ret, 0xffff, 0x9508), (Instr_reti, 0xffff, 0x9518), (Instr_rcalljmp, 0xf000,
     0xc000), (Instr_ror, 0xfe0f, 0x9407), (Instr_cpc, 0xfc00, 0x0800), (Instr_cpi, 0xf000,
     0x4000), (Instr_cbisbi, 0xff00, 0x9a00), (Instr_sbics, 0xff00, 0x9900), (Instr_sbics,
     0xff00, 0x9b00), (Instr_sbiw, 0xff00, 0x9700), (Instr_sbrcs, 0xfe08, 0xfc00),
     (Instr_sbrcs, 0xfe08, 0xfe00), (Instr_unimp, 0xffff, 0x9588), (Instr_unimp, 0xffff,
     0x95e8), (Instr_unimp, 0xffff, 0x95f8), (Instr_stx, 0xfe0f, 0x920c), (Instr_stx,
     0xfe0f, 0x920d), (Instr_stx, 0xfe0f, 0x920e), (Instr_styz, 0xfe0f, 0x9209),
     (Instr_styz, 0xfe0f, 0x920a), (Instr_styz, 0xd208, 0x8208), (Instr_styz, 0xfe0f,
     0x9201), (Instr_styz, 0xfe0f, 0x9202), (Instr_styz, 0xd208, 0x8200), (Instr_sts,
     0xfe0f, 0x9200), (Instr_cpc, 0xfc00, 0x1800), (Instr_cpi, 0xf000, 0x5000), (Instr_swap,
     0xfe0f, 0x9402), (Instr_unimp, 0xffff, 0x95a8), (Instr_xch, 0xfe0f, 0x9204)]"

lemma manual_keys_eq: "map (\<lambda>en. (routine en, en_mask en, en_value en)) manual = manual_keys"
  unfolding manual_def manual_keys_def list.map list.inject
  by (intro conjI TrueI)
    (simp_all add: entry_def en_mask_def en_value_def positions_def set_bit_eq_or)

definition key_at :: "nat \<Rightarrow> u16 \<times> u16" where
  "key_at i = snd (manual_keys ! i)"

text \<open>
  For each row of the table, the bits that it leaves open and its entries decide, and the numbers
  of these entries.
\<close>

definition row_plan :: "(nat list \<times> nat list) list" where
  "row_plan = [
     ([], [60]), ([], [55]), ([], [57]), ([], [58]), ([], [28]), ([3], [29, 30]), ([12],
     [16, 17]), ([12], [71, 92]), ([12], [0, 1]), ([], [19]), ([], [3]), ([], [27]), ([],
     [61]), ([], [54]), ([], [18]), ([12], [72, 93]), ([], [62]), ([], [4]), ([3], [44,
     47]), ([3], [87, 90]), ([], [49]), ([3], [42, 45]), ([3], [43, 46]), ([1, 0], [25, 26,
     51, 52]), ([0], [39, 40]), ([], [41]), ([], [64]), ([], [91]), ([3], [85, 88]), ([3],
     [86, 89]), ([1, 0], [36, 37, 38, 96]), ([0], [82, 83]), ([], [84]), ([], [65]), ([],
     [15]), ([], [59]), ([], [94]), ([], [34]), ([], [5]), ([], [53]), ([], [70]), ([7], [6,
     11]), ([], [20]), ([], [21]), ([], [35]), ([], [13]), ([], [67]), ([8, 4], [22, 23, 31,
     32]), ([], [68]), ([], [79]), ([], [10]), ([], [95]), ([4], [24, 50]), ([], [80]), ([],
     [81]), ([], [2]), ([], [76]), ([9], [14, 73]), ([9], [74, 75]), ([], [56]), ([], [33]),
     ([], [63]), ([12], [66, 69]), ([], [48]), ([10], [8, 9]), ([], [7]), ([], [12]), ([9],
     [77, 78])]"

definition row_covered :: "instr_decode \<Rightarrow> nat list \<times> nat list \<Rightarrow> bool" where
  "row_covered e p = covered (fst p) (map key_at (snd p)) (imask e) (pattern e)"

lemma plan_numbers: "list_all (\<lambda>p. list_all (\<lambda>i. i < length manual) (snd p)) row_plan"
proof -
  have "length manual = 97" by (simp add: manual_def)
  then show ?thesis by (simp add: row_plan_def)
qed

lemma rows_covered: "list_all2 row_covered avr_instr row_plan"
  unfolding avr_instr_def row_plan_def list_all2_Cons list_all2_Nil
  by (intro conjI refl TrueI)
    (simp_all add: row_covered_def key_at_def manual_keys_def covered.simps plain_def set_bit_eq_or)

section \<open>The table is the manual\<close>

lemma entry_has_row:
  assumes "en \<in> set manual" "encodes en w"
  shows "\<exists>e. lookup w = Some e \<and> row_ok (routine en) (second_word en) (en_mask en) (en_value en)
     (letter_bits (first_letter en) (opcode en)) (letter_bits (second_letter en) (opcode en))
     (letter_bits (const_letter en) (opcode en)) e"
proof -
  obtain e where e: "e \<in> set avr_instr" "row_ok (routine en) (second_word en) (en_mask en) (en_value en)
     (letter_bits (first_letter en) (opcode en)) (letter_bits (second_letter en) (opcode en))
     (letter_bits (const_letter en) (opcode en)) e"
    using all_have_rows assms(1) by (auto simp: list_all_iff has_row_def list_ex_iff)
  then have "lookup w = Some e"
    using assms(2) by (intro lookup_masked [of _ "en_mask en" "en_value en"])
      (auto simp: encodes_mask row_ok_def split: if_splits)
  then show ?thesis using e(2) by blast
qed

lemma row_has_entry:
  assumes "lookup w = Some e"
  shows "\<exists>en \<in> set manual. encodes en w"
proof -
  have e: "e \<in> set avr_instr" "w AND imask e = pattern e"
    using lookup_Some [OF assms] by (auto simp: matches_def)
  then obtain p where p: "p \<in> set row_plan" "row_covered e p"
    using rows_covered by (metis in_set_conv_nth list_all2_conv_all_nth)
  then obtain k x where "(k, x) \<in> set (map key_at (snd p))" "w AND k = x"
    using covered_sound e(2) unfolding row_covered_def by blast
  then obtain i where i: "i \<in> set (snd p)" "key_at i = (k, x)" by auto
  then have l: "i < length manual" using plan_numbers p(1) by (auto simp: list_all_iff)
  then have "key_at i = (en_mask (manual ! i), en_value (manual ! i))"
    by (simp add: key_at_def flip: manual_keys_eq)
  then have "encodes (manual ! i) w" using i(2) \<open>w AND k = x\<close> by (simp add: encodes_mask)
  then show ?thesis using l nth_mem by blast
qed

lemma undefined_word: "lookup w = None \<longleftrightarrow> \<not> (\<exists>en \<in> set manual. encodes en w)"
  using entry_has_row row_has_entry by (cases "lookup w") fastforce+



text \<open>
C2: The table search agrees with an independent transcription of the instruction-set manual: a
word that an entry's bit pattern encodes is dispatched to the routine of that entry, with the
operands and the constant that the letters of the pattern spell, and a word is undefined exactly
when no entry encodes it.
\<close>

theorem decode_manual:
  "(\<forall>en \<in> set manual. encodes en w \<longrightarrow> (\<exists>e. lookup w = Some e \<and> code e = routine en \<and> imm16 e = second_word en \<and>
      unat (ddddd (decode_fields e w imm)) = operand (letter_bits (first_letter en) (opcode en)) w \<and>
      unat (rrrrr (decode_fields e w imm)) = operand (letter_bits (second_letter en) (opcode en)) w \<and>
      unat (imm_u8 (decode_fields e w imm)) = bits_value (letter_bits (const_letter en) (opcode en)) w)) \<and>
   (lookup w = None \<longleftrightarrow> \<not> (\<exists>en \<in> set manual. encodes en w))"
proof (intro conjI ballI impI)
  fix en
  assume "en \<in> set manual" "encodes en w"
  from entry_has_row [OF this] show "\<exists>e. lookup w = Some e \<and> code e = routine en \<and> imm16 e = second_word en \<and>
      unat (ddddd (decode_fields e w imm)) = operand (letter_bits (first_letter en) (opcode en)) w \<and>
      unat (rrrrr (decode_fields e w imm)) = operand (letter_bits (second_letter en) (opcode en)) w \<and>
      unat (imm_u8 (decode_fields e w imm)) = bits_value (letter_bits (const_letter en) (opcode en)) w"
    by (auto simp: row_ok_def first_value second_value const_value split: if_splits)
next
  show "lookup w = None \<longleftrightarrow> \<not> (\<exists>en \<in> set manual. encodes en w)" by (rule undefined_word)
qed

lemma decode_manual_witness:
  "\<exists>e. lookup 0x0c21 = Some e \<and> code e = Instr_adc \<and> unat (ddddd (decode_fields e 0x0c21 0)) = 2 \<and>
     unat (rrrrr (decode_fields e 0x0c21 0)) = 1"
proof -
  let ?en = "entry ''ADD'' ''000011rdddddrrrr'' Instr_adc (Some CHR ''d'') (Some CHR ''r'') None False"
  have "?en \<in> set manual" unfolding manual_def by simp
  moreover have "encodes ?en 0x0c21"
    by (simp add: encodes_def entry_def positions_def fits_def)
  moreover have "operand (letter_bits (Some CHR ''d'') ''000011rdddddrrrr'') 0x0c21 = 2"
    "operand (letter_bits (Some CHR ''r'') ''000011rdddddrrrr'') 0x0c21 = 1"
    by (simp_all add: letter_bits_def positions_def operand_def bits_value_def)
  ultimately show ?thesis using decode_manual [of "0x0c21" 0] by (fastforce simp: entry_def)
qed

lemma undefined_word_stops:
  assumes "unat (pc s) < FLASH_SIZE - 2" "\<not> (\<exists>en \<in> set manual. encodes en (flash s (unat (pc s))))"
  shows "emulate1 des s = Inl (Illegal_instr (flash s (unat (pc s))))"
proof -
  have l: "lookup (flash s (unat (pc s))) = None" using assms(2) undefined_word by blast
  have "unat (pc s + 1) = unat (pc s) + 1" "unat (pc s + 2) = unat (pc s) + 2"
    using assms(1) by (simp_all add: unat_word_ariths)
  then have "report_oob (s\<lparr>pc_start := pc s, instr_size := 1\<rparr>) = None"
    using assms(1) by (simp add: report_oob_def)
  then have "fetch s = Inl (Illegal_instr (flash s (unat (pc s))))"
    using assms(1) l by (simp add: fetch_def rom_in_range illins_def)
  then show ?thesis by (simp add: emulate1.simps emulate1_pass_def)
qed

section \<open>The type of the operands\<close>

text \<open>
  What the routines expect of their operands: any register, one of the upper sixteen, one of
  \<open>R16\<close> to \<open>R23\<close>, a bit number (which the decoder also counts from sixteen), or none.
\<close>

definition reg :: "u8 \<Rightarrow> bool" where "reg d \<longleftrightarrow> d < 32"
definition upper_reg :: "u8 \<Rightarrow> bool" where "upper_reg d \<longleftrightarrow> 16 \<le> d \<and> d < 32"
definition low_upper :: "u8 \<Rightarrow> bool" where "low_upper d \<longleftrightarrow> 16 \<le> d \<and> d < 24"

definition operand_type :: "instr_code \<Rightarrow> u8 \<Rightarrow> u8 \<Rightarrow> bool" where
  "operand_type c d r \<longleftrightarrow>
     (if c \<in> {Instr_cpc, Instr_adc, Instr_cpse, Instr_and, Instr_xor, Instr_or, Instr_mov, Instr_mul}
      then reg d \<and> reg r
      else if c \<in> {Instr_movw, Instr_muls} then upper_reg d \<and> upper_reg r
      else if c \<in> {Instr_mulsu, Instr_fmul, Instr_fmulsu} then low_upper d \<and> low_upper r
      else if c \<in> {Instr_cpi, Instr_ori, Instr_andi, Instr_ldi, Instr_des} then upper_reg d \<and> r = 0
      else if c \<in> {Instr_bld, Instr_bst, Instr_sbrcs} then reg d \<and> low_upper r
      else if c \<in> {Instr_cbisbi, Instr_sbics, Instr_brb} then d = 0 \<and> low_upper r
      else if c = Instr_bclrset then low_upper d \<and> r = 0
      else if c \<in> {Instr_nop, Instr_jmp, Instr_call, Instr_ret, Instr_reti, Instr_eicalljump, Instr_rcalljmp,
          Instr_elpm, Instr_adiw, Instr_sbiw, Instr_unimp}
      then d = 0 \<and> r = 0
      else reg d \<and> r = 0)"

definition first_class :: "instr_decode \<Rightarrow> u8 \<Rightarrow> bool" where
  "first_class e d \<longleftrightarrow> (if ddd64 e then low_upper d else if dddd74 e then upper_reg d
     else if ddddd84 e then reg d else d = 0)"

definition second_class :: "instr_decode \<Rightarrow> u8 \<Rightarrow> bool" where
  "second_class e r \<longleftrightarrow> (if rrr20 e then low_upper r else if rrrr30 e then upper_reg r
     else if rrrrr9_30 e then reg r else r = 0)"

lemma fields_class:
  "first_class e (ddddd (decode_fields e w imm))" "second_class e (rrrrr (decode_fields e w imm))"
proof -
  have m: "unat w div 16 mod 32 < 32" "unat w div 16 mod 16 < 16" "unat w div 16 mod 8 < 8"
    "unat w mod 16 < 16" "unat w mod 8 < 8" "unat w div 512 mod 2 < 2" by simp_all
  show "first_class e (ddddd (decode_fields e w imm))"
    using decode_d5 [of e w imm] decode_d4 [of e w imm] decode_d3 [of e w imm] m(1-3)
    by (auto simp: first_class_def reg_def upper_reg_def low_upper_def word_less_nat_alt word_le_nat_alt
        op_d5_def op_d4_def op_d3_def decode_fields_def decode_ddddd_def simp del: bits_literals)
  show "second_class e (rrrrr (decode_fields e w imm))"
    using decode_r5 [of e w imm] decode_r4 [of e w imm] decode_r3 [of e w imm] m(4-6)
    by (auto simp: second_class_def reg_def upper_reg_def low_upper_def word_less_nat_alt word_le_nat_alt
        op_r5_def op_r4_def op_r3_def decode_fields_def decode_rrrrr_def simp del: bits_literals)
qed

lemma rows_typed:
  "\<forall>e \<in> set avr_instr. first_class e d \<and> second_class e r \<longrightarrow> operand_type (code e) d r"
  by (simp add: avr_instr_def plain_def first_class_def second_class_def operand_type_def)

text \<open>
C22: Every decoded word hands its routine operands of the kind the routine expects: any
register, one of the upper sixteen, one of R16 to R23, a bit number, or none.
\<close>

theorem operands_typed:
  assumes "lookup w = Some e"
  shows "operand_type (code e) (ddddd (decode_fields e w imm)) (rrrrr (decode_fields e w imm))"
  using lookup_Some [OF assms] rows_typed fields_class by blast

lemma operands_typed_witness:
  "\<exists>e. lookup 0x0c21 = Some e \<and> operand_type (code e) (ddddd (decode_fields e 0x0c21 0)) (rrrrr (decode_fields e 0x0c21 0)) \<and>
     code e = Instr_adc"
proof -
  obtain e where e: "lookup 0x0c21 = Some e" "code e = Instr_adc"
    by (simp add: lookup_def avr_instr_def plain_def matches_def)
  then show ?thesis using operands_typed [OF e(1), of 0] by blast
qed

end
