(* ===== verification/Gdb_Wire.thy ===== *)
theory Gdb_Wire
  imports Emulate "HOL-Library.Sublist"
begin

text \<open>
  The bottom layer of \<open>gdbstub.c\<close>: the state of the debugger stub, the pieces of the C
  library that it reads packets with (\<open>sscanf\<close> of hexadecimal numbers, over the rest of a
  byte array from a pointer on), checksums, and the sending of framed replies.
\<close>

unbundle bit_operations_syntax

section \<open>Why the stub stops the program\<close>

text \<open>
  \<open>Stop_assert n\<close> is the failed \<open>ASSERT\<close> at line \<open>n\<close> of \<open>gdbstub.c\<close>,
  \<open>Stop_exit\<close> and \<open>Stop_err\<close> are calls of \<open>exit\<close> and \<open>err\<close> with their
  status. The last three are no decision of the program: an access outside an array at an index,
  a number too large for the \<open>unsigned\<close> that \<open>sscanf\<close> stores it in (both undefined in
  C), and a fault of the emulated instruction.
\<close>

datatype stop =
    Stop_assert nat
  | Stop_exit nat
  | Stop_err nat
  | Stop_array nat
  | Stop_range
  | Stop_core fault

section \<open>State\<close>

text \<open>
  What one turn of the loop of \<open>gdbstub_interactive\<close> gets from the kernel: the outcome of
  \<open>poll\<close>, if it is called, and of \<open>recv\<close> (bytes, an orderly shutdown, \<open>EAGAIN\<close>,
  another error).
\<close>

datatype recv_result = Received "u8 list" | Closed | Nothing | Failed

record turn =
  poll_ok :: bool
  recv_out :: recv_result

text \<open>
  The global variables of \<open>gdbstub.c\<close>, with the machine, and the other end of the socket:
  the bytes \<open>sent\<close> so far, the results of the coming calls of \<open>send\<close> (a list that has
  run out means that \<open>send\<close> takes all it is given), and the coming turns. \<open>lsock\<close>
  and \<open>csock\<close> are true when the listening socket and the client's are open. The breakpoint table is GLib's and its type a parameter.
\<close>

record 'h stub =
  mach :: machine
  lsock :: bool
  csock :: bool
  execute :: bool
  breakpoints :: 'h
  clientbuf :: "u8 list"
  cblen :: nat
  sent :: "u8 list"
  sends :: "int list"
  turns :: "turn list"

definition PKT_BUF_MAX :: nat where [simp]: "PKT_BUF_MAX = 0x2000"

section \<open>Strings\<close>

text \<open>
  A \<open>char *\<close> is the rest of its array from the pointer on; a string ends at the first
  zero byte, and a function that reads past the array stops with \<open>Stop_array\<close>. \<open>lit\<close>
  is the array of a string literal.
\<close>

definition bytes :: "string \<Rightarrow> u8 list" where
  "bytes s = map of_char s"

definition lit :: "string \<Rightarrow> u8 list" where
  "lit s = bytes s @ [0]"

fun c_string :: "u8 list \<Rightarrow> stop + u8 list" where
  "c_string [] = Inl (Stop_array 0)"
| "c_string (c # s) =
     (if c = 0 then Inr [] else bindR (c_string s) (\<lambda>r. Inr (c # r)))"

definition deref :: "u8 list \<Rightarrow> stop + u8" where
  "deref p = (case p of [] \<Rightarrow> Inl (Stop_array 0) | c # _ \<Rightarrow> Inr c)"

text \<open>\<open>memchr\<close> of the first \<open>n\<close> bytes, as an offset.\<close>

fun memchr :: "u8 \<Rightarrow> nat \<Rightarrow> u8 list \<Rightarrow> nat option" where
  "memchr c 0 s = None"
| "memchr c (Suc n) [] = None"
| "memchr c (Suc n) (x # s) = (if x = c then Some 0 else map_option Suc (memchr c n s))"

definition streq :: "u8 list \<Rightarrow> u8 list \<Rightarrow> stop + bool" where
  "streq s1 s2 = bindR (c_string s1) (\<lambda>a. bindR (c_string s2) (\<lambda>b. Inr (a = b)))"

text \<open>\<open>strncmp\<close> with the length of the prefix stops at the first difference, so it reads
  no further than the haystack's terminator.\<close>

definition startswith :: "u8 list \<Rightarrow> u8 list \<Rightarrow> bool" where
  "startswith haystack pre = (take (length pre) haystack = pre)"

section \<open>Scanning numbers\<close>

text \<open>
  \<open>sscanf\<close> with \<open>%x\<close>, as the C standard has it: skip white space, then an optional
  sign, an optional \<open>0x\<close> and hexadecimal digits, all within the field width if there is
  one. \<open>Inr None\<close> is a matching failure; a result gives the value and the unread rest.
\<close>

type_synonym 'a scan = "stop + ('a \<times> u8 list) option"

definition is_space :: "u8 \<Rightarrow> bool" where
  "is_space c \<longleftrightarrow> c = 32 \<or> 9 \<le> c \<and> c \<le> 13"

definition hex_val :: "u8 \<Rightarrow> nat option" where
  "hex_val c = (if 48 \<le> c \<and> c \<le> 57 then Some (unat c - 48)
     else if 97 \<le> c \<and> c \<le> 102 then Some (unat c - 87)
     else if 65 \<le> c \<and> c \<le> 70 then Some (unat c - 55) else None)"

fun scan_space :: "u8 list \<Rightarrow> stop + u8 list" where
  "scan_space [] = Inl (Stop_array 0)"
| "scan_space (c # s) = (if is_space c then scan_space s else Inr (c # s))"

text \<open>The characters a field may still have (\<open>None\<close>: no width was given).\<close>

definition width_left :: "nat \<Rightarrow> nat option \<Rightarrow> bool" where
  "width_left n w = (case w of None \<Rightarrow> True | Some m \<Rightarrow> n \<le> m)"

definition width_use :: "nat \<Rightarrow> nat option \<Rightarrow> nat option" where
  "width_use n w = map_option (\<lambda>m. m - n) w"

fun scan_digits :: "nat option \<Rightarrow> u8 list \<Rightarrow> stop + (nat list \<times> u8 list)" where
  "scan_digits w [] = (if width_left 1 w then Inl (Stop_array 0) else Inr ([], []))"
| "scan_digits w (c # s) =
     (if \<not> width_left 1 w then Inr ([], c # s)
      else case hex_val c of
             None \<Rightarrow> Inr ([], c # s)
           | Some d \<Rightarrow> bindR (scan_digits (width_use 1 w) s) (\<lambda>(ds, r). Inr (d # ds, r)))"

definition scan_sign :: "nat option \<Rightarrow> u8 list \<Rightarrow> bool \<times> nat option \<times> u8 list" where
  "scan_sign w s = (case s of
     c # r \<Rightarrow> if width_left 1 w \<and> (c = 43 \<or> c = 45) then (c = 45, width_use 1 w, r) else (False, w, s)
   | [] \<Rightarrow> (False, w, s))"

definition scan_0x :: "nat option \<Rightarrow> u8 list \<Rightarrow> nat option \<times> u8 list" where
  "scan_0x w s = (case s of
     c # x # r \<Rightarrow> if width_left 2 w \<and> c = 48 \<and> (x = 120 \<or> x = 88) then (width_use 2 w, r) else (w, s)
   | _ \<Rightarrow> (w, s))"

definition digits_value :: "nat list \<Rightarrow> nat" where
  "digits_value ds = foldl (\<lambda>v d. 16 * v + d) 0 ds"

definition scan_hex :: "nat option \<Rightarrow> u8 list \<Rightarrow> u32 scan" where
  "scan_hex w s =
     bindR (scan_space s) (\<lambda>s.
     let (neg, w, s) = scan_sign w s;
         (w, s) = scan_0x w s
     in bindR (scan_digits w s) (\<lambda>(ds, r).
        if ds = [] then Inr None
        else if 2 ^ 32 \<le> digits_value ds then Inl Stop_range
        else Inr (Some (if neg then - of_nat (digits_value ds) else of_nat (digits_value ds), r))))"

definition scan_char :: "u8 \<Rightarrow> u8 list \<Rightarrow> unit scan" where
  "scan_char c s = (case s of [] \<Rightarrow> Inl (Stop_array 0)
     | x # r \<Rightarrow> Inr (if x = c then Some ((), r) else None))"

text \<open>One directive after another: the second is tried only where the first matched.\<close>

definition then_scan :: "'a scan \<Rightarrow> ('a \<Rightarrow> u8 list \<Rightarrow> 'b scan) \<Rightarrow> 'b scan" where
  "then_scan m f = bindR m (\<lambda>r. case r of None \<Rightarrow> Inr None | Some (v, s) \<Rightarrow> f v s)"

text \<open>The check \<open>ASSERT(rc == n)\<close> that all directives of the format matched.\<close>

definition matched :: "nat \<Rightarrow> 'a scan \<Rightarrow> stop + 'a" where
  "matched line m = bindR m (\<lambda>r. case r of None \<Rightarrow> Inl (Stop_assert line) | Some (v, _) \<Rightarrow> Inr v)"

section \<open>Printing\<close>

text \<open>\<open>%02x\<close> of a value below 256.\<close>

definition hex2 :: "u8 \<Rightarrow> u8 list" where
  "hex2 v = [hex_digit (ucast (drop_bit 4 v)), hex_digit (ucast (v AND 15))]"

section \<open>Checksum and sending\<close>

fun cksum_loop :: "u8 \<Rightarrow> u8 list \<Rightarrow> u64 \<Rightarrow> stop + u8" where
  "cksum_loop acc s len =
     (if len = 0 then Inr acc
      else case s of
             [] \<Rightarrow> Inl (Stop_array 0)
           | c # r \<Rightarrow> if c = 0 then Inr acc else cksum_loop (acc + c) r (len - 1))"

declare cksum_loop.simps [simp del]

definition gdb_cksum :: "u8 list \<Rightarrow> u64 \<Rightarrow> stop + u8" where
  "gdb_cksum v len = cksum_loop 0 v len"

definition gdb_cksumstr :: "u8 list \<Rightarrow> stop + u8" where
  "gdb_cksumstr s = gdb_cksum s (- 1)"

text \<open>The loop of \<open>gdb_sendraw\<close>: \<open>send\<close> may take only a part.\<close>

function send_loop :: "u8 list \<Rightarrow> 'h stub \<Rightarrow> stop + 'h stub" where
  "send_loop p g =
     (if p = [] then Inr g
      else case sends g of
             [] \<Rightarrow> Inr (g\<lparr>sent := sent g @ p\<rparr>)
           | wr # rest \<Rightarrow>
               if wr \<le> 0 then Inl (Stop_assert 114)
               else send_loop (drop (nat wr) p)
                      (g\<lparr>sends := rest, sent := sent g @ take (nat wr) p\<rparr>))"
  by pat_completeness auto
termination by (relation "measure (\<lambda>(p, g). length p)") auto

declare send_loop.simps [simp del]

definition gdb_sendraw :: "u8 list \<Rightarrow> 'h stub \<Rightarrow> stop + 'h stub" where
  "gdb_sendraw p g = (if \<not> csock g then Inl (Stop_assert 110) else send_loop p g)"

definition gdb_sendrawstr :: "u8 list \<Rightarrow> 'h stub \<Rightarrow> stop + 'h stub" where
  "gdb_sendrawstr s g = bindR (c_string s) (\<lambda>p. gdb_sendraw p g)"

text \<open>
  \<open>gdb_sendstr\<close> formats into 4096 bytes but sends as many bytes as the whole frame has:
  \<open>snprintf\<close> returns the length that the untruncated output would have had.
\<close>

definition gdb_sendstr :: "u8 list \<Rightarrow> 'h stub \<Rightarrow> stop + 'h stub" where
  "gdb_sendstr s g =
     (if \<not> csock g then Inl (Stop_assert 134)
      else
        bindR (gdb_cksumstr s) (\<lambda>chk.
        bindR (c_string s) (\<lambda>str.
        let out = bytes ''$'' @ str @ bytes ''#'' @ hex2 chk;
            len = length out;
            buf = take 4095 out @ [0]
        in if length buf < len then Inl (Stop_array 4096)
           else gdb_sendraw (take len buf) g)))"

section \<open>Sending\<close>

fun sends_left :: "int list \<Rightarrow> nat \<Rightarrow> int list" where
  "sends_left [] n = []"
| "sends_left (w # ws) n = (if n = 0 then w # ws else sends_left ws (n - nat w))"

definition reply :: "u8 list \<Rightarrow> 'h stub \<Rightarrow> 'h stub" where
  "reply bs g = g\<lparr>sent := sent g @ bs, sends := sends_left (sends g) (length bs)\<rparr>"

definition link_ok :: "'h stub \<Rightarrow> bool" where
  "link_ok g \<longleftrightarrow> csock g \<and> (\<forall>w \<in> set (sends g). 0 < w)"

definition framed :: "u8 list \<Rightarrow> u8 list" where
  "framed s = bytes ''$'' @ s @ bytes ''#'' @ hex2 (sum_list s)"

lemma reply_simps [simp]:
  "sent (reply bs g) = sent g @ bs" "mach (reply bs g) = mach g" "lsock (reply bs g) = lsock g" "csock (reply bs g) = csock g"
  "execute (reply bs g) = execute g" "breakpoints (reply bs g) = breakpoints g"
  "clientbuf (reply bs g) = clientbuf g" "cblen (reply bs g) = cblen g"
  "turns (reply bs g) = turns g"
  by (simp_all add: reply_def)

lemma sends_left_subset: "set (sends_left ws n) \<subseteq> set ws"
  by (induction ws n rule: sends_left.induct) auto

lemma link_ok_reply [simp]: "link_ok g \<Longrightarrow> link_ok (reply bs g)"
  using sends_left_subset by (fastforce simp: link_ok_def reply_def)

lemma link_ok_cong [simp]:
  "link_ok (g\<lparr>mach := m\<rparr>) = link_ok g" "link_ok (g\<lparr>execute := e\<rparr>) = link_ok g"
  "link_ok (g\<lparr>clientbuf := b\<rparr>) = link_ok g" "link_ok (g\<lparr>breakpoints := h\<rparr>) = link_ok g"
  "link_ok (g\<lparr>cblen := n\<rparr>) = link_ok g" "link_ok (g\<lparr>turns := ts\<rparr>) = link_ok g"
  by (simp_all add: link_ok_def)

lemma send_loop_reply:
  assumes "\<forall>w \<in> set (sends g). 0 < w"
  shows "send_loop p g = Inr (reply p g)"
  using assms
proof (induction p g rule: send_loop.induct)
  case (1 p g)
  show ?case
  proof (cases "p = [] \<or> sends g = []")
    case True
    then show ?thesis
      by (subst send_loop.simps) (cases g; cases "sends g"; auto simp: reply_def)
  next
    case False
    then obtain w ws where ws: "sends g = w # ws" "p \<noteq> []" by (cases "sends g") auto
    then have "0 < w" using "1.prems" by simp
    then show ?thesis
      using "1.IH" [of w ws] "1.prems" ws
      by (subst send_loop.simps) (simp add: reply_def)
  qed
qed

lemma sendraw_reply [simp]: "link_ok g \<Longrightarrow> gdb_sendraw p g = Inr (reply p g)"
  by (simp add: gdb_sendraw_def link_ok_def send_loop_reply)

section \<open>Strings and checksums\<close>

lemma c_string_append [simp]: "0 \<notin> set s \<Longrightarrow> c_string (s @ 0 # r) = Inr s"
  by (induction s) auto

lemma cksum_string:
  assumes "0 \<notin> set s" "length s \<le> unat len"
  shows "cksum_loop acc (s @ 0 # r) len = Inr (acc + sum_list s)"
  using assms
proof (induction s arbitrary: acc len)
  case Nil
  then show ?case by (subst cksum_loop.simps) simp
next
  case (Cons c s)
  then have "len \<noteq> 0" by auto
  moreover from this have "unat (len - 1) = unat len - 1" by (simp add: unat_minus_one)
  ultimately show ?case
    using Cons by (subst cksum_loop.simps) (auto simp: ac_simps)
qed

lemma cksum_exact:
  assumes "0 \<notin> set s" "unat len = length s"
  shows "cksum_loop acc (s @ r) len = Inr (acc + sum_list s)"
  using assms
proof (induction s arbitrary: acc len)
  case Nil
  then have "len = 0" by (simp add: unat_eq_0)
  then show ?case by (subst cksum_loop.simps) simp
next
  case (Cons c s)
  then have "len \<noteq> 0" by auto
  moreover from this have "unat (len - 1) = unat len - 1" by (simp add: unat_minus_one)
  ultimately show ?case
    using Cons by (subst cksum_loop.simps) (auto simp: ac_simps)
qed

lemma length_framed [simp]: "length (framed s) = length s + 4"
  by (simp add: framed_def bytes_def hex2_def)

lemma sendstr_cases:
  assumes "link_ok g" "0 \<notin> set s" "length s < 2 ^ 64"
  shows "gdb_sendstr (s @ 0 # r) g =
    (if length s + 4 < 4096 then Inr (reply (framed s) g)
     else if length s + 4 = 4096 then Inr (reply (take 4095 (framed s) @ [0]) g)
     else Inl (Stop_array 4096))"
proof -
  have "unat (- 1 :: u64) = 2 ^ 64 - 1" by (simp add: unsigned_minus_1_eq_mask mask_eq_exp_minus_1)
  then have "gdb_cksumstr (s @ 0 # r) = Inr (sum_list s)"
    using assms(2,3) by (simp add: gdb_cksumstr_def gdb_cksum_def cksum_string)
  moreover have "csock g" using assms(1) by (simp add: link_ok_def)
  ultimately have "gdb_sendstr (s @ 0 # r) g =
      (if length (take 4095 (framed s) @ [0]) < length (framed s) then Inl (Stop_array 4096)
       else gdb_sendraw (take (length (framed s)) (take 4095 (framed s) @ [0])) g)"
    by (simp only: gdb_sendstr_def Let_def bindR.simps c_string_append [OF assms(2)]
        not_True_eq_False if_False framed_def)
  then show ?thesis
    using assms(1) by simp
qed

lemma sendstr_reply:
  assumes "link_ok g" "0 \<notin> set s" "length s \<le> 4091"
  shows "gdb_sendstr (s @ 0 # r) g = Inr (reply (framed s) g)"
  using sendstr_cases [OF assms(1,2), of r] assms(3) by simp

section \<open>Numbers\<close>

lemma hex_val_char:
  assumes "hex_val c = Some d"
  shows "\<not> is_space c" "c \<noteq> 0" "c \<noteq> 35" "c \<noteq> 43" "c \<noteq> 44" "c \<noteq> 45" "c \<noteq> 58" "c \<noteq> 88" "c \<noteq> 120"
  using assms by (auto simp: hex_val_def is_space_def word_le_nat_alt split: if_splits)

lemma hex_val_less: "hex_val c = Some d \<Longrightarrow> d < 16"
  by (auto simp: hex_val_def word_le_nat_alt split: if_splits)

lemma hex_val_digit:
  assumes "n < 16"
  shows "hex_val (hex_digit n) = Some (unat n)"
proof -
  have "unat n < 16" using assms by (simp add: word_less_nat_alt)
  then obtain k where k: "n = of_nat k" "k < 16" by (metis of_nat_unat ucast_id)
  have "list_all (\<lambda>k. hex_val (hex_digit (of_nat k)) = Some k) [0..<16]"
    by (simp add: upt_rec hex_digit_def hex_val_def)
  then have "hex_val (hex_digit (of_nat k)) = Some k" using k(2) by (simp add: list_all_iff)
  then show ?thesis using k by (simp add: unat_of_nat)
qed

lemma hex2_vals:
  obtains h l where "hex2 v = [h, l]" "hex_val h = Some (unat v div 16)" "hex_val l = Some (unat v mod 16)"
proof
  have "unat (drop_bit 4 v) = unat v div 16"
    by (simp only: unat_drop_bit_eq) (simp add: drop_bit_eq_div)
  moreover have "unat v < 2 ^ LENGTH(8)" by (rule unsigned_less)
  then have "unat v div 16 < 16" by simp
  ultimately show "hex_val (hex_digit (ucast (drop_bit 4 v))) = Some (unat v div 16)"
    by (subst hex_val_digit) (simp_all add: word_less_nat_alt unsigned_ucast_eq take_bit_eq_mod)
  have "unat (v AND 15) = unat v mod 16"
    using take_bit_eq_mask [of 4 "unat v"]
    by (simp add: take_bit_eq_mod unsigned_and_eq mask_eq_exp_minus_1)
  then show "hex_val (hex_digit (ucast (v AND 15))) = Some (unat v mod 16)"
    by (subst hex_val_digit) (simp_all add: word_less_nat_alt unsigned_ucast_eq take_bit_eq_mod)
qed (simp add: hex2_def)

lemma scan_two:
  assumes "hex_val a = Some h" "hex_val b = Some l"
  shows "scan_hex (Some 2) (a # b # r) = Inr (Some (of_nat (16 * h + l), r))"
proof -
  have "h < 16" "l < 16" using assms hex_val_less by blast+
  then show ?thesis
    using assms hex_val_char [OF assms(1)] hex_val_char [OF assms(2)]
    by (cases r) (simp_all add: scan_hex_def scan_sign_def scan_0x_def width_left_def width_use_def
        digits_value_def)
qed

lemma scan_hex2: "scan_hex (Some 2) (hex2 v @ r) = Inr (Some (ucast v, r))"
proof -
  obtain h l where hl: "hex2 v = [h, l]" "hex_val h = Some (unat v div 16)"
    "hex_val l = Some (unat v mod 16)" by (rule hex2_vals)
  have "(of_nat (16 * (unat v div 16) + unat v mod 16) :: u32) = ucast v"
    by (simp del: of_nat_add of_nat_mult)
  then show ?thesis
    by (simp only: hl(1) append.simps scan_two [OF hl(2,3)])
qed


definition hex_number :: "u8 list \<Rightarrow> nat option" where
  "hex_number s = (if s = [] then None else map_option digits_value (those (map hex_val s)))"

lemma scan_digits_all:
  assumes "those (map hex_val s) = Some ds" "hex_val c = None"
  shows "scan_digits None (s @ c # r) = Inr (ds, c # r)"
  using assms(1)
proof (induction s arbitrary: ds)
  case Nil
  then show ?case using assms(2) by (simp add: width_left_def)
next
  case (Cons d s)
  then show ?case by (auto simp: width_left_def width_use_def split: option.splits)
qed

lemma those_length: "those xs = Some ys \<Longrightarrow> length ys = length xs"
  by (induction xs arbitrary: ys) (auto split: option.splits)

lemma scan_number:
  assumes "hex_number s = Some n" "n < 2 ^ 32" "hex_val c = None" "c \<noteq> 120" "c \<noteq> 88"
  shows "scan_hex None (s @ c # r) = Inr (Some (of_nat n, c # r))"
proof -
  obtain ds where ds: "those (map hex_val s) = Some ds" "digits_value ds = n" and "s \<noteq> []"
    using assms(1) by (auto simp: hex_number_def split: if_splits)
  then obtain d s' v where s: "s = d # s'" "hex_val d = Some v"
    by (cases s) (auto split: option.splits)
  note d = hex_val_char [OF s(2)]
  have "ds \<noteq> []" using ds(1) s(1) those_length by fastforce
  moreover have "scan_space (s @ c # r) = Inr (s @ c # r)" using s(1) d by simp
  moreover have "scan_sign None (s @ c # r) = (False, None, s @ c # r)"
    using s(1) d by (simp add: scan_sign_def)
  moreover have "scan_0x None (s @ c # r) = (None, s @ c # r)"
  proof (cases s')
    case (Cons e s'')
    then have "hex_val e \<noteq> None" using ds(1) s(1) by (auto split: option.splits)
    then show ?thesis using s(1) Cons hex_val_char [of e] by (auto simp: scan_0x_def)
  qed (use s(1) assms(4,5) in \<open>simp add: scan_0x_def\<close>)
  ultimately show ?thesis
    using scan_digits_all [OF ds(1) assms(3), of r] ds(2) assms(2) by (simp add: scan_hex_def)
qed

lemma byte_eq_number:
  fixes x :: u8
  assumes "n < 256"
  shows "(ucast x = (of_nat n :: u32)) \<longleftrightarrow> x = of_nat n"
proof -
  have "unat (ucast x :: u32) = unat x" by simp
  moreover have "unat (of_nat n :: u32) = n" "unat (of_nat n :: u8) = n"
    using assms by (simp_all add: unat_of_nat)
  ultimately show ?thesis by (metis of_nat_unat ucast_id unsigned_of_nat)
qed

lemma reply_clientbuf: "reply bs (g\<lparr>clientbuf := x\<rparr>) = (reply bs g)\<lparr>clientbuf := x\<rparr>"
  by (cases g) (simp add: reply_def)

end
