(* ===== verification/Input.thy ===== *)
theory Input
  imports Gdb_Wire
begin

text \<open>
  Recorded console input of \<open>main.c\<close>: \<open>getsn\<close>, which reads a line for the emulated
  program, as text or after a colon as hexadecimal digits, and \<open>ins_inprec\<close>, which keeps what
  was read under the number of the instruction, so that a replay can give the same input again.
  No instruction calls \<open>getsn\<close>; the two functions are modelled as they stand.
\<close>

unbundle bit_operations_syntax

section \<open>State\<close>

text \<open>\<open>struct inprec\<close>; its flexible array has \<open>ir_len\<close> bytes.\<close>

record inprec =
  ir_insn :: u64
  ir_len :: nat
  ir_inp :: "u8 list"

text \<open>The operations of GLib's hash table on \<open>input_record\<close>, an argument of the definitions.\<close>

record 'i input_table =
  input_insert :: "u64 \<Rightarrow> inprec \<Rightarrow> 'i \<Rightarrow> 'i"
  input_lookup :: "'i \<Rightarrow> u64 \<Rightarrow> inprec option"

text \<open>The machine, the table, the bytes still to come from the terminal and those written to it.\<close>

record 'i terminal =
  cpu :: machine
  input_record :: 'i
  stdin :: "u8 list"
  stdout :: "u8 list"

text \<open>
  What a call gets from the allocator and the stack: the contents of the fresh line buffer
  (\<open>None\<close> when there is no memory), whether there is memory for a record, and the value that
  the uninitialised variable \<open>byte\<close> has in each round.
\<close>

record fresh =
  fresh_buf :: "(nat \<Rightarrow> u8) option"
  fresh_rec :: bool
  fresh_byte :: "nat \<Rightarrow> u32"

text \<open>The failed \<open>ASSERT\<close>s, and an undefined \<open>sscanf\<close>.\<close>

datatype input_stop = Buffer_overflow | No_memory | Input_missing u64 | Bad_scan stop

section \<open>The C library\<close>

text \<open>\<open>fgets\<close> for a buffer of \<open>n + 1\<close> bytes: up to and with the first newline.\<close>

fun fgets_line :: "nat \<Rightarrow> u8 list \<Rightarrow> u8 list \<times> u8 list" where
  "fgets_line 0 s = ([], s)"
| "fgets_line (Suc n) [] = ([], [])"
| "fgets_line (Suc n) (c # s) =
     (if c = 10 then ([c], s) else let (l, r) = fgets_line n s in (c # l, r))"

text \<open>\<open>strlen\<close> of a buffer that has a zero byte.\<close>

definition strlen :: "u8 list \<Rightarrow> nat" where
  "strlen buf = length (takeWhile (\<lambda>c. c \<noteq> 0) buf)"

text \<open>\<open>strncpy\<close>: the string, cut off or filled up with zeros.\<close>

definition strncpy :: "nat \<Rightarrow> u8 list \<Rightarrow> u8 list" where
  "strncpy n buf = take n (take (strlen buf) buf @ replicate n 0)"

text \<open>\<open>memcpy\<close> into data memory.\<close>

definition mem_copy :: "nat \<Rightarrow> u8 list \<Rightarrow> machine \<Rightarrow> machine" where
  "mem_copy a bs m = m\<lparr>memory := (\<lambda>i. if a \<le> i \<and> i < a + length bs then bs ! (i - a) else memory m i)\<rparr>"

definition mem_read :: "nat \<Rightarrow> nat \<Rightarrow> machine \<Rightarrow> u8 list" where
  "mem_read a n m = map (memory m) [a..<a + n]"

section \<open>The record\<close>

definition ins_inprec ::
    "'i input_table \<Rightarrow> fresh \<Rightarrow> u8 list \<Rightarrow> nat \<Rightarrow> 'i terminal \<Rightarrow> input_stop + 'i terminal" where
  "ins_inprec T new dat sz t =
     (if \<not> fresh_rec new then Inl No_memory
      else
        let new_inp = \<lparr>ir_insn = insns (cpu t), ir_len = sz + 1, ir_inp = take sz dat @ [0]\<rparr>
        in Inr (t\<lparr>input_record := input_insert T (insns (cpu t)) new_inp (input_record t)\<rparr>))"

section \<open>Reading a line\<close>

text \<open>The loop that removes the end of the line, from position \<open>len\<close> backwards.\<close>

fun strip_eol :: "nat \<Rightarrow> u8 list \<Rightarrow> u8 list" where
  "strip_eol 0 buf = buf"
| "strip_eol (Suc n) buf =
     (if buf ! n = 10 \<or> buf ! n = 13 then strip_eol n (buf[n := 0]) else buf)"

text \<open>
  The loop over the hexadecimal digits, in round \<open>i\<close> with \<open>n\<close> rounds to go: the final
  \<open>i\<close> and the machine. When \<open>sscanf\<close> does not match, \<open>byte\<close> keeps what it was.
\<close>

fun hex_input :: "(nat \<Rightarrow> u32) \<Rightarrow> u8 list \<Rightarrow> nat \<Rightarrow> nat \<Rightarrow> nat \<Rightarrow> machine \<Rightarrow> input_stop + (nat \<times> machine)" where
  "hex_input byte0 buf addr i 0 m = Inr (i, m)"
| "hex_input byte0 buf addr i (Suc n) m =
     (if buf ! (2 * i + 1) = 0 \<or> buf ! (2 * i + 2) = 0 then Inr (i, mem_upd (addr + i) 0 m)
      else case scan_hex (Some 2) (drop (2 * i + 1) buf) of
             Inl e \<Rightarrow> Inl (Bad_scan e)
           | Inr r \<Rightarrow>
               let byte = (case r of None \<Rightarrow> byte0 i | Some (v, _) \<Rightarrow> v)
               in hex_input byte0 buf addr (i + 1) n (mem_upd (addr + i) (ucast byte) m))"

definition gets_prompt :: "u8 list" where
  "gets_prompt = bytes ''Gets (':'-prefix for hex)> ''"

text \<open>The part of \<open>getsn\<close> after the prompt, on the line buffer as \<open>fgets\<close> left it.\<close>

definition getsn_line ::
    "'i input_table \<Rightarrow> fresh \<Rightarrow> nat \<Rightarrow> nat \<Rightarrow> u8 list \<Rightarrow> 'i terminal \<Rightarrow> input_stop + 'i terminal" where
  "getsn_line T new addr bufsz buf t =
     (if buf ! 0 \<noteq> 58 then
        let buf = strip_eol (strlen buf) buf;
            m = mem_copy addr (strncpy bufsz buf) (cpu t);
            m = mem_upd (addr + strlen buf) 0 m
        in ins_inprec T new buf bufsz (t\<lparr>cpu := m\<rparr>)
      else
        bindR (hex_input (fresh_byte new) buf addr 0 (bufsz - 1) (cpu t)) (\<lambda>(i, m).
        ins_inprec T new (mem_read addr i m) i (t\<lparr>cpu := m\<rparr>)))"

definition getsn ::
    "'i input_table \<Rightarrow> fresh \<Rightarrow> u16 \<Rightarrow> u16 \<Rightarrow> 'i terminal \<Rightarrow> input_stop + 'i terminal" where
  "getsn T new addr bufsz t =
     (if \<not> unat addr + unat bufsz < 0xffff then Inl Buffer_overflow
      else if bufsz \<le> 1 then Inr t
      else
        let prev_inp = input_lookup T (input_record t) (insns (cpu t))
        in if replay_mode (cpu t) \<and> prev_inp = None then Inl (Input_missing (insns (cpu t)))
           else case prev_inp of
             Some r \<Rightarrow> Inr (t\<lparr>cpu := mem_copy (unat addr) (take (ir_len r) (ir_inp r)) (cpu t)\<rparr>)
           | None \<Rightarrow>
               let t = t\<lparr>stdout := stdout t @ gets_prompt\<rparr>
               in case fresh_buf new of
                    None \<Rightarrow> Inl No_memory
                  | Some junk \<Rightarrow>
                      if stdin t = [] then Inr t
                      else
                        let (line, rest) = fgets_line (2 * unat bufsz + 1) (stdin t);
                            buf = line @ 0 # map junk [length line + 1..<2 * unat bufsz + 2]
                        in getsn_line T new (unat addr) (unat bufsz) buf (t\<lparr>stdin := rest\<rparr>))"

end
