(* ===== verification/Input_Spec.thy ===== *)
theory Input_Spec
  imports Input Execute
begin

text \<open>
  What \<open>getsn\<close> does: that recorded input is the same input again in a replay, where it is
  not, and which memory a call can change.
\<close>

unbundle bit_operations_syntax

section \<open>The laws of the table\<close>

definition input_laws :: "'i input_table \<Rightarrow> bool" where
  "input_laws T \<longleftrightarrow> (\<forall>k r h k'. input_lookup T (input_insert T k r h) k' =
     (if k' = k then Some r else input_lookup T h k'))"

text \<open>A table that is a function, and a terminal that has only the given input.\<close>

definition fun_table :: "(u64 \<Rightarrow> inprec option) input_table" where
  "fun_table = \<lparr>input_insert = (\<lambda>k r h. h(k := Some r)), input_lookup = (\<lambda>h. h)\<rparr>"

definition typed :: "machine \<Rightarrow> u8 list \<Rightarrow> (u64 \<Rightarrow> inprec option) terminal" where
  "typed m s = \<lparr>cpu = m, input_record = (\<lambda>_. None), stdin = s, stdout = []\<rparr>"

lemma fun_table_laws: "input_laws fun_table"
  by (simp add: input_laws_def fun_table_def)

section \<open>Lines\<close>

lemma fgets_line_newline:
  "10 \<notin> set s \<Longrightarrow> length s < n \<Longrightarrow> fgets_line n (s @ 10 # r) = (s @ [10], r)"
proof (induction s arbitrary: n)
  case (Cons c s)
  then show ?case by (cases n) auto
qed (auto simp: gr0_conv_Suc)

lemma fgets_line_split:
  "fgets_line n s = (l, r) \<Longrightarrow> s = l @ r \<and> length l \<le> n"
proof (induction n s arbitrary: l r rule: fgets_line.induct)
  case (3 n c s)
  then show ?case by (cases "fgets_line n s") (auto split: if_splits)
qed auto

lemma strlen_string [simp]: "0 \<notin> set s \<Longrightarrow> strlen (s @ 0 # r) = length s"
  by (induction s) (auto simp: strlen_def)

lemma strncpy_string: "0 \<notin> set s \<Longrightarrow> strncpy n (s @ 0 # r) = take n (s @ replicate n 0)"
  by (simp add: strncpy_def)

lemma strip_eol_line:
  assumes "s = [] \<or> last s \<noteq> 10 \<and> last s \<noteq> 13"
  shows "strip_eol (Suc (length s)) (s @ 10 # r) = s @ 0 # r"
proof (cases s rule: rev_cases)
  case (snoc s' c)
  then have "(s @ 0 # r) ! length s' = c" by (simp add: nth_append)
  then show ?thesis using assms snoc by (simp add: nth_append list_update_append)
qed simp

lemma mem_copy_sel [simp]:
  "memory (mem_copy a bs m) = (\<lambda>i. if a \<le> i \<and> i < a + length bs then bs ! (i - a) else memory m i)"
  "insns (mem_copy a bs m) = insns m" "replay_mode (mem_copy a bs m) = replay_mode m"
  by (simp_all add: mem_copy_def)

lemma mem_copy_Nil [simp]: "mem_copy a [] m = m"
proof -
  have "memory (mem_copy a [] m) = memory m" by (rule ext) auto
  then show ?thesis by (simp add: mem_copy_def)
qed

lemma mem_copy_snoc: "mem_upd (a + length bs) b (mem_copy a bs m) = mem_copy a (bs @ [b]) m"
proof -
  have "(memory (mem_copy a bs m))(a + length bs := b) = memory (mem_copy a (bs @ [b]) m)"
    by (rule ext) (auto simp: nth_append)
  then show ?thesis by (simp add: mem_copy_def mem_upd_def)
qed

lemma mem_copy_same: "mem_upd (a + length bs) b (mem_upd (a + length bs) c m) = mem_upd (a + length bs) b m"
  by (simp add: mem_upd_def)

lemma mem_read_copy: "n \<le> length bs \<Longrightarrow> mem_read a n (mem_copy a bs m) = take n bs"
  by (auto simp: mem_read_def intro!: nth_equalityI)

section \<open>Input after a colon\<close>

lemma hex_input_bytes:
  assumes "buf = pre @ concat (map hex2 bs) @ 10 # 0 # r" "length pre = 2 * i + 1" "length bs < n"
    and "cpu0 = mem_copy addr done m" "length done = i"
  shows "hex_input byte0 buf addr i n cpu0 = Inr (i + length bs, mem_copy addr (done @ bs @ [0]) m)"
  using assms
proof (induction bs arbitrary: pre i n "done" cpu0)
  case Nil
  then obtain n' where "n = Suc n'" by (cases n) auto
  moreover have "buf ! (2 * i + 2) = 0" using Nil by (simp add: nth_append)
  ultimately show ?case using Nil mem_copy_snoc [of addr "done" 0 m] by simp
next
  case (Cons b bs)
  obtain h l where hl: "hex2 b = [h, l]" "hex_val h = Some (unat b div 16)"
    "hex_val l = Some (unat b mod 16)" by (rule hex2_vals)
  note nz = hex_val_char(2) [OF hl(2)] hex_val_char(2) [OF hl(3)]
  obtain n' where n: "n = Suc n'" "length bs < n'" using Cons.prems(3) by (cases n) auto
  have buf: "buf = (pre @ [h, l]) @ concat (map hex2 bs) @ 10 # 0 # r"
    using Cons.prems(1) hl(1) by simp
  have d: "drop (2 * i + 1) buf = hex2 b @ concat (map hex2 bs) @ 10 # 0 # r"
    using Cons.prems(1,2) by simp
  have c: "buf ! (2 * i + 1) = h" "buf ! (2 * i + 2) = l"
    using buf Cons.prems(2) by (simp_all add: nth_append)
  have b: "ucast (ucast b :: u32) = b" by (rule bit_word_eqI) (auto simp: bit_simps)
  have m: "mem_upd (addr + i) b cpu0 = mem_copy addr (done @ [b]) m"
    using Cons.prems(4,5) mem_copy_snoc by metis
  have "hex_input byte0 buf addr (Suc i) n' (mem_copy addr (done @ [b]) m) =
      Inr (Suc i + length bs, mem_copy addr ((done @ [b]) @ bs @ [0]) m)"
    using Cons.prems(2,5) by (intro Cons.IH [OF buf _ n(2)]) simp_all
  then show ?case
    unfolding n hex_input.simps c d scan_hex2 using nz m b by simp
qed

text \<open>The result of \<open>getsn\<close> where a line arrives, and where the input was recorded.\<close>

lemma getsn_fresh:
  assumes "unat addr + unat bufsz < 0xffff" "1 < bufsz" "\<not> replay_mode (cpu t)"
    and "input_lookup T (input_record t) (insns (cpu t)) = None" "fresh_buf new = Some junk"
    and "stdin t = s @ 10 # rest" "10 \<notin> set s" "length s \<le> 2 * unat bufsz"
  shows "getsn T new addr bufsz t =
    getsn_line T new (unat addr) (unat bufsz) (s @ 10 # 0 # map junk [length s + 2..<2 * unat bufsz + 2])
      (t\<lparr>stdout := stdout t @ gets_prompt, stdin := rest\<rparr>)"
proof -
  have "fgets_line (2 * unat bufsz + 1) (stdin t) = (s @ [10], rest)"
    unfolding assms(6) using assms(7,8) by (intro fgets_line_newline) simp_all
  moreover have "\<not> bufsz \<le> 1" using assms(2) by (simp add: not_le)
  ultimately show ?thesis using assms by (simp add: getsn_def del: upt_Suc)
qed

lemma getsn_recorded:
  assumes "unat addr + unat bufsz < 0xffff" "1 < bufsz"
    and "input_lookup T (input_record t) (insns (cpu t)) = Some r"
  shows "getsn T new addr bufsz t = Inr (t\<lparr>cpu := mem_copy (unat addr) (take (ir_len r) (ir_inp r)) (cpu t)\<rparr>)"
proof -
  have "\<not> bufsz \<le> 1" using assms(2) by (simp add: not_le)
  then show ?thesis using assms by (simp add: getsn_def)
qed

lemma getsn_replays:
  assumes "input_laws T" "unat addr + unat bufsz < 0xffff" "1 < bufsz"
    and "input_record t = input_insert T k \<lparr>ir_insn = k, ir_len = length d, ir_inp = d\<rparr> h" "insns (cpu t) = k"
  shows "getsn T new addr bufsz t = Inr (t\<lparr>cpu := mem_copy (unat addr) d (cpu t)\<rparr>)"
  using getsn_recorded [OF assms(2,3), of T t] assms(1,4,5) by (simp add: input_laws_def)


section \<open>Input as text\<close>


section \<open>No input\<close>

theorem getsn_eof:
  assumes "unat addr + unat bufsz < 0xffff" "1 < bufsz" "\<not> replay_mode (cpu t)"
    and "input_lookup T (input_record t) (insns (cpu t)) = None" "fresh_buf new = Some junk"
    and "stdin t = []"
  shows "getsn T new addr bufsz t = Inr (t\<lparr>stdout := stdout t @ gets_prompt\<rparr>) \<and>
    (\<forall>r new'. insns (cpu r) = insns (cpu t) \<and> input_record r = input_record t \<and> replay_mode (cpu r) \<longrightarrow>
       getsn T new' addr bufsz r = Inl (Input_missing (insns (cpu t))))"
proof -
  have "\<not> bufsz \<le> 1" using assms(2) by (simp add: not_le)
  then show ?thesis using assms by (auto simp: getsn_def)
qed

section \<open>What a call can change\<close>

text \<open>Two machines that differ at most in memory between two addresses.\<close>

definition same_outside :: "nat \<Rightarrow> nat \<Rightarrow> machine \<Rightarrow> machine \<Rightarrow> bool" where
  "same_outside a b m m' \<longleftrightarrow> m' = m\<lparr>memory := memory m'\<rparr> \<and> (\<forall>i. i < a \<or> b \<le> i \<longrightarrow> memory m' i = memory m i)"

lemma same_outside_upd:
  "same_outside a b m m' \<Longrightarrow> a \<le> i \<Longrightarrow> i < b \<Longrightarrow> same_outside a b m (mem_upd i v m')"
  by (cases m; cases m') (auto simp: same_outside_def mem_upd_def)

lemma same_outside_copy: "a \<le> i \<Longrightarrow> i + length bs \<le> b \<Longrightarrow> same_outside a b m (mem_copy i bs m)"
  by (auto simp: same_outside_def mem_copy_def)

lemma same_outside_refl: "same_outside a b m m"
  by (simp add: same_outside_def)

lemma same_outside_mono: "same_outside a b m m' \<Longrightarrow> b \<le> c \<Longrightarrow> same_outside a c m m'"
  by (auto simp: same_outside_def)

lemma hex_input_frame:
  assumes "hex_input byte0 buf addr i n m = Inr (j, m')" "same_outside addr (addr + i + n) m0 m"
  shows "same_outside addr (addr + i + n) m0 m' \<and> j \<le> i + n"
  using assms
proof (induction byte0 buf addr i n m rule: hex_input.induct)
  case (2 byte0 buf addr i n m)
  have up: "same_outside addr (addr + i + Suc n) m0 (mem_upd (addr + i) v m)" for v
    using 2(3) by (intro same_outside_upd) simp_all
  show ?case
  proof (cases "buf ! (2 * i + 1) = 0 \<or> buf ! (2 * i + 2) = 0")
    case False
    then show ?thesis using 2 up by (fastforce simp: Let_def split: sum.splits)
  qed (use 2(2) up in auto)
qed auto

lemma strip_eol_keeps:
  "length (strip_eol n buf) = length buf \<and> (buf ! k = 0 \<longrightarrow> strip_eol n buf ! k = 0)"
proof (induction n buf rule: strip_eol.induct)
  case (2 n buf)
  then show ?case by (cases "n < length buf") (auto simp: nth_list_update list_update_beyond)
qed simp

lemma strlen_le_zero: "k < length buf \<Longrightarrow> buf ! k = 0 \<Longrightarrow> strlen buf \<le> k"
  unfolding strlen_def by (rule ccontr) (metis (mono_tags, lifting) not_le nth_mem set_takeWhileD takeWhile_nth)

lemma ins_inprec_cpu: "ins_inprec T new d n t = Inr t' \<Longrightarrow> cpu t' = cpu t \<and> stdin t' = stdin t"
  by (auto simp: ins_inprec_def Let_def split: if_splits)

lemma getsn_line_frame:
  assumes "getsn_line T new addr n buf t = Inr t'" "buf ! k = 0" "k < length buf" "k \<le> 2 * n + 1"
  shows "same_outside addr (addr + 2 * n + 2) (cpu t) (cpu t') \<and> stdin t' = stdin t"
proof (cases "buf ! 0 = 58")
  case True
  then obtain i m where h: "hex_input (fresh_byte new) buf addr 0 (n - 1) (cpu t) = Inr (i, m)"
    "ins_inprec T new (mem_read addr i m) i (t\<lparr>cpu := m\<rparr>) = Inr t'"
    using assms(1) by (auto simp: getsn_line_def elim!: bindR_InrE)
  then have "same_outside addr (addr + 0 + (n - 1)) (cpu t) m"
    using hex_input_frame [OF h(1)] same_outside_refl by blast
  then show ?thesis using ins_inprec_cpu [OF h(2)] by (auto elim: same_outside_mono)
next
  case False
  let ?b = "strip_eol (strlen buf) buf"
  have "strlen ?b \<le> k"
    using strip_eol_keeps [of "strlen buf" buf k] assms(2,3) by (intro strlen_le_zero) simp_all
  moreover have "length (strncpy n ?b) \<le> n" by (simp add: strncpy_def)
  ultimately have "same_outside addr (addr + 2 * n + 2) (cpu t)
      (mem_upd (addr + strlen ?b) 0 (mem_copy addr (strncpy n ?b) (cpu t)))"
    using assms(4) by (intro same_outside_upd same_outside_copy) simp_all
  then show ?thesis
    using assms(1) False ins_inprec_cpu by (fastforce simp: getsn_line_def Let_def)
qed


section \<open>Concrete lines\<close>

definition fresh_ok :: fresh where
  "fresh_ok = \<lparr>fresh_buf = Some (\<lambda>_. 0xAA), fresh_rec = True, fresh_byte = (\<lambda>_. 0)\<rparr>"



lemma getsn_eof_witness:
  "getsn fun_table fresh_ok 256 8 (typed ((boot (\<lambda>_. 0) (\<lambda>_. 0))\<lparr>replay_mode := True\<rparr>) []) =
     Inl (Input_missing 0)"
  using getsn_eof [of 256 8 "typed (boot (\<lambda>_. 0) (\<lambda>_. 0)) []" fun_table fresh_ok "\<lambda>_. 0xAA"]
  by (simp add: typed_def fresh_ok_def boot_def fun_table_def)


end
