(* ===== verification/Gdb_Cmd.thy ===== *)
theory Gdb_Cmd
  imports Gdb_Wire
begin

text \<open>
  The commands of the debugger protocol (\<open>CMD_HANDLER\<close> functions), the dispatch table and
  the processing of one packet, \<open>gdb_cmd\<close>.
\<close>

unbundle bit_operations_syntax

section \<open>The breakpoint table\<close>

text \<open>
  The operations of GLib's hash table that the stub uses, on keys that are addresses; the values
  are all null. The library is not part of the program, so its operations are an argument of the
  definitions, and what is relied on is the law of a finite set.
\<close>

record 'h table =
  g_hash_table_new :: 'h
  g_hash_table_insert :: "u32 \<Rightarrow> 'h \<Rightarrow> 'h"
  g_hash_table_remove :: "u32 \<Rightarrow> 'h \<Rightarrow> 'h"
  g_hash_table_contains :: "'h \<Rightarrow> u32 \<Rightarrow> bool"

type_synonym 'h cmd_handler = "u8 list \<Rightarrow> u8 list option \<Rightarrow> 'h stub \<Rightarrow> stop + 'h stub"

definition on_mach :: "(machine \<Rightarrow> machine) \<Rightarrow> 'h stub \<Rightarrow> 'h stub" where
  "on_mach f g = g\<lparr>mach := f (mach g)\<rparr>"

section \<open>Registers\<close>

text \<open>The four bytes of the byte-addressed program counter.\<close>

definition pc_dump :: "u32 \<Rightarrow> u8 list" where
  "pc_dump p =
     hex2 (ucast (push_bit 1 p AND 0xff)) @ hex2 (ucast (drop_bit 7 p AND 0xff)) @
     hex2 (ucast (drop_bit 15 p AND 0x7f)) @ bytes ''00''"

definition reg_dump :: "machine \<Rightarrow> u8 list" where
  "reg_dump m =
     concat (map (\<lambda>i. hex2 (memory m i)) [0..<32]) @ hex2 (memory m SREG) @
     hex2 (memory m SP_LO) @ hex2 (memory m SP_HI) @ pc_dump (pc m)"

definition gdb_getregs :: "'h cmd_handler" where
  "gdb_getregs cmd extra g =
     (let buf = reg_dump (mach g)
      in if \<not> length buf < 32 * 2 + 2 + 4 + 8 + 1 then Inl (Stop_assert 421)
         else gdb_sendstr (buf @ [0]) g)"

text \<open>\<open>ASSERT(*cmd, "x")\<close> at a line.\<close>

definition more_input :: "nat \<Rightarrow> u8 list \<Rightarrow> stop + unit" where
  "more_input line cmd =
     bindR (deref cmd) (\<lambda>c. if c = 0 then Inl (Stop_assert line) else Inr ())"

fun set_regs :: "nat \<Rightarrow> nat \<Rightarrow> u8 list \<Rightarrow> machine \<Rightarrow> stop + (u8 list \<times> machine)" where
  "set_regs i 0 cmd m = Inr (cmd, m)"
| "set_regs i (Suc n) cmd m =
     bindR (more_input 435 cmd) (\<lambda>_.
     bindR (matched 438 (scan_hex (Some 2) cmd)) (\<lambda>reglo.
     set_regs (Suc i) n (drop 2 cmd) (mem_upd i (ucast reglo) m)))"

definition set_pc :: "u32 \<Rightarrow> machine \<Rightarrow> stop + machine" where
  "set_pc v m =
     (let m = m\<lparr>pc := drop_bit 1 v\<rparr>
      in if pc m AND 0xffc00000 \<noteq> 0 then Inl (Stop_assert 462)
         else if \<not> pc22 m \<and> pc m AND 0xffff0000 \<noteq> 0 then Inl (Stop_assert 464)
         else Inr m)"

definition gdb_setregs :: "'h cmd_handler" where
  "gdb_setregs cmd extra g =
     bindR (set_regs 0 32 (drop 1 cmd) (mach g)) (\<lambda>(cmd, m).
     bindR (more_input 444 cmd) (\<lambda>_.
     bindR (matched 446 (scan_hex (Some 2) cmd)) (\<lambda>reglo.
     let m = mem_upd SREG (ucast reglo) m; cmd = drop 2 cmd
     in bindR (more_input 450 cmd) (\<lambda>_.
     bindR (matched 452
       (then_scan (scan_hex (Some 2) cmd) (\<lambda>reglo r.
        then_scan (scan_hex (Some 2) r) (\<lambda>reghi r. Inr (Some ((reglo, reghi), r)))))) (\<lambda>(reglo, reghi).
     let m = mem_upd SP_LO (ucast reglo) m; m = mem_upd SP_HI (ucast reghi) m; cmd = drop 4 cmd
     in bindR (more_input 457 cmd) (\<lambda>_.
     bindR (matched 459
       (then_scan (scan_hex (Some 2) cmd) (\<lambda>reglo r.
        then_scan (scan_hex (Some 2) r) (\<lambda>reghi r.
        then_scan (scan_hex (Some 2) r) (\<lambda>reg3 r.
        then_scan (scan_hex (Some 2) r) (\<lambda>reg4 r. Inr (Some ((reglo, reghi, reg3, reg4), r))))))))
       (\<lambda>(reglo, reghi, reg3, reg4).
     bindR (set_pc (reglo OR push_bit 8 reghi OR push_bit 16 reg3 OR push_bit 24 reg4) m) (\<lambda>m.
     gdb_sendstr (lit ''OK'') (g\<lparr>mach := m\<rparr>)))))))))"

section \<open>Memory\<close>

text \<open>
  \<open>gdb_readmem\<close> reads flash by byte address. The \<open>ASSERT\<close> on \<open>rlen * 2\<close>
  is in 32 bits; the loop writes two digits and a terminator into 4097 bytes each time round.
\<close>

fun read_flash :: "machine \<Rightarrow> u32 \<Rightarrow> nat \<Rightarrow> u8 list \<Rightarrow> stop + u8 list" where
  "read_flash m a 0 buffer = Inr buffer"
| "read_flash m a (Suc n) buffer =
     (let w = unat (a div 2)
      in if FLASH_SIZE \<le> w then Inl (Stop_array w)
         else
           let flashwd = flash m w;
               val = (if a mod 2 = 0 then ucast (flashwd AND 0xff) else ucast (drop_bit 8 flashwd))
           in if 4096 + 1 < length buffer + 3 then Inl (Stop_array (length buffer + 2))
              else read_flash m (a + 1) n (buffer @ hex2 val))"

definition gdb_readmem :: "'h cmd_handler" where
  "gdb_readmem cmd extra g =
     bindR (matched 482
       (then_scan (scan_hex None (drop 1 cmd)) (\<lambda>start r.
        then_scan (scan_char 44 r) (\<lambda>_ r.
        then_scan (scan_hex None r) (\<lambda>rlen r. Inr (Some ((start, rlen), r))))))) (\<lambda>(start, rlen).
     if \<not> unat (rlen * 2) < 4096 + 1 then Inl (Stop_assert 492)
     else bindR (read_flash (mach g) start (unat rlen) []) (\<lambda>buffer.
       gdb_sendstr (buffer @ [0]) g))"

text \<open>The loop of \<open>gdb_writemem\<close>, with the counter \<open>i\<close> in 32 bits.\<close>

fun write_bytes :: "u8 list \<Rightarrow> u32 \<Rightarrow> u32 \<Rightarrow> nat \<Rightarrow> machine \<Rightarrow> stop + machine" where
  "write_bytes hexs start i 0 m = Inr m"
| "write_bytes hexs start i (Suc n) m =
     bindR (matched 533 (scan_hex (Some 2) (drop (unat (2 * i)) hexs))) (\<lambda>byte.
     write_bytes hexs start (i + 1) n (mem_upd (unat ((start + i) AND 0xffff)) (ucast byte) m))"

text \<open>
  Format \<open>%x,%x:%n\<close>: the number of characters read is stored only when the colon matched;
  it stays zero otherwise.
\<close>

definition gdb_writemem :: "'h cmd_handler" where
  "gdb_writemem cmd extra g =
     (let cmd = drop 1 cmd
      in bindR (matched 522
        (then_scan (scan_hex None cmd) (\<lambda>start r.
         then_scan (scan_char 44 r) (\<lambda>_ r.
         then_scan (scan_hex None r) (\<lambda>len r. Inr (Some ((start, len, r), r))))))) (\<lambda>(start, len, r).
      bindR (scan_char 58 r) (\<lambda>colon.
      case colon of
        None \<Rightarrow> Inl (Stop_exit 1)
      | Some (_, hexs) \<Rightarrow>
          bindR (write_bytes hexs start 0 (unat len) (mach g)) (\<lambda>m.
          gdb_sendstr (lit ''OK'') (g\<lparr>mach := m\<rparr>)))))"

section \<open>Breakpoints\<close>

definition break_addr :: "nat \<Rightarrow> u8 list \<Rightarrow> stop + u32" where
  "break_addr line cmd =
     matched line (then_scan (scan_char 44 cmd) (\<lambda>_ r. scan_hex None r))"

definition gdb_addbreak :: "'h table \<Rightarrow> 'h cmd_handler" where
  "gdb_addbreak T cmd extra g =
     bindR (break_addr 550 (drop 2 cmd)) (\<lambda>addr.
     gdb_sendstr (lit ''OK'') (g\<lparr>breakpoints := g_hash_table_insert T addr (breakpoints g)\<rparr>))"

definition gdb_rembreak :: "'h table \<Rightarrow> 'h cmd_handler" where
  "gdb_rembreak T cmd extra g =
     bindR (break_addr 566 (drop 2 cmd)) (\<lambda>addr.
     gdb_sendstr (lit ''OK'') (g\<lparr>breakpoints := g_hash_table_remove T addr (breakpoints g)\<rparr>))"

section \<open>Constants and stepping\<close>

definition gdb_conststring :: "'h cmd_handler" where
  "gdb_conststring cmd extra g =
     (case extra of None \<Rightarrow> Inl (Stop_array 0) | Some s \<Rightarrow> gdb_sendstr s g)"

definition gdb_step :: "'h cmd_handler" where
  "gdb_step cmd extra g =
     gdb_sendstr (lit ''S05'') (on_mach (\<lambda>m. m\<lparr>stepone := True\<rparr>) g)"

definition gdb_bstep :: "'h cmd_handler" where
  "gdb_bstep cmd extra g =
     (if 0 < insns (mach g) then
        gdb_sendstr (lit ''S05'')
          (on_mach (\<lambda>m. m\<lparr>replay_mode := True, insnreplaylim := insns m - 1\<rparr>) g)
      else
        bindR (gdb_sendstr (lit ''T05replaylog:begin;'') g) (\<lambda>g. Inr (g\<lparr>execute := False\<rparr>)))"

section \<open>The dispatch table\<close>

datatype gdb_code =
  Getregs | Setregs | Readmem | Writemem | Addbreak | Rembreak | Conststring | Step | Bstep

primrec call_gdb :: "'h table \<Rightarrow> gdb_code \<Rightarrow> 'h cmd_handler" where
  "call_gdb T Getregs = gdb_getregs"
| "call_gdb T Setregs = gdb_setregs"
| "call_gdb T Readmem = gdb_readmem"
| "call_gdb T Writemem = gdb_writemem"
| "call_gdb T Addbreak = gdb_addbreak T"
| "call_gdb T Rembreak = gdb_rembreak T"
| "call_gdb T Conststring = gdb_conststring"
| "call_gdb T Step = gdb_step"
| "call_gdb T Bstep = gdb_bstep"

record cmd_dispatch =
  disp_cmd :: "u8 list"
  disp_extra :: "u8 list option"
  disp_handler :: "gdb_code option"
  continue_exec :: bool

definition disp :: "string \<Rightarrow> string option \<Rightarrow> gdb_code option \<Rightarrow> bool \<Rightarrow> cmd_dispatch" where
  "disp c e h k = \<lparr>disp_cmd = bytes c, disp_extra = map_option lit e, disp_handler = h,
     continue_exec = k\<rparr>"

definition gdb_disp :: "cmd_dispatch list" where
  "gdb_disp =
    [disp ''g'' None (Some Getregs) False,
     disp ''G'' None (Some Setregs) False,
     disp ''m'' None (Some Readmem) False,
     disp ''M'' None (Some Writemem) False,
     disp ''Z0'' None (Some Addbreak) False,
     disp ''z0'' None (Some Rembreak) False,
     disp ''qAttached'' (Some ''1'') (Some Conststring) False,
     disp ''qSupported'' (Some ''qRelocInsn-;ReverseStep+;PacketSize=2000'') (Some Conststring) False,
     disp ''?'' (Some ''S05'') (Some Conststring) False,
     disp ''Hg'' (Some ''OK'') (Some Conststring) False,
     disp ''Hc'' (Some ''OK'') (Some Conststring) False,
     disp ''c'' None None True,
     disp ''s'' None (Some Step) True,
     disp ''bs'' None (Some Bstep) True]"

section \<open>One packet\<close>

text \<open>The loop over the table: the first row whose command starts the packet.\<close>

definition find_cmd :: "u8 list \<Rightarrow> cmd_dispatch option" where
  "find_cmd c = find (\<lambda>d. startswith c (disp_cmd d)) gdb_disp"

definition dispatch :: "'h table \<Rightarrow> u8 list \<Rightarrow> 'h stub \<Rightarrow> stop + 'h stub" where
  "dispatch T c g =
     (case find_cmd c of
        None \<Rightarrow> gdb_sendstr (lit '''') g
      | Some d \<Rightarrow>
          let g = g\<lparr>execute := continue_exec d\<rparr>
          in case disp_handler d of
               None \<Rightarrow> Inr g
             | Some h \<Rightarrow> call_gdb T h c (disp_extra d) g)"

text \<open>
  \<open>c\<close> and \<open>pound\<close> are positions in \<open>clientbuf\<close>. The terminator written over the
  pound sign comes after the checksum is compared and before the packet is looked at.
\<close>

definition gdb_cmd :: "'h table \<Rightarrow> nat \<Rightarrow> nat \<Rightarrow> 'h stub \<Rightarrow> stop + 'h stub" where
  "gdb_cmd T c pound g =
     (let buf = clientbuf g
      in if buf ! c = 43 \<or> buf ! c = 45 then Inl (Stop_assert 301)
         else
           bindR (gdb_cksum (drop (c + 1) buf) (of_int (int pound - int c - 1))) (\<lambda>ckcalc.
           bindR (matched 305
             (then_scan (scan_char 35 (drop pound buf)) (\<lambda>_ r. scan_hex (Some 2) r))) (\<lambda>cksend.
           if ucast ckcalc \<noteq> cksend then gdb_sendrawstr (lit ''-'') g
           else
             bindR (gdb_sendrawstr (lit ''+'') g) (\<lambda>g.
             let g = g\<lparr>clientbuf := (clientbuf g)[pound := 0]\<rparr>
             in if clientbuf g ! c \<noteq> 36 then gdb_sendstr (lit '''') g
                else dispatch T (drop (c + 1) (clientbuf g)) g))))"

section \<open>A concrete client\<close>

text \<open>A list as the table, and a connected stub whose peer takes bytes a few at a time.\<close>

definition list_table :: "u32 list table" where
  "list_table = \<lparr>g_hash_table_new = [], g_hash_table_insert = (#),
     g_hash_table_remove = removeAll, g_hash_table_contains = List.member\<rparr>"

definition client_stub :: "machine \<Rightarrow> u8 list \<Rightarrow> turn list \<Rightarrow> u32 list stub" where
  "client_stub m buf ts = \<lparr>mach = m, lsock = True, csock = True, execute = False, breakpoints = [],
     clientbuf = buf, cblen = 0, sent = [], sends = [1, 2], turns = ts\<rparr>"

end
