(* ===== verification/Gdb_Loop.thy ===== *)
theory Gdb_Loop
  imports Gdb_Cmd
begin

text \<open>
  The interactive loop of the stub, its hooks for the emulator, and the main loop
  \<open>emulate\<close>. The loops are partial functions: \<open>None\<close> is a run that does not return,
  because it spins or because it waits for the peer forever.
\<close>

unbundle bit_operations_syntax

section \<open>Packets in the buffer\<close>

text \<open>
  The inner loop of \<open>gdbstub_interactive\<close>, from position \<open>bp\<close> to \<open>ep\<close>. The
  result is the new \<open>bp\<close> and \<open>processed_any\<close>. When neither branch applies, the loop
  goes round without having changed anything.
\<close>

partial_function (option) packets ::
  "'h table \<Rightarrow> nat \<Rightarrow> nat \<Rightarrow> bool \<Rightarrow> 'h stub \<Rightarrow> (stop + (nat \<times> bool \<times> 'h stub)) option" where
  "packets T bp ep processed_any g =
     (if bp < ep then
        if clientbuf g ! bp = 43 \<or> clientbuf g ! bp = 45 then
          packets T (bp + 1) ep True (g\<lparr>cblen := cblen g - 1\<rparr>)
        else
          case memchr 35 (ep - bp) (drop bp (clientbuf g)) of
            Some k \<Rightarrow>
              if bp + k + 2 < ep then
                case gdb_cmd T bp (bp + k) g of
                  Inl e \<Rightarrow> Some (Inl e)
                | Inr g \<Rightarrow>
                    if execute g then Some (Inr (bp + k + 3, True, g))
                    else packets T (bp + k + 3) ep True g
              else packets T bp ep processed_any g
          | None \<Rightarrow> packets T bp ep processed_any g
      else Some (Inr (bp, processed_any, g)))"

section \<open>Receiving\<close>

text \<open>
  \<open>poll\<close>, when nothing was processed in the last turn, and \<open>recv\<close> into the free part
  of the buffer; what does not fit stays in the socket. A result of zero bytes, also for a full
  buffer, ends the program. \<open>None\<close>: the peer does nothing more.
\<close>

definition receive :: "bool \<Rightarrow> 'h stub \<Rightarrow> (stop + 'h stub) option" where
  "receive processed_any g =
     (case turns g of
        [] \<Rightarrow> None
      | t # rest \<Rightarrow>
          if \<not> processed_any \<and> \<not> poll_ok t then Some (Inl (Stop_assert 238))
          else case recv_out t of
            Closed \<Rightarrow> Some (Inl (Stop_exit 0))
          | Failed \<Rightarrow> Some (Inl (Stop_err 1))
          | Nothing \<Rightarrow> Some (Inr (g\<lparr>turns := rest\<rparr>))
          | Received bs \<Rightarrow>
              let room = PKT_BUF_MAX - cblen g;
                  new = take room bs
              in if new = [] then Some (Inl (Stop_exit 0))
                 else Some (Inr (g\<lparr>
                   clientbuf := take (cblen g) (clientbuf g) @ new @
                     drop (cblen g + length new) (clientbuf g),
                   cblen := cblen g + length new,
                   turns := (if length bs \<le> room then rest
                     else t\<lparr>recv_out := Received (drop room bs)\<rparr> # rest)\<rparr>)))"

text \<open>The \<open>memmove\<close> of the unprocessed bytes to the front of the buffer.\<close>

definition compact :: "nat \<Rightarrow> nat \<Rightarrow> 'h stub \<Rightarrow> 'h stub" where
  "compact bp ep g =
     (if bp \<noteq> 0 then
        g\<lparr>cblen := ep - bp,
          clientbuf := take (ep - bp) (drop bp (clientbuf g)) @ drop (ep - bp) (clientbuf g)\<rparr>
      else g)"

section \<open>The interactive loop\<close>

partial_function (option) interact ::
  "'h table \<Rightarrow> bool \<Rightarrow> 'h stub \<Rightarrow> (stop + 'h stub) option" where
  "interact T processed_any g =
     (case receive processed_any g of
        None \<Rightarrow> None
      | Some (Inl e) \<Rightarrow> Some (Inl e)
      | Some (Inr g) \<Rightarrow>
          Option.bind (packets T 0 (cblen g) False g) (\<lambda>r.
            case r of
              Inl e \<Rightarrow> Some (Inl e)
            | Inr (bp, processed_any, g') \<Rightarrow>
                let g' = compact bp (cblen g) g'
                in if execute g' then Some (Inr g') else interact T processed_any g'))"

definition gdbstub_interactive :: "'h table \<Rightarrow> 'h stub \<Rightarrow> (stop + 'h stub) option" where
  "gdbstub_interactive T g =
     (let g = g\<lparr>execute := False\<rparr>
      in if \<not> csock g then Some (Inl (Stop_assert 228)) else interact T True g)"

section \<open>The hooks\<close>

definition gdbstub_breakpoint :: "'h stub \<Rightarrow> stop + 'h stub" where
  "gdbstub_breakpoint g =
     (if \<not> csock g then Inl (Stop_assert 371) else gdb_sendstr (lit ''S05'') g)"

definition gdbstub_intr :: "'h table \<Rightarrow> 'h stub \<Rightarrow> (stop + 'h stub) option" where
  "gdbstub_intr T g =
     (if \<not> csock g then Some (Inr g)
      else if stepone (mach g) then
        gdbstub_interactive T (on_mach (\<lambda>m. m\<lparr>stepone := False\<rparr>) g)
      else if g_hash_table_contains T (breakpoints g) (pc (mach g)) then
        case gdbstub_breakpoint g of
          Inl e \<Rightarrow> Some (Inl e)
        | Inr g \<Rightarrow> gdbstub_interactive T g
      else Some (Inr g))"

definition gdbstub_stopped :: "'h stub \<Rightarrow> 'h stub" where
  "gdbstub_stopped g = (if \<not> csock g then g else g\<lparr>csock := False\<rparr>)"

section \<open>Waiting for a client\<close>

text \<open>
  Which system calls succeed while the stub opens its socket and waits for a client, in the
  order of the calls. A failed one ends the program through \<open>err\<close> with \<open>EX_OSERR\<close>.
\<close>

record net =
  socket_ok :: bool
  reuseaddr_ok :: bool
  bind_ok :: bool
  listen_ok :: bool
  accept_ok :: bool
  nodelay_ok :: bool
  keepalive_ok :: bool

definition EX_OSERR :: nat where [simp]: "EX_OSERR = 71"

text \<open>The result says whether the descriptor is a valid one.\<close>

definition gdbstub_accept :: "net \<Rightarrow> stop + bool" where
  "gdbstub_accept n =
     (if \<not> accept_ok n then Inl (Stop_err EX_OSERR)
      else if \<not> nodelay_ok n then Inl (Stop_err EX_OSERR)
      else if \<not> keepalive_ok n then Inl (Stop_err EX_OSERR)
      else Inr True)"

definition gdbstub_init :: "net \<Rightarrow> 'h table \<Rightarrow> 'h stub \<Rightarrow> stop + 'h stub" where
  "gdbstub_init n T g =
     (let g = g\<lparr>csock := False\<rparr>;
          g = g\<lparr>lsock := False\<rparr>
      in if \<not> socket_ok n then Inl (Stop_err EX_OSERR)
         else
           let g = g\<lparr>lsock := True\<rparr>
           in if \<not> reuseaddr_ok n then Inl (Stop_err EX_OSERR)
              else if \<not> bind_ok n then Inl (Stop_err EX_OSERR)
              else if \<not> listen_ok n then Inl (Stop_err EX_OSERR)
              else bindR (gdbstub_accept n) (\<lambda>client.
                let g = g\<lparr>csock := client\<rparr>
                in if \<not> csock g then Inl (Stop_assert 206)
                   else
                     let g = g\<lparr>breakpoints := g_hash_table_new T\<rparr>
                     in Inr (on_mach (\<lambda>m. m\<lparr>stepone := True\<rparr>) g)))"

text \<open>A network on which every call succeeds.\<close>

definition net_up :: net where
  "net_up = \<lparr>socket_ok = True, reuseaddr_ok = True, bind_ok = True, listen_ok = True,
     accept_ok = True, nodelay_ok = True, keepalive_ok = True\<rparr>"

lemma gdbstub_init_cases:
  "gdbstub_init n T g =
     (if socket_ok n \<and> reuseaddr_ok n \<and> bind_ok n \<and> listen_ok n \<and> accept_ok n \<and> nodelay_ok n \<and> keepalive_ok n
      then Inr (g\<lparr>lsock := True, csock := True, breakpoints := g_hash_table_new T,
        mach := (mach g)\<lparr>stepone := True\<rparr>\<rparr>)
      else Inl (Stop_err 71))"
  by (simp add: gdbstub_init_def gdbstub_accept_def Let_def on_mach_def)

section \<open>The main loop\<close>

text \<open>The end of a replay: control goes back to the debugger.\<close>

definition end_replay :: "'h stub \<Rightarrow> 'h stub" where
  "end_replay g =
     (if replay_mode (mach g) \<and> insnreplaylim (mach g) \<le> insns (mach g)
      then on_mach (\<lambda>m. m\<lparr>replay_mode := False, insnreplaylim := 0, stepone := True\<rparr>) g
      else g)"

text \<open>
  \<open>ctrlc\<close> is set by a signal at any time: the list gives the values that the loop reads in
  its coming turns, and a list that has run out reads false. The second argument is the cipher
  that \<open>emulate1\<close> takes.
\<close>

partial_function (option) emulate ::
  "'h table \<Rightarrow> des_ecb \<Rightarrow> bool list \<Rightarrow> 'h stub \<Rightarrow> (stop + 'h stub) option" where
  "emulate T des ctrlc g =
     (if ctrlc \<noteq> [] \<and> hd ctrlc then Some (Inl (Stop_exit 1))
      else
        let g = end_replay g
        in case (if \<not> replay_mode (mach g) then gdbstub_intr T g else Some (Inr g)) of
             None \<Rightarrow> None
           | Some (Inl e) \<Rightarrow> Some (Inl e)
           | Some (Inr g) \<Rightarrow>
               if replay_mode (mach g) \<and> insnreplaylim (mach g) < insns (mach g) then
                 emulate T des (tl ctrlc) (on_mach (\<lambda>m. (init m)\<lparr>pc := 0\<rparr>) g)
               else if off (mach g) then Some (Inr g)
               else
                 case emulate1 des (mach g) of
                   Inl f \<Rightarrow> Some (Inl (Stop_core f))
                 | Inr m \<Rightarrow>
                     let g = g\<lparr>mach := m\<rparr>
                     in if off m then Some (Inr g)
                        else if insnlimit m \<noteq> 0 \<and> insnlimit m \<le> insns m then Some (Inr g)
                        else emulate T des (tl ctrlc) g)"

end
