(* ===== verification/Gdb_Spec.thy ===== *)
theory Gdb_Spec
  imports Gdb_Loop Mem_Spec
begin

text \<open>
  What the debugger's commands do: which packets are accepted and dispatched, what the commands
  that read and write registers, memory and breakpoints answer and change.
\<close>

unbundle bit_operations_syntax

section \<open>Dispatch\<close>

lemma startswith_prefix: "startswith c p \<longleftrightarrow> prefix p c"
  by (auto simp: startswith_def prefix_def) (metis append_take_drop_id)

lemma disp_apart:
  "\<forall>d \<in> set gdb_disp. \<forall>e \<in> set gdb_disp. prefix (disp_cmd d) (disp_cmd e) \<longrightarrow> d = e"
  by (simp add: gdb_disp_def disp_def bytes_def)

lemma find_cmd_unique:
  "find_cmd c = Some d \<longleftrightarrow> d \<in> set gdb_disp \<and> startswith c (disp_cmd d)"
proof
  assume "find_cmd c = Some d"
  then show "d \<in> set gdb_disp \<and> startswith c (disp_cmd d)"
    by (auto simp: find_cmd_def find_Some_iff)
next
  assume d: "d \<in> set gdb_disp \<and> startswith c (disp_cmd d)"
  then obtain e where e: "find_cmd c = Some e"
    unfolding find_cmd_def by (metis find_None_iff option.exhaust)
  then have "e \<in> set gdb_disp \<and> startswith c (disp_cmd e)"
    by (auto simp: find_cmd_def find_Some_iff)
  then have "d = e" using d disp_apart prefix_same_cases by (metis startswith_prefix)
  then show "find_cmd c = Some d" using e by simp
qed

section \<open>One packet\<close>

lemma cmd_packet:
  assumes buf: "clientbuf g = pre @ 36 # s @ 35 # a # b # rest"
    and "hex_val a = Some h" "hex_val b = Some l" and s: "0 \<notin> set s" "length s < 2 ^ 32"
    and "link_ok g"
  shows "gdb_cmd T (length pre) (length pre + 1 + length s) g =
    (if sum_list s = of_nat (16 * h + l)
     then dispatch T (s @ 0 # a # b # rest)
       (reply (bytes ''+'') (g\<lparr>clientbuf := pre @ 36 # s @ 0 # a # b # rest\<rparr>))
     else Inr (reply (bytes ''-'') g))"
proof -
  have c: "clientbuf g ! length pre = 36" using buf by simp
  have p: "drop (length pre + 1 + length s) (clientbuf g) = 35 # a # b # rest"
    using buf by simp
  have len: "int (length pre + 1 + length s) - int (length pre) - 1 = int (length s)" by simp
  have "unat (of_int (int (length s)) :: u64) = length s"
    using s(2) by (simp add: unat_of_nat)
  then have ck: "gdb_cksum (drop (length pre + 1) (clientbuf g)) (of_int (int (length s))) = Inr (sum_list s)"
    unfolding gdb_cksum_def using cksum_exact [OF s(1)] buf by simp
  have sent: "gdb_sendrawstr (lit x) g = Inr (reply (bytes x) g)" if "0 \<notin> set (bytes x)" for x
    using that assms(6) by (simp add: gdb_sendrawstr_def lit_def)
  have up: "(clientbuf g)[length pre + 1 + length s := 0] = pre @ 36 # s @ 0 # a # b # rest"
    using buf by (simp add: list_update_append)
  have eq: "(ucast (sum_list s) = (of_nat (16 * h + l) :: u32)) \<longleftrightarrow> sum_list s = of_nat (16 * h + l)"
    using assms(2,3)[THEN hex_val_less] by (intro byte_eq_number) simp
  show ?thesis
    unfolding gdb_cmd_def Let_def c p len ck
    using assms(2,3) eq sent [of "''-''"] sent [of "''+''"] up c
    by (simp add: scan_char_def then_scan_def scan_two matched_def reply_clientbuf bytes_def
        del: of_nat_add of_nat_mult)
qed

text \<open>
C23: A packet whose two checksum digits are the sum of its bytes modulo 256 is acknowledged and
dispatched, any other is answered with a minus sign and changes nothing else.
\<close>

theorem packet_checked:
  assumes "clientbuf g = pre @ 36 # s @ 35 # a # b # rest"
    and "hex_val a = Some h" "hex_val b = Some l" "0 \<notin> set s" "length s < 2 ^ 32"
    and "link_ok g"
  shows "gdb_cmd T (length pre) (length pre + 1 + length s) g =
    (if sum_list s = of_nat (16 * h + l)
     then dispatch T (s @ 0 # a # b # rest)
       (reply (bytes ''+'') (g\<lparr>clientbuf := pre @ 36 # s @ 0 # a # b # rest\<rparr>))
     else Inr (reply (bytes ''-'') g))"
  by (rule cmd_packet [OF assms])

text \<open>
C24: gdb_sendstr puts a dollar sign, the string, a pound sign and the checksum on the wire,
however send splits them, for at most 4091 bytes; at 4092 bytes the last checksum digit is
replaced by a zero byte, and beyond that the send reads past its buffer.
\<close>

theorem send_frame:
  assumes "link_ok g" "0 \<notin> set s" "length s < 2 ^ 64"
  shows "gdb_sendstr (s @ 0 # r) g =
    (if length s \<le> 4091 then Inr (reply (framed s) g)
     else if length s = 4092 then Inr (reply (take 4095 (framed s) @ [0]) g)
     else Inl (Stop_array 4096))"
  using sendstr_cases [OF assms] by simp

section \<open>Registers\<close>

lemma more_hex2 [simp]: "more_input line (hex2 v @ r) = Inr ()"
proof -
  obtain h l where hl: "hex2 v = [h, l]" "hex_val h = Some (unat v div 16)" by (rule hex2_vals)
  then show ?thesis using hex_val_char(2) [OF hl(2)] by (simp add: more_input_def deref_def)
qed

lemma length_hex2 [simp]: "length (hex2 v) = 2"
  by (simp add: hex2_def)

lemma hex2_not_nul [simp]: "0 \<notin> set (hex2 v)"
proof -
  obtain h l where hl: "hex2 v = [h, l]" "hex_val h = Some (unat v div 16)"
    "hex_val l = Some (unat v mod 16)" by (rule hex2_vals)
  then show ?thesis using hex_val_char(2) [OF hl(2)] hex_val_char(2) [OF hl(3)] by auto
qed

lemma byte_back: "ucast (ucast (b :: u8) :: u32) = b"
  by (rule bit_word_eqI) (auto simp: bit_simps)

lemma set_regs_hex:
  "set_regs i n (concat (map (\<lambda>j. hex2 (f j)) [i..<i + n]) @ r) m =
     Inr (r, m\<lparr>memory := (\<lambda>j. if i \<le> j \<and> j < i + n then f j else memory m j)\<rparr>)"
proof (induction n arbitrary: i m)
  case (Suc n)
  let ?m = "mem_upd i (f i) m"
  have "concat (map (\<lambda>j. hex2 (f j)) [i..<i + Suc n]) @ r =
      hex2 (f i) @ concat (map (\<lambda>j. hex2 (f j)) [Suc i..<Suc i + n]) @ r"
    by (simp add: upt_rec)
  moreover have "(\<lambda>j. if Suc i \<le> j \<and> j < Suc i + n then f j else memory ?m j) =
      (\<lambda>j. if i \<le> j \<and> j < i + Suc n then f j else memory m j)"
    by (auto simp: fun_eq_iff)
  ultimately show ?case
    using Suc.IH [of "Suc i" ?m]
    by (simp add: scan_hex2 matched_def mem_upd_def byte_back del: upt_Suc)
next
  case 0
  have "(\<lambda>j. if i \<le> j \<and> j < i then f j else memory m j) = memory m" for i and m :: machine
    by (rule ext) auto
  then show ?case by simp
qed

lemma pc_dump_read:
  fixes p q :: u32
  assumes "p < 0x400000" and q: "q = push_bit 1 p"
  shows "ucast (ucast (q AND 0xff) :: u8) OR
    push_bit 8 (ucast (ucast (drop_bit 7 p AND 0xff) :: u8)) OR
    push_bit 16 (ucast (ucast (drop_bit 15 p AND 0x7f) :: u8)) OR
    push_bit 24 (ucast (0 :: u8)) = q"
proof (rule bit_word_eqI)
  fix n
  assume n: "n < LENGTH(32)"
  have m: "0xff = (mask 8 :: u32)" "0x7f = (mask 7 :: u32)" by (simp_all add: mask_eq_exp_minus_1)
  have "take_bit 22 p = p"
    using assms by (intro word_unat_eq_iff [THEN iffD2])
      (simp add: unsigned_take_bit_eq take_bit_nat_eq_self word_less_nat_alt)
  then have hi: "\<not> bit p k" if "22 \<le> k" for k
    using that by (metis bit_take_bit_iff not_less)
  have qb: "bit q k \<longleftrightarrow> 1 \<le> k \<and> k < 32 \<and> bit p (k - 1)" for k
    unfolding q by (simp only: bit_push_bit_iff) auto
  let ?l = "ucast (ucast (q AND 0xff) :: u8) OR
    push_bit 8 (ucast (ucast (drop_bit 7 p AND 0xff) :: u8)) OR
    push_bit 16 (ucast (ucast (drop_bit 15 p AND 0x7f) :: u8)) OR
    push_bit 24 (ucast (0 :: u8)) :: u32"
  have l: "bit ?l n \<longleftrightarrow> n < 8 \<and> bit q n \<or> 8 \<le> n \<and> n < 16 \<and> bit p (7 + (n - 8)) \<or>
      16 \<le> n \<and> n < 23 \<and> bit p (15 + (n - 16))"
    unfolding m using n by (auto simp: bit_simps)
  consider "n < 8" | "8 \<le> n" "n < 16" | "16 \<le> n" "n < 23" | "23 \<le> n" by linarith
  then show "bit ?l n = bit q n"
  proof cases
    case 2
    then have "7 + (n - 8) = n - 1" by simp
    then show ?thesis using l qb [of n] 2 n by simp
  next
    case 3
    then have "15 + (n - 16) = n - 1" by simp
    then show ?thesis using l qb [of n] 3 n by simp
  qed (use l qb [of n] hi [of "n - 1"] in auto)
qed


lemma high_bits_clear:
  fixes p :: u32
  assumes "unat p < 2 ^ n"
  shows "p AND NOT (mask n) = 0"
proof -
  have "take_bit n p = p"
    using assms by (intro word_unat_eq_iff [THEN iffD2])
      (simp add: unsigned_take_bit_eq take_bit_nat_eq_self word_less_nat_alt)
  then have "k < n" if "bit p k" for k using that by (metis bit_take_bit_iff)
  then show ?thesis by (intro bit_word_eqI) (auto simp: bit_simps)
qed

lemma set_pc_dump:
  assumes "p < 0x400000" "pc22 m \<or> p < 0x10000"
  shows "set_pc (push_bit 1 p) m = Inr (m\<lparr>pc := p\<rparr>)"
proof -
  have "unat (push_bit 1 p) = 2 * unat p"
    using assms(1) by (simp add: word_less_nat_alt unat_word_ariths)
  then have "drop_bit 1 (push_bit 1 p) = p"
    by (intro word_unat_eq_iff [THEN iffD2]) (simp only: unat_drop_bit_eq, simp add: drop_bit_eq_div)
  moreover have "0xffc00000 = NOT (mask 22 :: u32)" "0xffff0000 = NOT (mask 16 :: u32)"
    by (simp_all add: mask_eq_exp_minus_1)
  then have "p AND 0xffc00000 = 0" "p < 0x10000 \<Longrightarrow> p AND 0xffff0000 = 0"
    using high_bits_clear [of p 22] high_bits_clear [of p 16] assms(1)
    by (simp_all only: word_less_nat_alt) (simp_all del: mask_numeral)
  ultimately show ?thesis using assms(2) by (auto simp: set_pc_def Let_def)
qed

lemma regs_set:
  assumes "link_ok g" "pc m < 0x400000" "pc22 (mach g) \<or> pc m < 0x10000"
  shows "gdb_setregs (71 # reg_dump m @ 0 # r) x g =
    Inr (reply (framed (bytes ''OK'')) (g\<lparr>mach := (mach g)\<lparr>
      memory := (\<lambda>i. if i < 32 \<or> i = SREG \<or> i = SP_LO \<or> i = SP_HI then memory m i
        else memory (mach g) i), pc := pc m\<rparr>\<rparr>))"
proof -
  let ?f = "memory m" and ?q = "push_bit 1 (pc m)"
  let ?tail = "hex2 (?f SREG) @ hex2 (?f SP_LO) @ hex2 (?f SP_HI) @ pc_dump (pc m) @ 0 # r"
  let ?m1 = "(mach g)\<lparr>memory := (\<lambda>i. if i < 32 then ?f i else memory (mach g) i)\<rparr>"
  have dump: "drop 1 (71 # reg_dump m @ 0 # r) =
      concat (map (\<lambda>j. hex2 (?f j)) [0..<0 + 32]) @ ?tail"
    by (simp only: reg_dump_def drop_Suc_Cons One_nat_def drop_0 append_assoc add_0)
  have zero: "bytes ''00'' = hex2 0" by (simp add: bytes_def hex2_def hex_digit_def)
  have regs: "set_regs 0 32 (drop 1 (71 # reg_dump m @ 0 # r)) (mach g) = Inr (?tail, ?m1)"
    unfolding dump set_regs_hex by simp
  have two: "drop 2 (hex2 u @ v) = v" "drop 4 (hex2 u @ hex2 w @ v) = v" for u w v
    by (simp_all add: hex2_def)
  let ?m4 = "mem_upd SP_HI (?f SP_HI) (mem_upd SP_LO (?f SP_LO) (mem_upd SREG (?f SREG) ?m1))"
  have pc: "set_pc ?q ?m4 = Inr (?m4\<lparr>pc := pc m\<rparr>)"
    using assms(2,3) by (intro set_pc_dump) simp_all
  have ok: "gdb_sendstr (lit ''OK'') h = Inr (reply (framed (bytes ''OK'')) h)" if "link_ok h" for h
    using sendstr_reply [OF that, of "bytes ''OK''" "[]"] by (simp add: lit_def bytes_def)
  have "memory ?m4 = (\<lambda>i. if i < 32 \<or> i = SREG \<or> i = SP_LO \<or> i = SP_HI then ?f i
      else memory (mach g) i)"
    by (rule ext) simp
  then have mem: "?m4\<lparr>pc := pc m\<rparr> = (mach g)\<lparr>memory := (\<lambda>i. if i < 32 \<or> i = SREG \<or> i = SP_LO \<or>
      i = SP_HI then ?f i else memory (mach g) i), pc := pc m\<rparr>"
    by (simp add: mem_upd_def)
  show ?thesis
    unfolding gdb_setregs_def regs bindR.simps prod.case Let_def more_hex2 two scan_hex2
      then_scan_def matched_def option.case
    unfolding pc_dump_def zero append_assoc more_hex2 two scan_hex2
      then_scan_def matched_def option.case bindR.simps prod.case
      pc_dump_read [OF assms(2) refl] byte_back pc
    using ok [of "g\<lparr>mach := ?m4\<lparr>pc := pc m\<rparr>\<rparr>"] mem assms(1) by (simp del: SREG_def SP_LO_def SP_HI_def)
qed

lemma sendstr_ok:
  "link_ok g \<Longrightarrow> gdb_sendstr (lit ''OK'') g = Inr (reply (framed (bytes ''OK'')) g)"
  using sendstr_reply [of g "bytes ''OK''" "[]"] by (simp add: lit_def bytes_def)

lemma pc_dump_len: "length (reg_dump m) = 78"
  by (simp add: reg_dump_def pc_dump_def length_concat comp_def bytes_def sum_list_triv)

lemma reg_dump_not_nul: "0 \<notin> set (reg_dump m)"
  by (auto simp: reg_dump_def pc_dump_def bytes_def)

lemma regs_get:
  assumes "link_ok g"
  shows "gdb_getregs cmd x g = Inr (reply (framed (reg_dump (mach g))) g)"
  using sendstr_reply [OF assms reg_dump_not_nul, of "mach g" "[]"]
  by (simp add: gdb_getregs_def pc_dump_len)


section \<open>Memory\<close>

lemma rom_byte_half:
  "(if a mod 2 = 0 then ucast (flash m (unat (a div 2)) AND 0xff)
    else ucast (drop_bit 8 (flash m (unat (a div 2))))) = rom_byte m (unat a)" for a :: u32
proof -
  have "unat (a mod 2) = unat a mod 2" "unat (a div 2) = unat a div 2"
    by (simp_all add: unat_mod unat_div)
  moreover have "a mod 2 = 0 \<longleftrightarrow> unat (a mod 2) = 0" by (simp add: unat_eq_0)
  ultimately show ?thesis
    by (auto simp: rom_byte_def hi_byte_def lo_byte_def even_iff_mod_2_eq_zero)
qed

lemma unat_inc: "unat a < 2 ^ 32 - 1 \<Longrightarrow> unat (a + 1) = unat a + 1" for a :: u32
  by (simp add: unat_word_ariths)

lemma read_flash_bytes:
  assumes "unat a + n \<le> 2 * FLASH_SIZE" "length buf + 2 * n \<le> 4096"
  shows "read_flash m a n buf =
    Inr (buf @ concat (map (\<lambda>i. hex2 (rom_byte m i)) [unat a..<unat a + n]))"
  using assms
proof (induction n arbitrary: a buf)
  case (Suc n)
  have "unat (a div 2) = unat a div 2" by (simp add: unat_div)
  then have w: "\<not> FLASH_SIZE \<le> unat (a div 2)" using Suc.prems by simp
  have a1: "unat (a + 1) = unat a + 1" using Suc.prems by (intro unat_inc) simp
  have b: "\<not> 4096 + 1 < length buf + 3" using Suc.prems by simp
  show ?case
    using Suc.IH [of "a + 1" "buf @ hex2 (rom_byte m (unat a))"] Suc.prems
    unfolding read_flash.simps Let_def rom_byte_half a1
    by (simp add: w b upt_conv_Cons del: FLASH_SIZE_def upt_Suc)
qed simp


lemma concat_hex2 [simp]:
  "length (concat (map (\<lambda>i. hex2 (f i)) is)) = 2 * length is"
  "0 \<notin> set (concat (map (\<lambda>i. hex2 (f i)) is))"
  by (induction "is") auto

text \<open>The text of a request: address and length in hexadecimal.\<close>

text \<open>
C27: The m command answers with the bytes of flash at the given byte address for up to 2045
bytes; it sends a broken frame for 2046 and reads past its buffer for 2047 and 2048, although
the advertised packet size is larger.
\<close>

theorem readmem_answers:
  assumes "link_ok g" and a: "hex_number A = Some a" and l: "hex_number L = Some l"
    and "a + l \<le> 2 * FLASH_SIZE" "l \<le> 2048"
  shows "gdb_readmem (bytes ''m'' @ A @ bytes '','' @ L @ 0 # r) x g =
    (let data = concat (map (\<lambda>i. hex2 (rom_byte (mach g) i)) [a..<a + l])
     in if l \<le> 2045 then Inr (reply (framed data) g)
        else if l = 2046 then Inr (reply (take 4095 (framed data) @ [0]) g)
        else Inl (Stop_array 4096))"
proof -
  let ?data = "concat (map (\<lambda>i. hex2 (rom_byte (mach g) i)) [a..<a + l])"
  have n: "hex_val 44 = None" "hex_val 0 = None" by (simp_all add: hex_val_def)
  have num: "scan_hex None (A @ 44 # L @ 0 # r) = Inr (Some (of_nat a, 44 # L @ 0 # r))"
    "scan_hex None (L @ 0 # r) = Inr (Some (of_nat l, 0 # r))"
    using assms(4,5) by (auto intro!: scan_number a l n)
  have u: "unat (of_nat a :: u32) = a" "unat (of_nat l :: u32) = l" "unat (of_nat l * 2 :: u32) = 2 * l"
    using assms(4,5) by (simp_all add: unat_of_nat unat_word_ariths)
  have rd: "read_flash (mach g) (of_nat a) l [] = Inr ?data"
    using read_flash_bytes [of "of_nat a" l "[]" "mach g"] assms(4,5) u by simp
  have "gdb_readmem (bytes ''m'' @ A @ bytes '','' @ L @ 0 # r) x g = gdb_sendstr (?data @ [0]) g"
    unfolding gdb_readmem_def
    using assms(5) by (simp add: bytes_def num then_scan_def scan_char_def matched_def u rd)
  then show ?thesis
    using sendstr_cases [OF assms(1) concat_hex2(2) [of "rom_byte (mach g)" "[a..<a + l]"], of "[]"] assms(5)
    by (auto simp: Let_def)
qed

section \<open>Writing\<close>

lemma write_bytes_hex:
  assumes "unat i + length bs < 2 ^ 31" "length hexs = 2 * unat i"
  shows "write_bytes (hexs @ concat (map hex2 bs) @ r) start i (length bs) m =
    Inr (m\<lparr>memory := fold (\<lambda>(k, b) f. f((unat start + k) mod 65536 := b))
      (enumerate (unat i) bs) (memory m)\<rparr>)"
  using assms
proof (induction bs arbitrary: i hexs m)
  case (Cons b bs)
  have i1: "unat (i + 1) = unat i + 1" using Cons.prems by (intro unat_inc) simp
  have d: "unat (2 * i) = 2 * unat i" using Cons.prems(1) by (simp add: unat_word_ariths)
  have addr: "unat ((start + i) AND 0xffff) = (unat start + unat i) mod 65536"
  proof -
    have "(start + i) AND 0xffff = take_bit 16 (start + i)"
      by (simp add: take_bit_eq_mask mask_eq_exp_minus_1)
    then have "unat ((start + i) AND 0xffff) = (unat start + unat i) mod 2 ^ 32 mod 65536"
      by (simp add: unsigned_take_bit_eq take_bit_eq_mod unat_word_ariths)
    then show ?thesis by (simp add: mod_mod_cancel)
  qed
  show ?case
    using Cons.IH [of "i + 1" "hexs @ hex2 b" "mem_upd ((unat start + unat i) mod 65536) b m"] Cons.prems
    by (simp add: d addr i1 scan_hex2 matched_def byte_back mem_upd_def)
qed simp


text \<open>Data memory after bytes were written from an address on, modulo 64 KB.\<close>

definition distance :: "nat \<Rightarrow> nat \<Rightarrow> nat" where
  "distance a j = (j + 65536 - a mod 65536) mod 65536"

definition poke :: "nat \<Rightarrow> u8 list \<Rightarrow> (nat \<Rightarrow> u8) \<Rightarrow> nat \<Rightarrow> u8" where
  "poke a bs mem j = (if j < 65536 \<and> distance a j < length bs then bs ! distance a j else mem j)"

lemma distance_iff:
  assumes "j < 65536" "k < 65536"
  shows "distance a j = k \<longleftrightarrow> j = (a + k) mod 65536"
proof -
  define N :: nat where "N = 65536"
  define r where "r = a mod N"
  have r: "r < N" "j < N" "k < N" "(a + k) mod N = (r + k) mod N"
    using assms by (simp_all add: r_def N_def mod_add_left_eq)
  have "(j + N - r) mod N = k \<longleftrightarrow> j = (r + k) mod N"
  proof
    assume "(j + N - r) mod N = k"
    then have "(r + k) mod N = (r + (j + N - r)) mod N" by (metis mod_add_right_eq)
    then show "j = (r + k) mod N" using r(1,2) by simp
  next
    assume j: "j = (r + k) mod N"
    show "(j + N - r) mod N = k"
      using j r(1,3) by (cases "r + k < N") (simp_all add: mod_if)
  qed
  then show ?thesis using r(4) by (simp add: distance_def N_def r_def)
qed

lemma fold_poke:
  assumes "length bs \<le> 65536"
  shows "fold (\<lambda>(k, b) f. f((a + k) mod 65536 := b)) (enumerate 0 bs) mem = poke a bs mem"
  using assms
proof (induction bs rule: rev_induct)
  case Nil
  then show ?case by (simp add: poke_def fun_eq_iff)
next
  case (snoc b bs)
  let ?n = "length bs"
  have "poke a (bs @ [b]) mem j = ((poke a bs mem)((a + ?n) mod 65536 := b)) j" for j
    using distance_iff [of j ?n a] snoc.prems by (auto simp: poke_def nth_append less_Suc_eq)
  then show ?case using snoc by (auto simp: enumerate_append_eq fun_eq_iff)
qed

theorem writemem_writes:
  assumes "link_ok g" and a: "hex_number A = Some a" "a < 2 ^ 32"
    and l: "hex_number L = Some (length bs)" "length bs \<le> 65536"
  shows "gdb_writemem (bytes ''M'' @ A @ bytes '','' @ L @ bytes '':'' @ concat (map hex2 bs) @ 0 # r) x g =
    Inr (reply (framed (bytes ''OK'')) (on_mach (\<lambda>m. m\<lparr>memory := poke a bs (memory m)\<rparr>) g))"
proof -
  let ?d = "concat (map hex2 bs) @ 0 # r"
  have n: "hex_val 44 = None" "hex_val 58 = None" by (simp_all add: hex_val_def)
  have num: "scan_hex None (A @ 44 # L @ 58 # ?d) = Inr (Some (of_nat a, 44 # L @ 58 # ?d))"
    "scan_hex None (L @ 58 # ?d) = Inr (Some (of_nat (length bs), 58 # ?d))"
    using a l by (auto intro!: scan_number n)
  have u: "unat (of_nat a :: u32) = a" "unat (of_nat (length bs) :: u32) = length bs"
    using a(2) l(2) by (simp_all add: unat_of_nat)
  have wr: "write_bytes ?d (of_nat a) 0 (length bs) m = Inr (m\<lparr>memory := poke a bs (memory m)\<rparr>)" for m
    using write_bytes_hex [of 0 bs "[]" "0 # r" "of_nat a" m] l(2) u by (simp add: fold_poke)
  show ?thesis
    unfolding gdb_writemem_def Let_def
    by (simp add: bytes_def num then_scan_def scan_char_def matched_def u wr on_mach_def sendstr_ok assms(1))
qed

end
