(* ===== verification/Gdb_Frame.thy ===== *)
theory Gdb_Frame
  imports Gdb_Loop
begin

text \<open>
  What the debugger stub leaves alone, whatever the client sends: the contract of the commands
  as a locale, and the invariant of the client buffer through packets and the interactive loop.
\<close>

section \<open>The contract of the commands\<close>

text \<open>
  What a command may not touch: the client buffer, the connection, flash, the machine model and
  the counters; what it sends is only ever appended. It can start a replay, whose end is then
  before the present instruction, but not change one that goes on.
\<close>

definition same_model :: "machine \<Rightarrow> machine \<Rightarrow> bool" where
  "same_model s t \<longleftrightarrow>
     flash t = flash s \<and> pc22 t = pc22 s \<and> pc_mem_max_64k t = pc_mem_max_64k s \<and>
     pc_mem_max_256b t = pc_mem_max_256b s \<and> insns t = insns s \<and> insnlimit t = insnlimit s \<and>
     off t = off s \<and> tracehex t = tracehex s \<and> tracefile t = tracefile s \<and>
     skip_next_instruction t = skip_next_instruction s \<and>
     (replay_mode t \<longrightarrow> replay_mode s \<and> insnreplaylim t = insnreplaylim s \<or> insnreplaylim t < insns t)"

definition stub_frame :: "'h stub \<Rightarrow> 'h stub \<Rightarrow> bool" where
  "stub_frame g g' \<longleftrightarrow>
     clientbuf g' = clientbuf g \<and> cblen g' = cblen g \<and> csock g' = csock g \<and>
     turns g' = turns g \<and> prefix (sent g) (sent g') \<and> set (sends g') \<subseteq> set (sends g) \<and>
     same_model (mach g) (mach g')"

locale gdb_command =
  fixes h :: "'h stub \<Rightarrow> stop + 'h stub"
  assumes keeps: "h g = Inr g' \<Longrightarrow> stub_frame g g'"
begin

lemma buffer: "h g = Inr g' \<Longrightarrow> clientbuf g' = clientbuf g \<and> cblen g' = cblen g"
  using keeps by (simp add: stub_frame_def)

lemma model: "h g = Inr g' \<Longrightarrow> same_model (mach g) (mach g')"
  using keeps by (simp add: stub_frame_def)

lemma answers: "h g = Inr g' \<Longrightarrow> \<exists>bs. sent g' = sent g @ bs"
  using keeps by (auto simp: stub_frame_def prefix_def)

end

lemma same_model_refl [simp]: "same_model s s"
  by (simp add: same_model_def)

lemma same_model_trans: "same_model s t \<Longrightarrow> same_model t u \<Longrightarrow> same_model s u"
  by (auto simp: same_model_def)

lemma stub_frame_refl [simp]: "stub_frame g g"
  by (simp add: stub_frame_def)

lemma stub_frame_trans: "stub_frame f g \<Longrightarrow> stub_frame g h \<Longrightarrow> stub_frame f h"
  using same_model_trans by (simp add: stub_frame_def) (metis prefix_order.trans subset_trans)

lemma stub_frame_link: "stub_frame g g' \<Longrightarrow> link_ok g \<Longrightarrow> link_ok g'"
  by (auto simp: stub_frame_def link_ok_def)

lemma same_model_upd [simp]:
  "same_model s (mem_upd i v t) = same_model s t" "same_model s (t\<lparr>memory := f\<rparr>) = same_model s t"
  "same_model s (t\<lparr>pc := p\<rparr>) = same_model s t" "same_model s (t\<lparr>stepone := b\<rparr>) = same_model s t"
  "same_model (mem_upd i v s) t = same_model s t"
  by (simp_all add: same_model_def)

lemma same_model_replay [intro]:
  "0 < insns m \<Longrightarrow> same_model m (m\<lparr>replay_mode := True, insnreplaylim := insns m - 1\<rparr>)"
  by (simp add: same_model_def word_less_nat_alt unat_minus_one word_neq_0_conv)

lemma send_loop_frame: "send_loop p g = Inr g' \<Longrightarrow> stub_frame g g' \<and> mach g' = mach g"
proof (induction p g rule: send_loop.induct)
  case (1 p g)
  have "(if p = [] then Inr g
      else case sends g of
             [] \<Rightarrow> Inr (g\<lparr>sent := sent g @ p\<rparr>)
           | wr # rest \<Rightarrow>
               if wr \<le> 0 then Inl (Stop_assert 114)
               else send_loop (drop (nat wr) p)
                      (g\<lparr>sends := rest, sent := sent g @ take (nat wr) p\<rparr>)) = Inr g'"
    using "1.prems" by (subst (asm) send_loop.simps)
  then show ?case
    using "1.IH" by (fastforce simp: stub_frame_def prefix_def split: if_splits list.splits)
qed

lemma sendstr_frame:
  assumes "gdb_sendstr s g = Inr g'"
  shows "stub_frame g g'"
  using assms
  by (auto simp: gdb_sendstr_def gdb_sendraw_def Let_def send_loop_frame elim!: bindR_InrE split: if_splits)

lemma sendrawstr_frame: "gdb_sendrawstr s g = Inr g' \<Longrightarrow> stub_frame g g'"
  by (auto simp: gdb_sendrawstr_def gdb_sendraw_def send_loop_frame elim!: bindR_InrE split: if_splits)

text \<open>A command that ends by sending, from a state that it has prepared.\<close>

lemma frame_via:
  assumes "gdb_sendstr s k = Inr g'" "stub_frame g k"
  shows "stub_frame g g'"
  using stub_frame_trans [OF assms(2) sendstr_frame [OF assms(1)]] .

lemma stub_frame_breaks: "stub_frame g (g\<lparr>breakpoints := b\<rparr>)"
  by (simp add: stub_frame_def)

lemma stub_frame_execute: "stub_frame g g' \<Longrightarrow> stub_frame g (g'\<lparr>execute := b\<rparr>)"
  by (simp add: stub_frame_def)

lemma stub_frame_mach: "same_model (mach g) m \<Longrightarrow> stub_frame g (g\<lparr>mach := m\<rparr>)"
  by (simp add: stub_frame_def)

lemma set_regs_model: "set_regs i n cmd m = Inr (r, m') \<Longrightarrow> same_model m m'"
proof (induction i n cmd m rule: set_regs.induct)
  case (2 i n cmd m)
  then show ?case by (fastforce elim!: bindR_InrE simp: same_model_def)
qed simp

lemma write_bytes_model: "write_bytes hexs start i n m = Inr m' \<Longrightarrow> same_model m m'"
proof (induction hexs start i n m rule: write_bytes.induct)
  case (2 hexs start i n m)
  then show ?case by (fastforce elim!: bindR_InrE simp: same_model_def)
qed simp

lemma set_pc_model: "set_pc v m = Inr m' \<Longrightarrow> same_model m m'"
  by (auto simp: set_pc_def Let_def split: if_splits)

lemma getregs_command: "gdb_command (gdb_getregs cmd x)"
  by unfold_locales (auto simp: gdb_getregs_def Let_def intro: sendstr_frame split: if_splits)

lemma frame_machE:
  assumes "gdb_sendstr s (g\<lparr>mach := m\<rparr>) = Inr g'"
  obtains "same_model (mach g) m \<Longrightarrow> stub_frame g g'"
  using frame_via [OF assms stub_frame_mach] by blast

lemma setregs_command: "gdb_command (gdb_setregs cmd x)"
  by unfold_locales
    (auto simp: gdb_setregs_def Let_def elim!: bindR_InrE frame_machE dest!: set_pc_model set_regs_model
      dest: same_model_trans)

lemma readmem_command: "gdb_command (gdb_readmem cmd x)"
  by unfold_locales (auto simp: gdb_readmem_def elim!: bindR_InrE intro: sendstr_frame split: if_splits)

lemma writemem_command: "gdb_command (gdb_writemem cmd x)"
  by unfold_locales
    (auto simp: gdb_writemem_def Let_def elim!: bindR_InrE frame_machE dest!: write_bytes_model
      split: option.splits)

lemma addbreak_command: "gdb_command (gdb_addbreak T cmd x)"
  by unfold_locales
    (auto simp: gdb_addbreak_def elim!: bindR_InrE frame_via simp: stub_frame_breaks)

lemma rembreak_command: "gdb_command (gdb_rembreak T cmd x)"
  by unfold_locales
    (auto simp: gdb_rembreak_def elim!: bindR_InrE frame_via simp: stub_frame_breaks)

lemma const_command: "gdb_command (gdb_conststring cmd x)"
  by unfold_locales (auto simp: gdb_conststring_def intro: sendstr_frame split: option.splits)

lemma step_command: "gdb_command (gdb_step cmd x)"
  by unfold_locales (auto simp: gdb_step_def on_mach_def elim!: frame_machE)

lemma bstep_command: "gdb_command (gdb_bstep cmd x)"
  by unfold_locales
    (auto simp: gdb_bstep_def on_mach_def elim!: bindR_InrE frame_machE split: if_splits
      simp: stub_frame_execute sendstr_frame)

interpretation cmd: gdb_command "call_gdb T code c x" for T code c x
  by (cases code) (simp_all add: getregs_command setregs_command readmem_command writemem_command
      addbreak_command rembreak_command const_command step_command bstep_command)


section \<open>One packet\<close>

text \<open>\<open>gdb_cmd\<close> also writes a terminator into the buffer.\<close>

definition packet_frame :: "'h stub \<Rightarrow> 'h stub \<Rightarrow> bool" where
  "packet_frame g g' \<longleftrightarrow>
     length (clientbuf g') = length (clientbuf g) \<and> csock g' = csock g \<and> turns g' = turns g \<and>
     prefix (sent g) (sent g') \<and> same_model (mach g) (mach g')"

lemma stub_packet_frame: "stub_frame g g' \<Longrightarrow> packet_frame g g' \<and> cblen g' = cblen g"
  by (simp add: stub_frame_def packet_frame_def)

lemma packet_frame_refl [simp]: "packet_frame g g"
  by (simp add: packet_frame_def)

lemma packet_frame_cblen [simp]: "packet_frame g (g\<lparr>cblen := n\<rparr>)"
  by (simp add: packet_frame_def)

lemma packet_frame_trans: "packet_frame f g \<Longrightarrow> packet_frame g h \<Longrightarrow> packet_frame f h"
  using same_model_trans by (simp add: packet_frame_def) (metis prefix_order.trans)

lemma dispatch_frame: "dispatch T c g = Inr g' \<Longrightarrow> stub_frame g g'"
proof -
  have "stub_frame (g\<lparr>execute := b\<rparr>) g' \<Longrightarrow> stub_frame g g'" for b
    by (simp add: stub_frame_def)
  then show "dispatch T c g = Inr g' \<Longrightarrow> stub_frame g g'"
    by (auto simp: dispatch_def Let_def stub_frame_execute sendstr_frame split: option.splits
        dest!: cmd.keeps)
qed

lemma cmd_cases:
  assumes "gdb_cmd T c p g = Inr g'"
  obtains (nak) "gdb_sendrawstr (lit ''-'') g = Inr g'"
  | (ack) k h where "gdb_sendrawstr (lit ''+'') g = Inr k"
      "h = k\<lparr>clientbuf := (clientbuf k)[p := 0]\<rparr>"
      "gdb_sendstr (lit '''') h = Inr g' \<or> dispatch T (drop (c + 1) (clientbuf h)) h = Inr g'"
  using assms unfolding gdb_cmd_def Let_def
  by (auto elim!: bindR_InrE split: if_splits)

lemma cmd_frame:
  assumes "gdb_cmd T c p g = Inr g'"
  shows "packet_frame g g' \<and> cblen g' = cblen g"
  using assms
proof (cases rule: cmd_cases)
  case nak
  show ?thesis using stub_packet_frame [OF sendrawstr_frame [OF nak]] .
next
  case (ack k h)
  have "stub_frame h g'" using ack(3) sendstr_frame dispatch_frame by blast
  note hg = stub_packet_frame [OF this]
  note gk = stub_packet_frame [OF sendrawstr_frame [OF ack(1)]]
  have kh: "packet_frame k h" "cblen h = cblen k" using ack(2) by (simp_all add: packet_frame_def)
  show ?thesis
    using packet_frame_trans [OF packet_frame_trans [OF conjunct1 [OF gk] kh(1)] conjunct1 [OF hg]]
      hg gk kh(2) by simp
qed

section \<open>The loops\<close>

definition packets_post :: "nat \<Rightarrow> nat \<Rightarrow> 'h stub \<Rightarrow> stop + (nat \<times> bool \<times> 'h stub) \<Rightarrow> bool" where
  "packets_post bp ep g r = (case r of Inl _ \<Rightarrow> True
     | Inr (bp', pa', g') \<Rightarrow> bp \<le> ep \<longrightarrow>
         packet_frame g g' \<and> bp' \<le> ep \<and> cblen g' \<le> cblen g)"

lemma packets_post_step:
  assumes "packets_post bp' ep g' r" "packet_frame g g'" "cblen g' \<le> cblen g" "bp' \<le> ep"
  shows "packets_post bp ep g r"
proof (cases r)
  case (Inr x)
  then show ?thesis
    using assms packet_frame_trans [OF assms(2)] by (cases x) (simp add: packets_post_def)
qed (simp add: packets_post_def)

lemma packets_post:
  assumes "packets T bp ep pa g = Some r"
  shows "packets_post bp ep g r"
proof (rule packets.raw_induct [where P = "\<lambda>T bp ep pa g r. packets_post bp ep g r", OF _ assms])
  fix f :: "'a table \<Rightarrow> nat \<Rightarrow> nat \<Rightarrow> bool \<Rightarrow> 'a stub \<Rightarrow> (stop + (nat \<times> bool \<times> 'a stub)) option"
    and T bp ep pa g r
  assume IH: "\<And>T bp ep pa g r. f T bp ep pa g = Some r \<Longrightarrow> packets_post bp ep g r"
    and run: "(if bp < ep then
        if clientbuf g ! bp = 43 \<or> clientbuf g ! bp = 45 then
          f T (bp + 1) ep True (g\<lparr>cblen := cblen g - 1\<rparr>)
        else
          case memchr 35 (ep - bp) (drop bp (clientbuf g)) of
            Some k \<Rightarrow>
              if bp + k + 2 < ep then
                case gdb_cmd T bp (bp + k) g of
                  Inl e \<Rightarrow> Some (Inl e)
                | Inr g \<Rightarrow>
                    if execute g then Some (Inr (bp + k + 3, True, g))
                    else f T (bp + k + 3) ep True g
              else f T bp ep pa g
          | None \<Rightarrow> f T bp ep pa g
      else Some (Inr (bp, pa, g))) = Some r"
  show "packets_post bp ep g r"
  proof (cases "bp < ep")
    case False
    then show ?thesis using run by (auto simp: packets_post_def)
  next
    case True
    note run = run [unfolded if_P [OF True]]
    show ?thesis
    proof (cases "clientbuf g ! bp = 43 \<or> clientbuf g ! bp = 45")
      case ack: True
      note run = run [unfolded if_P [OF ack]]
      show ?thesis
        using True by (intro packets_post_step [OF IH [OF run]]) simp_all
    next
      case False
      note run = run [unfolded if_not_P [OF False]]
      show ?thesis
      proof (cases "\<exists>k. memchr 35 (ep - bp) (drop bp (clientbuf g)) = Some k \<and> bp + k + 2 < ep")
        case False
        then have "f T bp ep pa g = Some r" using run by (simp split: option.splits if_splits)
        then show ?thesis by (rule IH)
      next
        case True
        then obtain k where k: "memchr 35 (ep - bp) (drop bp (clientbuf g)) = Some k" "bp + k + 2 < ep"
          by blast
        note run = run [unfolded k(1) option.case if_P [OF k(2)]]
        show ?thesis
        proof (cases "gdb_cmd T bp (bp + k) g")
          case (Inl e)
          then show ?thesis using run by (auto simp: packets_post_def)
        next
          case (Inr g')
          note fr = cmd_frame [OF Inr]
          note run = run [unfolded Inr sum.case]
          show ?thesis
          proof (cases "execute g'")
            case True
            then show ?thesis using run k(2) fr by (auto simp add: packets_post_def)
          next
            case False
            note run = run [unfolded if_not_P [OF False]]
            show ?thesis
              using k(2) fr by (intro packets_post_step [OF IH [OF run]]) simp_all
          qed
        qed
      qed
    qed
  qed
qed


definition buffer_ok :: "'h stub \<Rightarrow> bool" where
  "buffer_ok g \<longleftrightarrow> length (clientbuf g) = PKT_BUF_MAX \<and> cblen g \<le> PKT_BUF_MAX"

text \<open>What a turn of the loop keeps.\<close>

definition turn_frame :: "'h stub \<Rightarrow> 'h stub \<Rightarrow> bool" where
  "turn_frame g g' \<longleftrightarrow> (buffer_ok g \<longrightarrow> buffer_ok g') \<and> csock g' = csock g \<and>
     prefix (sent g) (sent g') \<and> same_model (mach g) (mach g')"

lemma turn_frame_trans: "turn_frame f g \<Longrightarrow> turn_frame g h \<Longrightarrow> turn_frame f h"
  using same_model_trans by (simp add: turn_frame_def) (metis prefix_order.trans)

lemma receive_frame:
  assumes "receive pa g = Some (Inr g')"
  shows "turn_frame g g'"
proof (cases "turns g")
  case (Cons t rest)
  then show ?thesis
  proof (cases "recv_out t")
    case (Received bs)
    let ?new = "take (PKT_BUF_MAX - cblen g) bs"
    have "length ?new \<le> PKT_BUF_MAX - cblen g" by simp
    moreover obtain ts where "g' = g\<lparr>
        clientbuf := take (cblen g) (clientbuf g) @ ?new @ drop (cblen g + length ?new) (clientbuf g),
        cblen := cblen g + length ?new, turns := ts\<rparr>"
      using assms Cons Received unfolding receive_def Let_def
      by (simp only: list.case recv_result.case) (auto split: if_splits simp del: PKT_BUF_MAX_def)
    ultimately show ?thesis by (auto simp: turn_frame_def buffer_ok_def)
  qed (use assms Cons in \<open>auto simp: receive_def turn_frame_def buffer_ok_def split: if_splits\<close>)
qed (use assms in \<open>simp add: receive_def\<close>)

lemma compact_frame:
  assumes "packets T 0 (cblen g) False g = Some (Inr (bp, pa, g'))"
  shows "turn_frame g (compact bp (cblen g) g')"
proof -
  have p: "packet_frame g g'" "bp \<le> cblen g" "cblen g' \<le> cblen g"
    using packets_post [OF assms] by (simp_all add: packets_post_def)
  then show ?thesis
    by (auto simp: turn_frame_def packet_frame_def compact_def buffer_ok_def)
qed

lemma interact_post:
  assumes "interact T pa g = Some r"
  shows "case r of Inl _ \<Rightarrow> True | Inr g' \<Rightarrow> turn_frame g g' \<and> execute g'"
proof (rule interact.raw_induct [where P = "\<lambda>T pa g r.
    case r of Inl _ \<Rightarrow> True | Inr g' \<Rightarrow> turn_frame g g' \<and> execute g'", OF _ assms])
  fix f :: "'a table \<Rightarrow> bool \<Rightarrow> 'a stub \<Rightarrow> (stop + 'a stub) option" and T pa g r
  assume IH: "\<And>T pa g r. f T pa g = Some r \<Longrightarrow>
      case r of Inl _ \<Rightarrow> True | Inr g' \<Rightarrow> turn_frame g g' \<and> execute g'"
    and run: "(case receive pa g of
        None \<Rightarrow> None
      | Some (Inl e) \<Rightarrow> Some (Inl e)
      | Some (Inr g) \<Rightarrow>
          Option.bind (packets T 0 (cblen g) False g) (\<lambda>r.
            case r of
              Inl e \<Rightarrow> Some (Inl e)
            | Inr (bp, pa, g') \<Rightarrow>
                let g' = compact bp (cblen g) g'
                in if execute g' then Some (Inr g') else f T pa g')) = Some r"
  show "case r of Inl _ \<Rightarrow> True | Inr g' \<Rightarrow> turn_frame g g' \<and> execute g'"
  proof (cases r)
    case (Inr g')
    obtain h where h: "receive pa g = Some (Inr h)"
      using run Inr by (cases "receive pa g") (auto split: sum.splits)
    note run = run [unfolded h option.case sum.case]
    obtain bp pa' k where k: "packets T 0 (cblen h) False h = Some (Inr (bp, pa', k))"
      using run Inr by (cases "packets T 0 (cblen h) False h") (auto split: sum.splits)
    let ?k = "compact bp (cblen h) k"
    have gk: "turn_frame g ?k"
      using turn_frame_trans [OF receive_frame [OF h] compact_frame [OF k]] .
    note run = run [unfolded k bind.bind_lunit sum.case prod.case Let_def]
    show ?thesis
    proof (cases "execute ?k")
      case True
      then show ?thesis using run gk by auto
    next
      case False
      then show ?thesis
        using IH [of T pa' ?k r] run Inr turn_frame_trans [OF gk] by simp
    qed
  qed simp
qed

lemma interactive_post:
  assumes "gdbstub_interactive T g = Some (Inr g')"
  shows "execute g' \<and> csock g' \<and> (buffer_ok g \<longrightarrow> buffer_ok g') \<and> prefix (sent g) (sent g') \<and>
    same_model (mach g) (mach g')"
proof -
  have g: "csock g" "interact T True (g\<lparr>execute := False\<rparr>) = Some (Inr g')"
    using assms by (auto simp: gdbstub_interactive_def Let_def split: if_splits)
  then have "turn_frame (g\<lparr>execute := False\<rparr>) g'" "execute g'"
    using interact_post [OF g(2)] by simp_all
  then show ?thesis using g(1) by (simp add: turn_frame_def buffer_ok_def)
qed

text \<open>
C21: Whatever a client sends, a return from gdbstub_interactive means that execution was
requested, the client buffer is still within its array, replies were only appended, flash,
machine model and counters are unchanged, and a replay that it started ends before the present
instruction.
\<close>

theorem interactive_keeps:
  assumes "gdbstub_interactive T g = Some (Inr g')"
  shows "execute g' \<and> csock g' \<and> (buffer_ok g \<longrightarrow> buffer_ok g') \<and> prefix (sent g) (sent g') \<and>
    same_model (mach g) (mach g')"
  by (rule interactive_post [OF assms])

end
