(* ===== verification/Gdb_Client.thy ===== *)
theory Gdb_Client
  imports Gdb_Spec Gdb_Frame
begin

text \<open>
  The stub as its client sees it: breakpoints that stop the emulator, packets that arrive whole
  or in pieces, and the packets that resume execution.
\<close>

unbundle bit_operations_syntax

section \<open>Breakpoints\<close>

definition hash_laws :: "'h table \<Rightarrow> bool" where
  "hash_laws T \<longleftrightarrow>
     (\<forall>x. \<not> g_hash_table_contains T (g_hash_table_new T) x) \<and>
     (\<forall>k h x. g_hash_table_contains T (g_hash_table_insert T k h) x \<longleftrightarrow>
        x = k \<or> g_hash_table_contains T h x) \<and>
     (\<forall>k h x. g_hash_table_contains T (g_hash_table_remove T k h) x \<longleftrightarrow>
        x \<noteq> k \<and> g_hash_table_contains T h x)"

lemma sendstr_S05:
  "link_ok g \<Longrightarrow> gdb_sendstr (lit ''S05'') g = Inr (reply (framed (bytes ''S05'')) g)"
  using sendstr_reply [of g "bytes ''S05''" "[]"] by (simp add: lit_def bytes_def)

lemma break_addr_read:
  assumes "hex_number A = Some a" "a < 2 ^ 32" "hex_val c = None" "c \<noteq> 120" "c \<noteq> 88"
  shows "break_addr line (bytes '','' @ A @ c # r) = Inr (of_nat a)"
  using scan_number [OF assms, of r]
  by (simp add: break_addr_def bytes_def scan_char_def then_scan_def matched_def)

lemma intr_running:
  assumes "link_ok g" "\<not> stepone (mach g)"
  shows "gdbstub_intr T g =
    (if g_hash_table_contains T (breakpoints g) (pc (mach g))
     then gdbstub_interactive T (reply (framed (bytes ''S05'')) g) else Some (Inr g))"
  using assms sendstr_S05 [OF assms(1)]
  by (simp add: gdbstub_intr_def gdbstub_breakpoint_def link_ok_def)

text \<open>
C26: With a hash table that behaves as a set, Z0 adds and z0 removes exactly the given address;
a running emulator stops for the debugger exactly when the program counter (in words) equals an
address in the table.
\<close>

theorem breakpoints:
  assumes "hash_laws T" and "link_ok g" "\<not> stepone (mach g)"
    and A: "hex_number A = Some a" "a < 2 ^ 32" "hex_val c = None" "c \<noteq> 120" "c \<noteq> 88"
  shows "\<exists>g'. (if add then gdb_addbreak T (bytes ''Z0,'' @ A @ c # r) x g
            else gdb_rembreak T (bytes ''z0,'' @ A @ c # r) x g) = Inr g' \<and>
    mach g' = mach g \<and> sent g' = sent g @ framed (bytes ''OK'') \<and>
    (\<forall>p. let k = on_mach (\<lambda>m. m\<lparr>pc := p\<rparr>) g' in
       gdbstub_intr T k =
         (if (if add then p = of_nat a \<or> g_hash_table_contains T (breakpoints g) p
              else p \<noteq> of_nat a \<and> g_hash_table_contains T (breakpoints g) p)
          then gdbstub_interactive T (reply (framed (bytes ''S05'')) k) else Some (Inr k)))"
proof -
  have split: "bytes ''Z0,'' @ A @ c # r = bytes ''Z0'' @ bytes '','' @ A @ c # r"
    "bytes ''z0,'' @ A @ c # r = bytes ''z0'' @ bytes '','' @ A @ c # r"
    by (simp_all add: bytes_def)
  have two: "drop 2 (bytes ''Z0'' @ s) = s" "drop 2 (bytes ''z0'' @ s) = s" for s
    by (simp_all add: bytes_def)
  let ?h = "(if add then g_hash_table_insert T (of_nat a) (breakpoints g)
      else g_hash_table_remove T (of_nat a) (breakpoints g))"
  let ?g = "reply (framed (bytes ''OK'')) (g\<lparr>breakpoints := ?h\<rparr>)"
  have "(if add then gdb_addbreak T (bytes ''Z0,'' @ A @ c # r) x g
            else gdb_rembreak T (bytes ''z0,'' @ A @ c # r) x g) = Inr ?g"
    unfolding split gdb_addbreak_def gdb_rembreak_def two break_addr_read [OF A]
    using assms(2) by (simp add: sendstr_ok)
  moreover have "gdbstub_intr T (on_mach (\<lambda>m. m\<lparr>pc := p\<rparr>) ?g) =
      (if (if add then p = of_nat a \<or> g_hash_table_contains T (breakpoints g) p
           else p \<noteq> of_nat a \<and> g_hash_table_contains T (breakpoints g) p)
       then gdbstub_interactive T (reply (framed (bytes ''S05'')) (on_mach (\<lambda>m. m\<lparr>pc := p\<rparr>) ?g))
       else Some (Inr (on_mach (\<lambda>m. m\<lparr>pc := p\<rparr>) ?g)))" for p
    using assms(1-3) by (subst intr_running) (auto simp: hash_laws_def on_mach_def)
  ultimately show ?thesis by (intro exI [of _ ?g]) (simp add: Let_def)
qed

section \<open>An incomplete packet\<close>

text \<open>There is no pound sign with two characters after it, and no acknowledgement in front.\<close>

definition stuck :: "nat \<Rightarrow> nat \<Rightarrow> 'h stub \<Rightarrow> bool" where
  "stuck bp ep g \<longleftrightarrow> bp < ep \<and> clientbuf g ! bp \<noteq> 43 \<and> clientbuf g ! bp \<noteq> 45 \<and>
     (case memchr 35 (ep - bp) (drop bp (clientbuf g)) of
        None \<Rightarrow> True | Some k \<Rightarrow> ep \<le> bp + k + 2)"

lemma stuck_spins:
  assumes "stuck bp ep g"
  shows "packets T bp ep pa g = None"
proof (rule ccontr)
  assume "packets T bp ep pa g \<noteq> None"
  then obtain r where r: "packets T bp ep pa g = Some r" by blast
  have "\<not> stuck bp ep g"
  proof (rule packets.raw_induct [where P = "\<lambda>T bp ep pa g r. \<not> stuck bp ep g", OF _ r])
    fix f :: "'a table \<Rightarrow> nat \<Rightarrow> nat \<Rightarrow> bool \<Rightarrow> 'a stub \<Rightarrow> (stop + (nat \<times> bool \<times> 'a stub)) option"
      and T bp ep pa g r
    assume IH: "\<And>T bp ep pa g r. f T bp ep pa g = Some r \<Longrightarrow> \<not> stuck bp ep g"
      and run: "(if bp < ep then
          if clientbuf g ! bp = 43 \<or> clientbuf g ! bp = 45 then
            f T (bp + 1) ep True (g\<lparr>cblen := cblen g - 1\<rparr>)
          else
            case memchr 35 (ep - bp) (drop bp (clientbuf g)) of
              Some k \<Rightarrow>
                if bp + k + 2 < ep then
                  case gdb_cmd T bp (bp + k) g of
                    Inl e \<Rightarrow> Some (Inl e)
                  | Inr g \<Rightarrow>
                      if execute g then Some (Inr (bp + k + 3, True, g))
                      else f T (bp + k + 3) ep True g
                else f T bp ep pa g
            | None \<Rightarrow> f T bp ep pa g
        else Some (Inr (bp, pa, g))) = Some r"
    show "\<not> stuck bp ep g"
    proof
      assume s: "stuck bp ep g"
      then have "f T bp ep pa g = Some r"
        using run by (auto simp: stuck_def split: option.splits if_splits)
      then show False using IH s by blast
    qed
  qed
  then show False using assms by blast
qed

lemma memchr_append: "n \<le> length p \<Longrightarrow> memchr c n (p @ r) = memchr c n p"
  by (induction c n p rule: memchr.induct) auto

lemma memchr_None: "c \<notin> set (take n s) \<Longrightarrow> memchr c n s = None"
  by (induction c n s rule: memchr.induct) auto

lemma memchr_first: "c \<notin> set p \<Longrightarrow> length p < n \<Longrightarrow> memchr c n (p @ c # r) = Some (length p)"
  by (induction p arbitrary: n) (auto simp: gr0_conv_Suc less_Suc_eq_0_disj Suc_less_eq2)

lemma receive_empty:
  assumes "cblen g = 0" "turns g = t # rest" "recv_out t = Received p" "p \<noteq> []" "length p \<le> PKT_BUF_MAX"
  shows "receive True g = Some (Inr (g\<lparr>clientbuf := p @ drop (length p) (clientbuf g),
    cblen := length p, turns := rest\<rparr>))"
  using assms by (simp add: receive_def Let_def)

text \<open>
C19: When a packet arrives in two pieces, gdbstub_interactive never returns: the inner loop goes
round forever on the first piece, whatever the client sends later.
\<close>

theorem split_packet_hangs:
  assumes "csock g" "cblen g = 0" "turns g = t # rest"
    and "recv_out t = Received (take k (framed s))" "0 < k" "k < length (framed s)"
    and "35 \<notin> set s" "length (framed s) \<le> PKT_BUF_MAX"
  shows "gdbstub_interactive T g = None"
proof -
  let ?p = "take k (framed s)"
  let ?h = "g\<lparr>execute := False, clientbuf := ?p @ drop (length ?p) (clientbuf g), cblen := length ?p, turns := rest\<rparr>"
  have f: "framed s = 36 # s @ 35 # hex2 (sum_list s)" by (simp add: framed_def bytes_def)
  have "length ?p = k" using assms(6) by simp
  then have p: "?p \<noteq> []" "length ?p \<le> PKT_BUF_MAX" "length ?p = k"
    using assms(5,6,8) by (auto simp del: length_take)
  have rec: "receive True (g\<lparr>execute := False\<rparr>) = Some (Inr ?h)"
    using receive_empty [of "g\<lparr>execute := False\<rparr>" t rest ?p] assms(2-4) p by simp
  have "k \<le> j + 2" if "memchr 35 k ?p = Some j" for j
  proof (cases "k \<le> length s + 1")
    case True
    then have "35 \<notin> set (take k ?p)"
      using assms(7) by (auto simp: f take_Cons' dest: in_set_takeD)
    then show ?thesis using that memchr_None by force
  next
    case False
    then have "?p = (36 # s) @ 35 # take (k - length s - 2) (hex2 (sum_list s))"
      by (simp add: f take_Cons' numeral_2_eq_2)
    then have "memchr 35 k ?p = Some (length (36 # s))"
      using memchr_first [of 35 "36 # s" k] assms(7) False by simp
    then show ?thesis using that assms(6) by simp
  qed
  moreover have "memchr 35 k (clientbuf ?h) = memchr 35 k ?p"
    using memchr_append [of k ?p 35] p(3) by simp
  moreover have "clientbuf ?h ! 0 = 36" using assms(5) by (simp add: f nth_append take_Cons')
  ultimately have "stuck 0 k ?h"
    using assms(5) unfolding stuck_def by (auto split: option.splits)
  then have "packets T 0 (cblen ?h) False ?h = None" using stuck_spins p(3) by simp
  then show ?thesis
    using assms(1) rec by (simp add: gdbstub_interactive_def interact.simps)
qed

section \<open>Resuming\<close>

lemma packets_acks:
  assumes "\<forall>i < n. clientbuf g ! (bp + i) = 43" "bp + n \<le> ep"
  shows "packets T bp ep pa g = packets T (bp + n) ep (pa \<or> 0 < n) (g\<lparr>cblen := cblen g - n\<rparr>)"
  using assms
proof (induction n arbitrary: bp pa g)
  case (Suc n)
  have "\<forall>i < n. clientbuf (g\<lparr>cblen := cblen g - 1\<rparr>) ! (bp + 1 + i) = 43"
    using Suc.prems(1) by (auto dest: spec [of _ "Suc i" for i])
  moreover have "clientbuf g ! bp = 43" using Suc.prems(1) by force
  ultimately show ?case
    using Suc.IH [of "g\<lparr>cblen := cblen g - 1\<rparr>" "bp + 1" True] Suc.prems(2)
    by (subst packets.simps) simp
qed simp


lemma hex2_number: "hex2 v = [a, b] \<Longrightarrow> \<exists>h l. hex_val a = Some h \<and> hex_val b = Some l \<and> v = of_nat (16 * h + l)"
proof -
  assume "hex2 v = [a, b]"
  moreover obtain h l where "hex2 v = [h, l]" "hex_val h = Some (unat v div 16)"
    "hex_val l = Some (unat v mod 16)" by (rule hex2_vals)
  moreover have "v = of_nat (16 * (unat v div 16) + unat v mod 16)"
    by (simp del: of_nat_add of_nat_mult)
  ultimately show ?thesis by (intro exI [of _ "unat v div 16"] exI [of _ "unat v mod 16"]) simp
qed

lemma cmd_framed:
  assumes "clientbuf g = pre @ framed s @ rest" "0 \<notin> set s" "length s < 2 ^ 32" "link_ok g"
  shows "gdb_cmd T (length pre) (length pre + 1 + length s) g =
    dispatch T (s @ 0 # hex2 (sum_list s) @ rest)
      (reply (bytes ''+'') (g\<lparr>clientbuf := pre @ 36 # s @ 0 # hex2 (sum_list s) @ rest\<rparr>))"
proof -
  obtain a b where ab: "hex2 (sum_list s) = [a, b]" by (simp add: hex2_def)
  then obtain h l where "hex_val a = Some h" "hex_val b = Some l" "sum_list s = of_nat (16 * h + l)"
    using hex2_number by blast
  moreover have "clientbuf g = pre @ 36 # s @ 35 # a # b # rest"
    using assms(1) ab by (simp add: framed_def bytes_def)
  ultimately show ?thesis using cmd_packet [of g pre s a b rest h l T] assms(2-4) ab by simp
qed

lemma packets_framed:
  assumes "clientbuf g = replicate n 43 @ framed s @ rest" "0 \<notin> set s" "35 \<notin> set s"
    and "length s < 2 ^ 32" "link_ok g"
    and d: "dispatch T (s @ 0 # hex2 (sum_list s) @ rest) (reply (bytes ''+'') (g\<lparr>cblen := cblen g - n,
        clientbuf := replicate n 43 @ 36 # s @ 0 # hex2 (sum_list s) @ rest\<rparr>)) = Inr g'"
    and "execute g'"
  shows "packets T 0 (n + length s + 4) pa g = Some (Inr (n + length s + 4, True, g'))"
proof -
  let ?g = "g\<lparr>cblen := cblen g - n\<rparr>" and ?ep = "n + length s + 4"
  have f: "framed s = 36 # s @ 35 # hex2 (sum_list s)" by (simp add: framed_def bytes_def)
  have "memchr 35 (length s + 4) ((36 # s) @ 35 # hex2 (sum_list s) @ rest) = Some (length s + 1)"
    using memchr_first [of 35 "36 # s" "length s + 4"] assms(3) by simp
  then have m: "memchr 35 (length s + 4) (drop n (clientbuf g)) = Some (length s + 1)"
    using assms(1) by (simp add: f)
  have c: "clientbuf g ! n = 36" using assms(1) by (simp add: f nth_append)
  have cmd: "gdb_cmd T n (n + (length s + 1)) ?g = Inr g'"
    using cmd_framed [of ?g "replicate n 43" s rest T] assms(1,2,4,5) d by simp
  have "packets T 0 ?ep pa g = packets T n ?ep (pa \<or> 0 < n) ?g"
    using packets_acks [of n g 0 ?ep T pa] assms(1) by (simp add: nth_append)
  also have "\<dots> = Some (Inr (?ep, True, g'))"
    using cmd assms(7) by (subst packets.simps) (simp add: m c)
  finally show ?thesis .
qed

definition resumed :: "string \<Rightarrow> machine \<Rightarrow> machine" where
  "resumed cmd m =
     (if cmd = ''s'' then m\<lparr>stepone := True\<rparr>
      else if cmd = ''bs'' then m\<lparr>replay_mode := True, insnreplaylim := insns m - 1\<rparr> else m)"

lemma dispatch_resume:
  assumes "link_ok g" "cmd = ''c'' \<or> cmd = ''s'' \<or> cmd = ''bs'' \<and> 0 < insns (mach g)"
  shows "dispatch T (bytes cmd @ 0 # r) g =
    Inr (reply (if cmd = ''c'' then [] else framed (bytes ''S05''))
      (g\<lparr>execute := True, mach := resumed cmd (mach g)\<rparr>))"
proof -
  have find: "find_cmd (bytes ''c'' @ 0 # r) = Some (disp ''c'' None None True)"
    "find_cmd (bytes ''s'' @ 0 # r) = Some (disp ''s'' None (Some Step) True)"
    "find_cmd (bytes ''bs'' @ 0 # r) = Some (disp ''bs'' None (Some Bstep) True)"
    by (simp_all add: find_cmd_def gdb_disp_def disp_def startswith_def bytes_def)
  have "reply [] g = g" for g :: "'a stub" by (cases g; cases "sends g") (auto simp: reply_def)
  then show ?thesis
    using assms
    by (auto simp: dispatch_def find disp_def gdb_step_def gdb_bstep_def on_mach_def resumed_def sendstr_S05)
qed


lemma resume_exec:
  assumes "link_ok g" "cblen g = 0" "length (clientbuf g) = PKT_BUF_MAX"
    and "turns g = t # rest" "recv_out t = Received (replicate n 43 @ framed (bytes cmd))"
    and cmd: "cmd = ''c'' \<or> cmd = ''s'' \<or> cmd = ''bs'' \<and> 0 < insns (mach g)"
    and "n + 6 \<le> PKT_BUF_MAX"
  shows "\<exists>g'. gdbstub_interactive T g = Some (Inr g') \<and> execute g' \<and> turns g' = rest \<and>
    mach g' = resumed cmd (mach g) \<and> breakpoints g' = breakpoints g \<and> cblen g' = 0 \<and>
    sent g' = sent g @ bytes ''+'' @ (if cmd = ''c'' then [] else framed (bytes ''S05''))"
proof -
  let ?s = "bytes cmd" and ?p = "replicate n 43 @ framed (bytes cmd)"
  have s: "0 \<notin> set ?s" "35 \<notin> set ?s" "length ?s \<le> 2" using cmd by (auto simp: bytes_def)
  let ?h = "g\<lparr>execute := False, clientbuf := ?p @ drop (length ?p) (clientbuf g), cblen := length ?p,
    turns := rest\<rparr>"
  let ?k = "reply (bytes ''+'') (?h\<lparr>cblen := cblen ?h - n,
      clientbuf := replicate n 43 @ 36 # ?s @ 0 # hex2 (sum_list ?s) @ drop (length ?p) (clientbuf g)\<rparr>)"
  let ?r = "reply (if cmd = ''c'' then [] else framed (bytes ''S05''))
      (?k\<lparr>execute := True, mach := resumed cmd (mach g)\<rparr>)"
  have "?p \<noteq> []" "length ?p \<le> PKT_BUF_MAX" using s(3) assms(7) by (auto simp: framed_def bytes_def)
  then have rec: "receive True (g\<lparr>execute := False\<rparr>) = Some (Inr ?h)"
    using receive_empty [of "g\<lparr>execute := False\<rparr>" t rest ?p] assms(2,4,5) by simp
  have "dispatch T (?s @ 0 # hex2 (sum_list ?s) @ drop (length ?p) (clientbuf g)) ?k = Inr ?r"
    using dispatch_resume [of ?k cmd T] cmd assms(1) by simp
  then have "packets T 0 (n + length ?s + 4) False ?h = Some (Inr (n + length ?s + 4, True, ?r))"
    using s assms(1) by (intro packets_framed) simp_all
  then have "interact T True (g\<lparr>execute := False\<rparr>) =
      Some (Inr (compact (n + length ?s + 4) (n + length ?s + 4) ?r))"
    using rec by (simp add: interact.simps [of T True "g\<lparr>execute := False\<rparr>"] compact_def add.assoc)
  then show ?thesis
    using assms(1) by (simp add: gdbstub_interactive_def link_ok_def compact_def)
qed


end
