(* ===== verification/Loop_Spec.thy ===== *)
theory Loop_Spec
  imports Gdb_Frame Step_Spec
begin

text \<open>
  The main loop \<open>emulate\<close>: it ends after the given number of instructions, and it
  carries out a reverse step by running the program again from the start.
\<close>

unbundle bit_operations_syntax

section \<open>Several instructions\<close>

primrec emulate1s :: "des_ecb \<Rightarrow> nat \<Rightarrow> machine \<Rightarrow> fault + machine" where
  "emulate1s des 0 m = Inr m"
| "emulate1s des (Suc n) m = bindR (emulate1 des m) (emulate1s des n)"

lemma u64_diff_Suc:
  fixes a b :: u64
  assumes "unat b - unat a = Suc n"
  shows "unat (a + 1) = unat a + 1" "unat b - unat (a + 1) = n" "a < b"
proof -
  have "unat b < 2 ^ LENGTH(64)" by (rule unsigned_less)
  then have "unat a + 1 < 2 ^ 64" using assms by simp
  then show *: "unat (a + 1) = unat a + 1" by (simp add: unat_word_ariths)
  show "unat b - unat (a + 1) = n" using assms * by simp
  show "a < b" using assms by (simp add: word_less_nat_alt)
qed

lemma emulate1_runs:
  assumes "emulate1 des m = Inr m'" "\<not> skip_next_instruction m"
  shows "insns m' = insns m + 1" "insnlimit m' = insnlimit m" "insnreplaylim m' = insnreplaylim m"
    "off m' = off m" "replay_mode m' = replay_mode m" "\<not> skip_next_instruction m'"
  using emulate1_kept [OF assms(1)] assms(2) by (simp_all add: outside_def)

lemma emulate_limit:
  assumes "\<not> csock g" "\<not> replay_mode (mach g)" "\<not> off (mach g)" "\<not> skip_next_instruction (mach g)"
    and "insns (mach g) < insnlimit (mach g)"
  shows "emulate T des [] g =
    Some (case emulate1s des (unat (insnlimit (mach g)) - unat (insns (mach g))) (mach g) of
            Inl f \<Rightarrow> Inl (Stop_core f) | Inr m \<Rightarrow> Inr (g\<lparr>mach := m\<rparr>))"
proof -
  have "emulate T des [] g = Some (case emulate1s des (Suc n) (mach g) of
            Inl f \<Rightarrow> Inl (Stop_core f) | Inr m \<Rightarrow> Inr (g\<lparr>mach := m\<rparr>))"
    if "unat (insnlimit (mach g)) - unat (insns (mach g)) = Suc n" for n
    using that assms
  proof (induction n arbitrary: g)
    case (0 g)
    note u = u64_diff_Suc [OF 0(1)]
    have l: "insnlimit (mach g) \<le> insns (mach g) + 1" "insnlimit (mach g) \<noteq> 0"
      using u by (auto simp: word_le_nat_alt)
    show ?case
    proof (cases "emulate1 des (mach g)")
      case (Inl f)
      then show ?thesis using 0 by (subst emulate.simps) (simp add: end_replay_def gdbstub_intr_def)
    next
      case (Inr m)
      note r = emulate1_runs [OF Inr 0(5)]
      show ?thesis
        using 0 Inr r l by (subst emulate.simps) (simp add: end_replay_def gdbstub_intr_def)
    qed
  next
    case (Suc n g)
    note u = u64_diff_Suc [OF Suc(2)]
    show ?case
    proof (cases "emulate1 des (mach g)")
      case (Inl f)
      then show ?thesis using Suc by (subst emulate.simps) (simp add: end_replay_def gdbstub_intr_def)
    next
      case (Inr m)
      note r = emulate1_runs [OF Inr Suc(6)]
      have n: "unat (insnlimit m) - unat (insns m) = Suc n" using u r by simp
      note v = u64_diff_Suc [OF n]
      have "\<not> insnlimit (mach g) \<le> insns (mach g) + 1" using v(3) r by simp
      then have "emulate T des [] g = emulate T des [] (g\<lparr>mach := m\<rparr>)"
        using Suc.prems Inr r by (subst emulate.simps) (simp add: end_replay_def gdbstub_intr_def)
      then show ?thesis using Suc.IH [of "g\<lparr>mach := m\<rparr>"] Suc.prems n r v(3) Inr by (simp cong: sum.case_cong)
    qed
  qed
  moreover obtain n where "unat (insnlimit (mach g)) - unat (insns (mach g)) = Suc n"
    using assms(5) by (metis Suc_diff_Suc word_less_nat_alt)
  ultimately show ?thesis by simp
qed

lemma replay_runs:
  assumes "unat (insnreplaylim (mach g)) - unat (insns (mach g)) = n" "insns (mach g) \<le> insnreplaylim (mach g)"
    and "replay_mode (mach g)" "\<not> off (mach g)" "\<not> skip_next_instruction (mach g)"
    and "insnlimit (mach g) = 0 \<or> insnreplaylim (mach g) < insnlimit (mach g)"
  shows "emulate T des [] g = (case emulate1s des n (mach g) of
            Inl f \<Rightarrow> Some (Inl (Stop_core f)) | Inr m \<Rightarrow> emulate T des [] (g\<lparr>mach := m\<rparr>))"
  using assms
proof (induction n arbitrary: g)
  case (Suc n g)
  note u = u64_diff_Suc [OF Suc(2)]
  have nl: "\<not> insnreplaylim (mach g) \<le> insns (mach g)" "\<not> insnreplaylim (mach g) < insns (mach g)"
    using u(3) by simp_all
  show ?case
  proof (cases "emulate1 des (mach g)")
    case (Inl f)
    then show ?thesis using Suc.prems nl by (subst emulate.simps) (simp add: end_replay_def)
  next
    case (Inr m)
    note r = emulate1_runs [OF Inr Suc(6)]
    have le: "insns m \<le> insnreplaylim m" using u(1,3) r by (simp add: word_le_nat_alt word_less_nat_alt)
    have "\<not> (insnlimit m \<noteq> 0 \<and> insnlimit m \<le> insns m)" using le r Suc.prems(6) by auto
    then have "emulate T des [] g = emulate T des [] (g\<lparr>mach := m\<rparr>)"
      using Suc.prems Inr r nl by (subst emulate.simps) (auto simp: end_replay_def Let_def)
    then show ?thesis using Suc.IH [of "g\<lparr>mach := m\<rparr>"] Suc.prems u r le Inr by (simp cong: sum.case_cong)
  qed
qed simp


end
