(* ===== verification/Console.thy ===== *)
theory Console
  imports Gdb_Wire
begin

text \<open>
  What \<open>main.c\<close> prints: the formats of \<open>printf\<close> that it uses, the clock and the
  statistics (\<open>now\<close>, \<open>print_ips\<close>), the two aborting reports, the memory dumps and the
  usage message. The text is a list of bytes.
\<close>

unbundle bit_operations_syntax

section \<open>Formats\<close>

text \<open>Digits of a number in a base up to sixteen, the most significant first.\<close>

fun digits_in :: "nat \<Rightarrow> nat \<Rightarrow> nat list" where
  "digits_in b n = (if b \<le> 1 \<or> n < b then [n] else digits_in b (n div b) @ [n mod b])"

declare digits_in.simps [simp del]

definition number_text :: "nat \<Rightarrow> nat \<Rightarrow> u8 list" where
  "number_text b n = map (\<lambda>d. hex_digit (of_nat d)) (digits_in b n)"

definition zero_pad :: "nat \<Rightarrow> u8 list \<Rightarrow> u8 list" where
  "zero_pad w s = replicate (w - length s) 48 @ s"

text \<open>\<open>%ju\<close>, \<open>%u\<close> and \<open>%zu\<close>; \<open>%#0wx\<close>, whose width includes the prefix, which a zero
  does not get.\<close>

definition fmt_u :: "nat \<Rightarrow> u8 list" where
  "fmt_u n = number_text 10 n"

definition fmt_hash_x :: "nat \<Rightarrow> nat \<Rightarrow> u8 list" where
  "fmt_hash_x w n =
     (if n = 0 then zero_pad w (bytes ''0'') else bytes ''0x'' @ zero_pad (w - 2) (number_text 16 n))"

section \<open>The clock\<close>

text \<open>
  \<open>clock_gettime\<close> gives seconds and nanoseconds, or fails. Stops that only printing can
  reach: the failed \<open>ASSERT\<close> on the clock and a division by zero.
\<close>

datatype print_stop = Clock_failed | Division_by_zero | Load_fault fault

definition now :: "(u64 \<times> u64) option \<Rightarrow> print_stop + u64" where
  "now ts = (case ts of None \<Rightarrow> Inl Clock_failed
     | Some (tv_sec, tv_nsec) \<Rightarrow> Inr (1000000 * tv_sec + tv_nsec div 1000))"

definition print_ips :: "(u64 \<times> u64) option \<Rightarrow> u64 \<Rightarrow> machine \<Rightarrow> print_stop + u8 list" where
  "print_ips ts start m =
     bindR (now ts) (\<lambda>end.
     let end = (if end = start then end + 1 else end)
     in if end - start = 0 then Inl Division_by_zero
        else Inr (bytes ''Approx. '' @ fmt_u (unat (insns m * 1000000 div (end - start))) @
               bytes '' instructions per second (Total: '' @ fmt_u (unat (insns m)) @ bytes '').'' @ [10]))"

section \<open>Reports\<close>

text \<open>The common text of \<open>_unhandled\<close> and \<open>_illins\<close>; the three words are read unchecked.\<close>

definition raw_words :: "machine \<Rightarrow> u8 list" where
  "raw_words m = concat (map (\<lambda>i. hex4 (flash m (unat (pc_start m + of_nat i)))) [0..<3])"

definition unhandled_text :: "u8 list \<Rightarrow> nat \<Rightarrow> u16 \<Rightarrow> machine \<Rightarrow> print_stop + u8 list" where
  "unhandled_text f l w m =
     (case report_oob m of
        Some i \<Rightarrow> Inl (Load_fault (Array_bounds i))
      | None \<Rightarrow> Inr (f @ bytes '':'' @ fmt_u l @ bytes '': Instruction: '' @ fmt_hash_x 4 (unat w) @
          bytes '' @PC='' @ fmt_hash_x 6 (unat (pc_start m)) @ bytes '' is not implemented'' @ [10] @
          bytes ''Raw at PC: '' @ raw_words m @ [10]))"

definition illins_text :: "u8 list \<Rightarrow> nat \<Rightarrow> u16 \<Rightarrow> machine \<Rightarrow> print_stop + u8 list" where
  "illins_text f l w m =
     (case report_oob m of
        Some i \<Rightarrow> Inl (Load_fault (Array_bounds i))
      | None \<Rightarrow> Inr (f @ bytes '':'' @ fmt_u l @ bytes '': ILLEGAL Instruction: '' @ fmt_hash_x 4 (unat w) @
          bytes '' @PC='' @ fmt_hash_x 6 (unat (pc_start m)) @ [10] @
          bytes ''Raw at PC: '' @ raw_words m @ [10]))"

section \<open>Memory dumps\<close>

text \<open>\<open>%02x\<close> of what \<open>membyte\<close> returns, which is below 256.\<close>

definition print_membyte :: "u32 \<Rightarrow> machine \<Rightarrow> print_stop + u8 list" where
  "print_membyte a m =
     (case membyte a m of Inl e \<Rightarrow> Inl (Load_fault e) | Inr v \<Rightarrow> Inr (hex2 (ucast v)))"

text \<open>The loop of \<open>dumpmem\<close> from \<open>i\<close> on, with \<open>n\<close> bytes to go.\<close>

fun dump_loop :: "u16 \<Rightarrow> u32 \<Rightarrow> nat \<Rightarrow> machine \<Rightarrow> print_stop + u8 list" where
  "dump_loop addr i 0 m = Inr []"
| "dump_loop addr i (Suc n) m =
     bindR (print_membyte (ucast addr + i) m) (\<lambda>b.
     bindR (dump_loop addr (i + 1) n m) (\<lambda>rest.
     Inr (b @ (if i mod 0x10 = 0xf then [10] else []) @ rest)))"

definition dumpmem :: "u16 \<Rightarrow> u32 \<Rightarrow> machine \<Rightarrow> print_stop + u8 list" where
  "dumpmem addr len m = dump_loop addr 0 (unat len) m"

definition printmemword :: "u8 list \<Rightarrow> u16 \<Rightarrow> machine \<Rightarrow> print_stop + u8 list" where
  "printmemword pre addr m =
     bindR (print_membyte (ucast addr) m) (\<lambda>b0.
     bindR (print_membyte (ucast addr + 1) m) (\<lambda>b1.
     Inr (pre @ b0 @ b1)))"

section \<open>Messages\<close>

text \<open>The body of \<open>print_regs\<close> is compiled out.\<close>

definition print_regs :: "machine \<Rightarrow> u8 list" where
  "print_regs m = []"

definition usage :: "u8 list" where
  "usage = concat (map (\<lambda>s. bytes s @ [10])
     [''usage: avr-emu FLAGS [binaryimage]'',
      '''',
      ''  FLAGS:'',
      ''    -g            Debug with GDB'',
      ''    -l=<N>        Limit execution to N instructions'',
      ''    -t=TRACEFILE  Emit instruction trace'',
      ''    -x            Trace output in hex''])"

text \<open>What \<open>abort_nodump\<close> prints before it closes the debugger's socket and exits with 1.\<close>

definition abort_nodump_text :: "(u64 \<times> u64) option \<Rightarrow> u64 \<Rightarrow> machine \<Rightarrow> print_stop + u8 list" where
  "abort_nodump_text ts start m = bindR (print_ips ts start m) (\<lambda>s. Inr (print_regs m @ s))"

section \<open>Numbers read back\<close>

definition number_value :: "nat \<Rightarrow> nat list \<Rightarrow> nat" where
  "number_value b ds = foldl (\<lambda>v d. b * v + d) 0 ds"

lemma digits_value_back: "1 < b \<Longrightarrow> number_value b (digits_in b n) = n"
proof (induction b n rule: digits_in.induct)
  case (1 b n)
  then show ?case by (subst digits_in.simps) (simp add: number_value_def)
qed

lemma digits_below: "1 < b \<Longrightarrow> d \<in> set (digits_in b n) \<Longrightarrow> d < b"
proof (induction b n rule: digits_in.induct)
  case (1 b n)
  then show ?case by (subst (asm) (2) digits_in.simps) (auto split: if_splits)
qed

section \<open>The rate\<close>

lemma print_ips_value:
  assumes "now ts = Inr e"
  shows "print_ips ts start m =
    Inr (bytes ''Approx. '' @ fmt_u (unat (insns m * 1000000 div (if e = start then 1 else e - start))) @
      bytes '' instructions per second (Total: '' @ fmt_u (unat (insns m)) @ bytes '').'' @ [10])"
  using assms by (auto simp: print_ips_def Let_def)

theorem print_ips_rate:
  assumes "now ts = Inr e" "start \<le> e" "unat (insns m) \<le> 18446744073709"
  shows "print_ips ts start m =
    Inr (bytes ''Approx. '' @ fmt_u (unat (insns m) * 1000000 div max 1 (unat e - unat start)) @
      bytes '' instructions per second (Total: '' @ fmt_u (unat (insns m)) @ bytes '').'' @ [10])"
proof -
  have "unat (insns m) * unat (1000000 :: u64) < 2 ^ LENGTH(64)" using assms(3) by simp
  then have mul: "unat (insns m * 1000000) = unat (insns m) * 1000000"
    by (subst (asm) unat_mult_lem) simp
  have "unat (if e = start then 1 else e - start) = max 1 (unat e - unat start)"
  proof (cases "e = start")
    case False
    then have "start < e" using assms(2) by simp
    then show ?thesis using False by (simp add: unat_sub word_less_nat_alt less_imp_le)
  qed simp
  then show ?thesis using print_ips_value [OF assms(1)] mul by (simp add: unat_div)
qed

section \<open>Dumps\<close>

lemma print_membyte_in: "unat a < MEM_SIZE \<Longrightarrow> print_membyte a m = Inr (hex2 (memory m (unat a)))"
proof -
  assume "unat a < MEM_SIZE"
  then have "a AND NOT 0xffffff = 0" using data_range_check [of a] by (auto simp: not_less)
  moreover have "ucast (ucast b :: u16) = b" for b :: u8 by (rule bit_word_eqI) (auto simp: bit_simps)
  ultimately show ?thesis by (simp add: print_membyte_def membyte_def)
qed

lemma dump_loop_text:
  assumes "unat addr + unat i + n \<le> MEM_SIZE"
  shows "dump_loop addr i n m = Inr (concat (map (\<lambda>j. hex2 (memory m (unat addr + j)) @
    (if j mod 16 = 15 then [10] else [])) [unat i..<unat i + n]))"
  using assms
proof (induction n arbitrary: i)
  case (Suc n)
  have u: "unat (ucast addr :: u32) = unat addr" by (simp add: unsigned_ucast_eq take_bit_nat_eq_self)
  have a: "unat (ucast addr + i) = unat addr + unat i"
    using Suc.prems by (simp add: unat_word_ariths u)
  have i: "unat (i + 1) = unat i + 1" using Suc.prems by (simp add: unat_word_ariths)
  have "i mod 16 = 15 \<longleftrightarrow> unat (i mod 16) = 15" by (simp add: word_unat_eq_iff)
  then have c: "i mod 16 = 15 \<longleftrightarrow> unat i mod 16 = 15" by (simp add: unat_mod)
  have "dump_loop addr (i + 1) n m = Inr (concat (map (\<lambda>j. hex2 (memory m (unat addr + j)) @
    (if j mod 16 = 15 then [10] else [])) [Suc (unat i)..<Suc (unat i) + n]))"
    using Suc.IH [of "i + 1"] Suc.prems i by simp
  moreover have "print_membyte (ucast addr + i) m = Inr (hex2 (memory m (unat addr + unat i)))"
    using Suc.prems print_membyte_in [of "ucast addr + i" m] a by simp
  ultimately show ?case by (simp add: c upt_conv_Cons del: upt_Suc)
qed simp

theorem dumpmem_text:
  assumes "unat addr + unat len \<le> MEM_SIZE"
  shows "dumpmem addr len m = Inr (concat (map (\<lambda>j. hex2 (memory m (unat addr + j)) @
    (if j mod 16 = 15 then [10] else [])) [0..<unat len]))"
  using dump_loop_text [of addr 0 "unat len" m] assms by (simp add: dumpmem_def)

end
