(* ===== verification/Main_Program.thy ===== *)
theory Main_Program
  imports Loop_Spec Console
begin

text \<open>
  \<open>main\<close>: the options, the loading of the image into flash, and the run. What \<open>getopt\<close>
  returns, whether the files can be opened and which socket calls succeed are arguments.
\<close>

unbundle bit_operations_syntax

section \<open>Options\<close>

text \<open>
  \<open>atoll\<close>: white space, a sign, decimal digits; zero without digits. A number that does not
  fit into \<open>long long\<close> is undefined in C.
\<close>

definition atoll :: "u8 list \<Rightarrow> stop + u64" where
  "atoll s =
     (let s = dropWhile is_space s;
          neg = (s \<noteq> [] \<and> hd s = 45);
          s = (if s \<noteq> [] \<and> (hd s = 43 \<or> hd s = 45) then tl s else s);
          n = number_value 10 (map (\<lambda>c. unat c - 48) (takeWhile (\<lambda>c. 48 \<le> c \<and> c \<le> 57) s))
      in if neg then (if 2 ^ 63 < n then Inl Stop_range else Inr (- of_nat n))
         else (if 2 ^ 63 \<le> n then Inl Stop_range else Inr (of_nat n)))"

text \<open>
  One result of \<open>getopt\<close>, with its argument; for the trace file, whether \<open>fopen\<close>
  opened it.
\<close>

datatype getopt_result = Opt_g | Opt_l "u8 list" | Opt_t bool | Opt_x | Opt_other

fun main_opts :: "getopt_result list \<Rightarrow> bool \<Rightarrow> machine \<Rightarrow> stop + (bool \<times> machine)" where
  "main_opts [] waitgdb m = Inr (waitgdb, m)"
| "main_opts (Opt_g # os) waitgdb m = main_opts os True m"
| "main_opts (Opt_l optarg # os) waitgdb m =
     bindR (atoll optarg) (\<lambda>n. main_opts os waitgdb (m\<lparr>insnlimit := n\<rparr>))"
| "main_opts (Opt_t opened # os) waitgdb m =
     (if \<not> opened then Inl (Stop_exit 1) else main_opts os waitgdb (m\<lparr>tracefile := Some []\<rparr>))"
| "main_opts (Opt_x # os) waitgdb m = main_opts os waitgdb (m\<lparr>tracehex := True\<rparr>)"
| "main_opts (Opt_other # os) waitgdb m = Inl (Stop_exit 1)"

section \<open>The instruction limit\<close>

lemma decimal_digit:
  assumes "d < 10"
  shows "hex_digit (of_nat d) = of_nat (48 + d)" "48 \<le> (of_nat (48 + d) :: u8)" "(of_nat (48 + d) :: u8) \<le> 57"
    "unat (of_nat (48 + d) :: u8) - 48 = d" "\<not> is_space (of_nat (48 + d))"
    "(of_nat (48 + d) :: u8) \<noteq> 43" "(of_nat (48 + d) :: u8) \<noteq> 45"
proof -
  have "d \<in> {0, 1, 2, 3, 4, 5, 6, 7, 8, 9}" using assms by auto
  then show "hex_digit (of_nat d) = of_nat (48 + d)" "48 \<le> (of_nat (48 + d) :: u8)" "(of_nat (48 + d) :: u8) \<le> 57"
    "unat (of_nat (48 + d) :: u8) - 48 = d" "\<not> is_space (of_nat (48 + d))"
    "(of_nat (48 + d) :: u8) \<noteq> 43" "(of_nat (48 + d) :: u8) \<noteq> 45"
    by (auto simp: hex_digit_def is_space_def word_less_nat_alt word_le_nat_alt)
qed

lemma digits_nonempty: "digits_in b n \<noteq> []"
  by (subst digits_in.simps) simp

lemma atoll_fmt:
  assumes "n < 2 ^ 63"
  shows "atoll (fmt_u n) = Inr (of_nat n)"
proof -
  let ?ds = "digits_in 10 n"
  have b: "d < 10" if "d \<in> set ?ds" for d using that digits_below [of 10 d n] by simp
  have f: "fmt_u n = map (\<lambda>d. of_nat (48 + d)) ?ds"
    unfolding fmt_u_def number_text_def using b decimal_digit(1) by (intro map_cong) blast+
  obtain d ds where ds: "?ds = d # ds" using digits_nonempty by (cases ?ds) auto
  have s: "dropWhile is_space (fmt_u n) = fmt_u n" "hd (fmt_u n) \<noteq> 43" "hd (fmt_u n) \<noteq> 45"
    unfolding f using b [of d] decimal_digit [of d] by (simp_all add: ds)
  have t: "takeWhile (\<lambda>c. 48 \<le> c \<and> c \<le> 57) (fmt_u n) = fmt_u n"
    unfolding f using b decimal_digit(2,3) by (intro takeWhile_eq_all_conv [THEN iffD2]) auto
  have v: "map (\<lambda>c. unat c - 48) (fmt_u n) = ?ds"
    unfolding f using b decimal_digit(4) by (intro nth_equalityI) (auto simp del: of_nat_add)
  show ?thesis
    unfolding atoll_def Let_def s(1) using s(2,3) assms by (simp add: t v digits_value_back)
qed

text \<open>
C31: The option -l with the decimal text of a number sets that number as the instruction limit;
with the equals sign that the usage message shows it sets zero, which means no limit.
\<close>

theorem limit_option:
  assumes "n < 2 ^ 63"
  shows "main_opts [Opt_l (fmt_u n)] w m = Inr (w, m\<lparr>insnlimit := of_nat n\<rparr>) \<and>
    main_opts [Opt_l (bytes ''='' @ fmt_u n)] w m = Inr (w, m\<lparr>insnlimit := 0\<rparr>)"
proof -
  have "atoll (bytes ''='' @ fmt_u n) = Inr 0"
    by (simp add: atoll_def bytes_def is_space_def number_value_def)
  then show ?thesis using atoll_fmt [OF assms] by simp
qed

section \<open>The image\<close>

text \<open>
  \<open>fread\<close> of 16-bit words on a little-endian host until nothing comes any more or flash is
  full. A last odd byte is no whole word; C leaves that word indeterminate, here it is unchanged.
\<close>

definition load_image :: "u8 list \<Rightarrow> machine \<Rightarrow> machine" where
  "load_image bs m =
     m\<lparr>flash := (\<lambda>i. if i < min (length bs div 2) FLASH_SIZE
                   then le_word (bs ! (2 * i)) (bs ! (2 * i + 1)) else flash m i)\<rparr>"

section \<open>The program\<close>

text \<open>
  The image is \<open>None\<close> when no file name was given and \<open>Some None\<close> when the file cannot
  be opened. The value is the state in which the program returns zero, the way it stops, or
  \<open>None\<close> when it does not end.
\<close>

definition main_program :: "net \<Rightarrow> 'h table \<Rightarrow> des_ecb \<Rightarrow> bool list \<Rightarrow> getopt_result list \<Rightarrow>
    u8 list option option \<Rightarrow> 'h stub \<Rightarrow> (stop + 'h stub) option" where
  "main_program net T des ctrlc opts rom g =
     (case main_opts opts False (mach g) of
        Inl e \<Rightarrow> Some (Inl e)
      | Inr (waitgdb, m) \<Rightarrow>
          case rom of
            None \<Rightarrow> Some (Inl (Stop_exit 1))
          | Some None \<Rightarrow> Some (Inl (Stop_exit 1))
          | Some (Some bs) \<Rightarrow>
              let m = load_image bs (init m);
                  g = g\<lparr>mach := m\<lparr>pc := 0\<rparr>\<rparr>
              in case (if waitgdb then gdbstub_init net T g else Inr g) of
                   Inl e \<Rightarrow> Some (Inl e)
                 | Inr g \<Rightarrow>
                     case emulate T des ctrlc g of
                       None \<Rightarrow> None
                     | Some (Inl e) \<Rightarrow> Some (Inl e)
                     | Some (Inr g) \<Rightarrow> Some (Inr (gdbstub_stopped g)))"

section \<open>Bounded runs\<close>

lemma emulate1s_frame:
  assumes "emulate1s des n m = Inr m'" "\<not> skip_next_instruction m"
  shows "flash m' = flash m \<and> insns m' = insns m + of_nat n"
  using assms
proof (induction n arbitrary: m)
  case (Suc n)
  then obtain k where k: "emulate1 des m = Inr k" "emulate1s des n k = Inr m'"
    by (auto elim: bindR_InrE)
  then show ?case
    using Suc.IH [OF k(2)] emulate1_kept [OF k(1)] Suc.prems(2) by (simp add: outside_def)
qed simp

text \<open>
C12: Run without a debugger and with an instruction limit, the program always ends: after
exactly that many instructions of the image, started at address zero, or at the first fault;
flash still holds the image.
\<close>

theorem main_limit:
  assumes "main_opts opts False (mach g) = Inr (False, m)" "insnlimit m \<noteq> 0"
    and "\<not> csock g" "\<not> replay_mode m"
  shows "main_program net T des [] opts (Some (Some bs)) g =
    Some (case emulate1s des (unat (insnlimit m)) (load_image bs (init m)) of
            Inl f \<Rightarrow> Inl (Stop_core f) | Inr m' \<Rightarrow> Inr (g\<lparr>mach := m'\<rparr>)) \<and>
    (\<forall>m'. emulate1s des (unat (insnlimit m)) (load_image bs (init m)) = Inr m' \<longrightarrow>
       insns m' = insnlimit m \<and> flash m' = flash (load_image bs m))"
proof -
  let ?m = "load_image bs (init m)"
  have m: "?m\<lparr>pc := 0\<rparr> = ?m" by (simp add: load_image_def init_def)
  have "emulate T des [] (g\<lparr>mach := ?m\<rparr>) =
      Some (case emulate1s des (unat (insnlimit m)) ?m of
              Inl f \<Rightarrow> Inl (Stop_core f) | Inr m' \<Rightarrow> Inr (g\<lparr>mach := m'\<rparr>))"
    using assms(2-4) emulate_limit [of "g\<lparr>mach := ?m\<rparr>" T des]
    by (simp add: load_image_def init_def word_neq_0_conv cong: sum.case_cong)
  moreover have "insns m' = insnlimit m \<and> flash m' = flash (load_image bs m)"
    if "emulate1s des (unat (insnlimit m)) ?m = Inr m'" for m'
    using emulate1s_frame [OF that] by (simp add: load_image_def init_def cong: if_cong)
  ultimately show ?thesis
    using assms(1,3) by (auto simp: main_program_def Let_def m gdbstub_stopped_def split: sum.splits)
qed

end
