(* ===== verification/Gdb_Session.thy ===== *)
theory Gdb_Session
  imports Gdb_Client Main_Program
begin

text \<open>
  Whole runs under the debugger: the main loop with a client that does not interfere is the main
  loop without one, and what the debugger keeps over a turn of the loop.
\<close>

section \<open>A debugger that stays quiet\<close>

text \<open>No replay is on, and a connected client has neither a step pending nor a breakpoint set.\<close>

definition quiet :: "'h table \<Rightarrow> 'h stub \<Rightarrow> bool" where
  "quiet T g \<longleftrightarrow> \<not> replay_mode (mach g) \<and>
     (csock g \<longrightarrow> \<not> stepone (mach g) \<and> (\<forall>a. \<not> g_hash_table_contains T (breakpoints g) a))"

lemma quiet_hooks: "quiet T g \<Longrightarrow> end_replay g = g \<and> gdbstub_intr T g = Some (Inr g)"
  by (auto simp: quiet_def end_replay_def gdbstub_intr_def)

lemma quiet_step: "quiet T g \<Longrightarrow> emulate1 des (mach g) = Inr m \<Longrightarrow> quiet T (g\<lparr>mach := m\<rparr>)"
  using emulate1_kept [of des "mach g" m] by (simp add: quiet_def outside_def)

lemma emulate_machine_only:
  assumes "emulate T des c g = Some r"
  shows "quiet T g \<longrightarrow> (\<forall>h. quiet T h \<and> mach h = mach g \<longrightarrow>
    emulate T des c h = Some (map_sum id (\<lambda>k. h\<lparr>mach := mach k\<rparr>) r))"
proof (rule emulate.raw_induct [where P = "\<lambda>T des c g r. quiet T g \<longrightarrow> (\<forall>h. quiet T h \<and> mach h = mach g \<longrightarrow>
    emulate T des c h = Some (map_sum id (\<lambda>k. h\<lparr>mach := mach k\<rparr>) r))", OF _ assms])
  fix f :: "'a table \<Rightarrow> des_ecb \<Rightarrow> bool list \<Rightarrow> 'a stub \<Rightarrow> (stop + 'a stub) option" and T des c g r
  assume IH: "\<And>T des c g r. f T des c g = Some r \<Longrightarrow> quiet T g \<longrightarrow> (\<forall>h. quiet T h \<and> mach h = mach g \<longrightarrow>
      emulate T des c h = Some (map_sum id (\<lambda>k. h\<lparr>mach := mach k\<rparr>) r))"
    and run: "(if c \<noteq> [] \<and> hd c then Some (Inl (Stop_exit 1))
      else
        let g = end_replay g
        in case (if \<not> replay_mode (mach g) then gdbstub_intr T g else Some (Inr g)) of
             None \<Rightarrow> None
           | Some (Inl e) \<Rightarrow> Some (Inl e)
           | Some (Inr g) \<Rightarrow>
               if replay_mode (mach g) \<and> insnreplaylim (mach g) < insns (mach g) then
                 f T des (tl c) (on_mach (\<lambda>m. (init m)\<lparr>pc := 0\<rparr>) g)
               else if off (mach g) then Some (Inr g)
               else
                 case emulate1 des (mach g) of
                   Inl f \<Rightarrow> Some (Inl (Stop_core f))
                 | Inr m \<Rightarrow>
                     let g = g\<lparr>mach := m\<rparr>
                     in if off m then Some (Inr g)
                        else if insnlimit m \<noteq> 0 \<and> insnlimit m \<le> insns m then Some (Inr g)
                        else f T des (tl c) g) = Some r"
  show "quiet T g \<longrightarrow> (\<forall>h. quiet T h \<and> mach h = mach g \<longrightarrow>
      emulate T des c h = Some (map_sum id (\<lambda>k. h\<lparr>mach := mach k\<rparr>) r))"
  proof (intro impI allI)
    fix h
    assume q: "quiet T g" and "quiet T h \<and> mach h = mach g"
    then have h: "quiet T h" "mach h = mach g" by simp_all
    have n: "\<not> replay_mode (mach g)" using q by (simp add: quiet_def)
    note hooks = quiet_hooks [OF q] quiet_hooks [OF h(1)]
    have same: "h\<lparr>mach := mach g\<rparr> = h" using h(2) by (cases h) simp
    show "emulate T des c h = Some (map_sum id (\<lambda>k. h\<lparr>mach := mach k\<rparr>) r)"
    proof (cases "c \<noteq> [] \<and> hd c \<or> off (mach g) \<or> isl (emulate1 des (mach g))")
      case True
      then show ?thesis
        using run n h(2) same by (subst emulate.simps) (auto simp: hooks Let_def isl_def split: if_splits sum.splits)
    next
      case False
      then obtain m where m: "emulate1 des (mach g) = Inr m" by (cases "emulate1 des (mach g)") auto
      have nxt: "emulate T des c h = (if off m \<or> insnlimit m \<noteq> 0 \<and> insnlimit m \<le> insns m
          then Some (Inr (h\<lparr>mach := m\<rparr>)) else emulate T des (tl c) (h\<lparr>mach := m\<rparr>))"
        using False m n h(2) by (subst emulate.simps) (auto simp: hooks Let_def)
      have run: "(if off m \<or> insnlimit m \<noteq> 0 \<and> insnlimit m \<le> insns m
          then Some (Inr (g\<lparr>mach := m\<rparr>)) else f T des (tl c) (g\<lparr>mach := m\<rparr>)) = Some r"
        using run False m n by (auto simp: hooks Let_def split: if_splits)
      have "quiet T (h\<lparr>mach := m\<rparr>)" using quiet_step [OF h(1)] m h(2) by simp
      then show ?thesis
        using IH [of T des "tl c" "g\<lparr>mach := m\<rparr>" r] quiet_step [OF q m] nxt run
        by (auto split: if_splits)
    qed
  qed
qed

lemma debugger_transparent:
  assumes "quiet T g" "quiet T h" "mach h = mach g"
  shows "emulate T des c h = map_option (map_sum id (\<lambda>k. h\<lparr>mach := mach k\<rparr>)) (emulate T des c g)"
proof (cases "emulate T des c g")
  case (Some r)
  then show ?thesis using emulate_machine_only [OF Some] assms by simp
next
  case None
  have "emulate T des c h = None"
  proof (rule ccontr)
    assume "emulate T des c h \<noteq> None"
    then obtain r where "emulate T des c h = Some r" by blast
    then show False using emulate_machine_only [of T des c h r] assms None by simp
  qed
  then show ?thesis using None by simp
qed

section \<open>Continuing at once\<close>

lemma emulate_after_hook:
  assumes "gdbstub_intr T g = Some (Inr h)" "quiet T h" "\<not> replay_mode (mach g)"
  shows "emulate T des c g = emulate T des c h"
proof -
  have "end_replay g = g" using assms(3) by (simp add: end_replay_def)
  then show ?thesis
    using assms quiet_hooks [OF assms(2)] by (simp add: emulate.simps [of T des c])
qed

text \<open>
C11: A program started with the debugger whose client sends a continue command at once ends in
the same way and with the same machine as the program started without the debugger, and does not
end when that does not.
\<close>

theorem continue_transparent:
  assumes "hash_laws T" "socket_ok n \<and> reuseaddr_ok n \<and> bind_ok n \<and> listen_ok n \<and> accept_ok n \<and> nodelay_ok n \<and> keepalive_ok n"
    and "\<not> csock g" "\<not> stepone (mach g)" "\<not> replay_mode (mach g)"
    and "\<forall>w \<in> set (sends g). 0 < w" "cblen g = 0" "length (clientbuf g) = PKT_BUF_MAX"
    and "turns g = t # rest" "recv_out t = Received (replicate k 43 @ framed (bytes ''c''))" "k + 6 \<le> PKT_BUF_MAX"
    and "main_opts opts False (mach g) = Inr (False, m)" "main_opts gopts False (mach g) = Inr (True, m)"
  shows "map_option (map_sum id mach) (main_program n T des c gopts (Some (Some bs)) g) =
    map_option (map_sum id mach) (main_program n T des c opts (Some (Some bs)) g)"
proof -
  let ?m = "load_image bs (init m)"
  have o: "\<not> stepone m \<and> \<not> replay_mode m" if "main_opts os w u = Inr (v, m)" "\<not> stepone u \<and> \<not> replay_mode u"
    for os w u v
    using that by (induction os w u rule: main_opts.induct) (auto elim!: bindR_InrE split: if_splits)
  have m: "?m\<lparr>pc := 0\<rparr> = ?m" "\<not> stepone ?m" "\<not> replay_mode ?m"
    using o [OF assms(12)] assms(4,5) by (simp_all add: load_image_def init_def)
  let ?g = "g\<lparr>mach := ?m\<rparr>"
  let ?i = "?g\<lparr>lsock := True, csock := True, breakpoints := g_hash_table_new T, mach := ?m\<lparr>stepone := True\<rparr>\<rparr>"
  have init: "gdbstub_init n T ?g = Inr ?i" using assms(2) by (simp add: gdbstub_init_cases)
  let ?j = "on_mach (\<lambda>m. m\<lparr>stepone := False\<rparr>) ?i"
  have "link_ok ?j" using assms(6) by (simp add: link_ok_def on_mach_def)
  then obtain h where h: "gdbstub_interactive T ?j = Some (Inr h)" "mach h = resumed ''c'' (mach ?j)"
    "breakpoints h = g_hash_table_new T"
    using resume_exec [of ?j t rest k "''c''" T] assms(7-11) by (auto simp: on_mach_def)
  have mh: "mach h = ?m" using h(2) m(2) by (simp add: resumed_def on_mach_def)
  have q: "quiet T h" "quiet T ?g"
    using mh h(3) m(2,3) assms(1,3) by (simp_all add: quiet_def hash_laws_def)
  have "gdbstub_intr T ?i = Some (Inr h)" using h(1) by (simp add: gdbstub_intr_def)
  then have e: "emulate T des c ?i = emulate T des c h"
    using q(1) m(3) by (intro emulate_after_hook) simp_all
  show ?thesis
    using debugger_transparent [OF q(2,1), of des c] mh assms(12,13) init e
    by (cases "emulate T des c ?g")
      (auto simp: main_program_def Let_def m(1) gdbstub_stopped_def split: sum.splits)
qed

section \<open>What the debugger keeps over a run\<close>

definition session_frame :: "'h stub \<Rightarrow> 'h stub \<Rightarrow> bool" where
  "session_frame g h \<longleftrightarrow> (buffer_ok g \<longrightarrow> buffer_ok h) \<and> csock h = csock g \<and> prefix (sent g) (sent h) \<and>
     flash (mach h) = flash (mach g) \<and> insnlimit (mach h) = insnlimit (mach g) \<and>
     tracehex (mach h) = tracehex (mach g)"

lemma session_frame_refl [simp]: "session_frame g g"
  by (simp add: session_frame_def)

lemma session_frame_trans: "session_frame f g \<Longrightarrow> session_frame g h \<Longrightarrow> session_frame f h"
  by (simp add: session_frame_def) (metis prefix_order.trans)

lemma session_frame_mach:
  "flash m = flash (mach g) \<Longrightarrow> insnlimit m = insnlimit (mach g) \<Longrightarrow> tracehex m = tracehex (mach g) \<Longrightarrow>
   session_frame g (g\<lparr>mach := m\<rparr>)"
  by (simp add: session_frame_def buffer_ok_def)

lemma interactive_session: "gdbstub_interactive T g = Some (Inr h) \<Longrightarrow> session_frame g h"
proof -
  assume i: "gdbstub_interactive T g = Some (Inr h)"
  then have "csock g" by (auto simp: gdbstub_interactive_def Let_def split: if_splits)
  then show ?thesis using interactive_post [OF i] by (simp add: session_frame_def same_model_def)
qed

lemma intr_session: "gdbstub_intr T g = Some (Inr h) \<Longrightarrow> session_frame g h"
proof -
  assume i: "gdbstub_intr T g = Some (Inr h)"
  have s: "session_frame g (on_mach (\<lambda>m. m\<lparr>stepone := False\<rparr>) g)"
    unfolding on_mach_def by (rule session_frame_mach) simp_all
  have b: "session_frame g k" if "gdbstub_breakpoint g = Inr k" for k
    using that sendstr_frame [of "lit ''S05''" g k]
    by (auto simp: gdbstub_breakpoint_def session_frame_def stub_frame_def same_model_def buffer_ok_def split: if_splits)
  show ?thesis
    using i interactive_session session_frame_trans s b
    by (fastforce simp: gdbstub_intr_def split: if_splits sum.splits)
qed

lemma end_replay_session: "session_frame g (end_replay g)"
  by (auto simp: end_replay_def on_mach_def intro!: session_frame_mach)

end
