(* ===== verification/Loop_Steps.thy ===== *)
theory Loop_Steps
  imports Gdb_Session
begin

text \<open>
  The main loop as a state machine: one turn of \<open>emulate\<close> is a step between configurations, or
  it ends the run, or it waits for the client forever. The partial function \<open>emulate\<close> agrees
  with the machine, and what holds of every reachable configuration also holds of runs that never
  return.
\<close>

section \<open>One turn\<close>

text \<open>A configuration: the values of \<open>ctrlc\<close> still to be read, and the stub with the machine.\<close>

type_synonym 'h config = "bool list \<times> 'h stub"

text \<open>What a turn does before it executes: the end of a replay, then the debugger.\<close>

definition hook :: "'h table \<Rightarrow> 'h stub \<Rightarrow> (stop + 'h stub) option" where
  "hook T g = (if \<not> replay_mode (mach (end_replay g)) then gdbstub_intr T (end_replay g)
     else Some (Inr (end_replay g)))"

definition interrupted :: "bool list \<Rightarrow> bool" where
  "interrupted c \<longleftrightarrow> c \<noteq> [] \<and> hd c"

definition rewinds :: "machine \<Rightarrow> bool" where
  "rewinds m \<longleftrightarrow> replay_mode m \<and> insnreplaylim m < insns m"

definition at_limit :: "machine \<Rightarrow> bool" where
  "at_limit m \<longleftrightarrow> insnlimit m \<noteq> 0 \<and> insnlimit m \<le> insns m"

inductive loop_step :: "'h table \<Rightarrow> des_ecb \<Rightarrow> 'h config \<Rightarrow> 'h config \<Rightarrow> bool" for T des where
  Rewind: "\<not> interrupted c \<Longrightarrow> hook T g = Some (Inr k) \<Longrightarrow> rewinds (mach k) \<Longrightarrow>
     loop_step T des (c, g) (tl c, on_mach (\<lambda>m. (init m)\<lparr>pc := 0\<rparr>) k)"
| Execute: "\<not> interrupted c \<Longrightarrow> hook T g = Some (Inr k) \<Longrightarrow> \<not> rewinds (mach k) \<Longrightarrow> \<not> off (mach k) \<Longrightarrow>
     emulate1 des (mach k) = Inr m \<Longrightarrow> \<not> off m \<Longrightarrow> \<not> at_limit m \<Longrightarrow>
     loop_step T des (c, g) (tl c, k\<lparr>mach := m\<rparr>)"

inductive loop_ends :: "'h table \<Rightarrow> des_ecb \<Rightarrow> 'h config \<Rightarrow> stop + 'h stub \<Rightarrow> bool" for T des where
  Interrupt: "interrupted c \<Longrightarrow> loop_ends T des (c, g) (Inl (Stop_exit 1))"
| Stub: "\<not> interrupted c \<Longrightarrow> hook T g = Some (Inl e) \<Longrightarrow> loop_ends T des (c, g) (Inl e)"
| Off: "\<not> interrupted c \<Longrightarrow> hook T g = Some (Inr k) \<Longrightarrow> \<not> rewinds (mach k) \<Longrightarrow> off (mach k) \<Longrightarrow>
     loop_ends T des (c, g) (Inr k)"
| Fault: "\<not> interrupted c \<Longrightarrow> hook T g = Some (Inr k) \<Longrightarrow> \<not> rewinds (mach k) \<Longrightarrow> \<not> off (mach k) \<Longrightarrow>
     emulate1 des (mach k) = Inl f \<Longrightarrow> loop_ends T des (c, g) (Inl (Stop_core f))"
| Done: "\<not> interrupted c \<Longrightarrow> hook T g = Some (Inr k) \<Longrightarrow> \<not> rewinds (mach k) \<Longrightarrow> \<not> off (mach k) \<Longrightarrow>
     emulate1 des (mach k) = Inr m \<Longrightarrow> off m \<or> at_limit m \<Longrightarrow> loop_ends T des (c, g) (Inr (k\<lparr>mach := m\<rparr>))"

text \<open>The debugger's hook does not return: the client is silent, or the stub goes round forever.\<close>

definition loop_waits :: "'h table \<Rightarrow> 'h config \<Rightarrow> bool" where
  "loop_waits T s \<longleftrightarrow> \<not> interrupted (fst s) \<and> hook T (snd s) = None"

abbreviation reaches :: "'h table \<Rightarrow> des_ecb \<Rightarrow> 'h config \<Rightarrow> 'h config \<Rightarrow> bool" where
  "reaches T des \<equiv> (loop_step T des)\<^sup>*\<^sup>*"

inductive_cases loop_stepE: "loop_step T des (c, g) s"
inductive_cases loop_endsE: "loop_ends T des (c, g) r"

section \<open>Exactly one of the three\<close>

lemma loop_progress: "(\<exists>s'. loop_step T des s s') \<or> (\<exists>r. loop_ends T des s r) \<or> loop_waits T s"
proof (cases s)
  case (Pair c g)
  consider "interrupted c" | "\<not> interrupted c" "hook T g = None" | e where "\<not> interrupted c" "hook T g = Some (Inl e)"
    | k where "\<not> interrupted c" "hook T g = Some (Inr k)"
    by (cases "hook T g") (auto, metis sum.exhaust)
  then show ?thesis
  proof cases
    case (4 k)
    then show ?thesis
      unfolding Pair by (cases "emulate1 des (mach k)") (metis loop_step.intros loop_ends.intros)+
  qed (auto simp: Pair loop_waits_def intro: loop_ends.intros)
qed

lemma loop_step_fun: "loop_step T des s a \<Longrightarrow> loop_step T des s b \<Longrightarrow> a = b"
  by (induction rule: loop_step.induct) (auto elim!: loop_stepE)

lemma loop_ends_fun: "loop_ends T des s a \<Longrightarrow> loop_ends T des s b \<Longrightarrow> a = b"
  by (induction rule: loop_ends.induct) (auto elim!: loop_endsE)

lemma ends_no_step: "loop_ends T des s r \<Longrightarrow> \<not> loop_step T des s s' \<and> \<not> loop_waits T s"
  by (induction rule: loop_ends.induct) (auto elim!: loop_stepE simp: loop_waits_def)

section \<open>The loop is the machine\<close>

lemma emulate_turn:
  "emulate T des c g =
     (if interrupted c then Some (Inl (Stop_exit 1))
      else case hook T g of
             None \<Rightarrow> None
           | Some (Inl e) \<Rightarrow> Some (Inl e)
           | Some (Inr k) \<Rightarrow>
               if rewinds (mach k) then emulate T des (tl c) (on_mach (\<lambda>m. (init m)\<lparr>pc := 0\<rparr>) k)
               else if off (mach k) then Some (Inr k)
               else case emulate1 des (mach k) of
                      Inl f \<Rightarrow> Some (Inl (Stop_core f))
                    | Inr m \<Rightarrow> if off m \<or> at_limit m then Some (Inr (k\<lparr>mach := m\<rparr>))
                               else emulate T des (tl c) (k\<lparr>mach := m\<rparr>))"
  by (subst emulate.simps)
    (auto simp: interrupted_def hook_def rewinds_def at_limit_def Let_def split: option.split sum.split)

lemma step_emulate: "loop_step T des (c, g) (c', h) \<Longrightarrow> emulate T des c g = emulate T des c' h"
  by (subst emulate_turn) (auto elim!: loop_stepE)

lemma ends_emulate: "loop_ends T des (c, g) r \<Longrightarrow> emulate T des c g = Some r"
  by (subst emulate_turn) (auto elim!: loop_endsE)

lemma reaches_emulate: "reaches T des (c, g) (c', h) \<Longrightarrow> emulate T des c g = emulate T des c' h"
proof (induction "(c', h)" arbitrary: c' h rule: rtranclp_induct)
  case (step s)
  then show ?case using step_emulate [of T des "fst s" "snd s" c' h] by (cases s) simp
qed simp

lemma emulate_reaches:
  assumes "emulate T des c g = Some r"
  shows "\<exists>s. reaches T des (c, g) s \<and> loop_ends T des s r"
proof (rule emulate.raw_induct [where P = "\<lambda>T des c g r. \<exists>s. reaches T des (c, g) s \<and> loop_ends T des s r", OF _ assms])
  fix f :: "'a table \<Rightarrow> des_ecb \<Rightarrow> bool list \<Rightarrow> 'a stub \<Rightarrow> (stop + 'a stub) option" and T des c g r
  assume IH: "\<And>T des c g r. f T des c g = Some r \<Longrightarrow> \<exists>s. reaches T des (c, g) s \<and> loop_ends T des s r"
    and run: "(if c \<noteq> [] \<and> hd c then Some (Inl (Stop_exit 1))
      else
        let g = end_replay g
        in case (if \<not> replay_mode (mach g) then gdbstub_intr T g else Some (Inr g)) of
             None \<Rightarrow> None
           | Some (Inl e) \<Rightarrow> Some (Inl e)
           | Some (Inr g) \<Rightarrow>
               if replay_mode (mach g) \<and> insnreplaylim (mach g) < insns (mach g) then
                 f T des (tl c) (on_mach (\<lambda>m. (init m)\<lparr>pc := 0\<rparr>) g)
               else if off (mach g) then Some (Inr g)
               else
                 case emulate1 des (mach g) of
                   Inl f \<Rightarrow> Some (Inl (Stop_core f))
                 | Inr m \<Rightarrow>
                     let g = g\<lparr>mach := m\<rparr>
                     in if off m then Some (Inr g)
                        else if insnlimit m \<noteq> 0 \<and> insnlimit m \<le> insns m then Some (Inr g)
                        else f T des (tl c) g) = Some r"
  have later: "\<exists>s. reaches T des (c, g) s \<and> loop_ends T des s r"
    if "loop_step T des (c, g) (tl c, u)" "f T des (tl c) u = Some r" for u
    using IH [OF that(2)] that(1) by (meson converse_rtranclp_into_rtranclp)
  have now: "\<exists>s. reaches T des (c, g) s \<and> loop_ends T des s r" if "loop_ends T des (c, g) r"
    using that by blast
  note run = run [unfolded interrupted_def [symmetric] Let_def hook_def [symmetric] rewinds_def [symmetric]
      at_limit_def [symmetric]]
  from loop_progress [of T des "(c, g)"]
  show "\<exists>s. reaches T des (c, g) s \<and> loop_ends T des s r"
  proof (elim disjE exE)
    fix s
    assume s: "loop_step T des (c, g) s"
    then obtain u where "s = (tl c, u)" "f T des (tl c) u = Some r"
      using run by (auto elim!: loop_stepE)
    then show ?thesis using later s by blast
  next
    fix q
    assume q: "loop_ends T des (c, g) q"
    then have "q = r" using run by (auto elim!: loop_endsE split: if_splits)
    then show ?thesis using now q by blast
  next
    assume "loop_waits T (c, g)"
    then show ?thesis using run by (simp add: loop_waits_def)
  qed
qed


section \<open>Invariants of the reachable configurations\<close>

definition limit_ok :: "machine \<Rightarrow> bool" where
  "limit_ok m \<longleftrightarrow> (insnlimit m \<noteq> 0 \<longrightarrow> insns m < insnlimit m)"

definition replay_ok :: "machine \<Rightarrow> bool" where
  "replay_ok m \<longleftrightarrow> (replay_mode m \<longrightarrow> insns m \<le> insnreplaylim m) \<and> \<not> skip_next_instruction m"

text \<open>The hook keeps the limit; a replay that is on after it has not ended, or rewinds.\<close>

lemma end_replay_ok: "replay_ok (mach g) \<Longrightarrow> replay_ok (mach (end_replay g))"
  by (auto simp: end_replay_def on_mach_def replay_ok_def)

lemma intr_model:
  assumes "gdbstub_intr T g = Some (Inr h)"
  shows "same_model (mach g) (mach h)"
proof -
  have b: "same_model (mach g) (mach k)" if "gdbstub_breakpoint g = Inr k" for k
    using that sendstr_frame [of "lit ''S05''" g k]
    by (auto simp: gdbstub_breakpoint_def stub_frame_def split: if_splits)
  have "same_model (mach g) (mach (on_mach (\<lambda>m. m\<lparr>stepone := False\<rparr>) g))" by (simp add: on_mach_def)
  then show ?thesis
    using assms b interactive_post same_model_trans
    by (fastforce simp: gdbstub_intr_def split: if_splits sum.splits)
qed

lemma hook_ok:
  assumes "hook T g = Some (Inr k)" "replay_ok (mach g)" "\<not> rewinds (mach k)"
  shows "insns (mach k) = insns (mach g) \<and> insnlimit (mach k) = insnlimit (mach g) \<and>
    \<not> skip_next_instruction (mach k) \<and> (replay_mode (mach k) \<longrightarrow> insns (mach k) < insnreplaylim (mach k))"
proof -
  let ?e = "end_replay g"
  have e: "insns (mach ?e) = insns (mach g)" "insnlimit (mach ?e) = insnlimit (mach g)"
    "\<not> skip_next_instruction (mach ?e)" "replay_mode (mach ?e) \<longrightarrow> insns (mach ?e) < insnreplaylim (mach ?e)"
    using assms(2) by (auto simp: end_replay_def on_mach_def replay_ok_def not_le)
  show ?thesis
  proof (cases "replay_mode (mach ?e)")
    case True
    then show ?thesis using assms(1) e by (simp add: hook_def)
  next
    case False
    then have "same_model (mach ?e) (mach k)" using assms(1) intr_model by (simp add: hook_def)
    then show ?thesis using e False assms(3) by (auto simp: same_model_def rewinds_def)
  qed
qed

lemma hook_session: "hook T g = Some (Inr k) \<Longrightarrow> session_frame g k"
  using session_frame_trans [OF end_replay_session, of g k] intr_session [of T "end_replay g" k]
  by (auto simp: hook_def split: if_splits)

lemma step_keeps:
  assumes "loop_step T des (c, g) (c', h)"
  shows "session_frame g h \<and> (limit_ok (mach g) \<and> replay_ok (mach g) \<longrightarrow> limit_ok (mach h) \<and> replay_ok (mach h))"
  using assms
proof (cases rule: loop_step.cases)
  case (Rewind k)
  have "session_frame k h"
    unfolding Rewind on_mach_def by (rule session_frame_mach) (simp_all add: init_def)
  then have s: "session_frame g h" using session_frame_trans [OF hook_session [OF Rewind(4)]] by simp
  have "limit_ok (mach h) \<and> replay_ok (mach h)"
    by (simp add: Rewind on_mach_def init_def limit_ok_def replay_ok_def word_neq_0_conv)
  then show ?thesis using s by simp
next
  case (Execute k m)
  note kept = emulate1_kept [OF Execute(7)]
  have "session_frame k h"
    unfolding Execute using kept by (intro session_frame_mach) (simp_all add: outside_def)
  then have s: "session_frame g h" using session_frame_trans [OF hook_session [OF Execute(4)]] by simp
  have l: "limit_ok m" using Execute(9) by (auto simp: limit_ok_def at_limit_def)
  have "replay_ok m" if "replay_ok (mach g)"
    using hook_ok [OF Execute(4) that Execute(5)] kept inc_le [of "insns (mach k)" "insnreplaylim (mach k)"]
    by (auto simp: replay_ok_def outside_def)
  then show ?thesis using s l by (simp add: Execute)
qed

lemma reaches_keeps:
  assumes "reaches T des (c, g) (c', h)"
  shows "session_frame g h \<and> (limit_ok (mach g) \<and> replay_ok (mach g) \<longrightarrow> limit_ok (mach h) \<and> replay_ok (mach h))"
  using assms
proof (induction "(c', h)" arbitrary: c' h rule: rtranclp_induct)
  case (step s)
  then show ?case
    using session_frame_trans step_keeps [of T des "fst s" "snd s" c' h] by (cases s) (simp, blast)
qed simp

text \<open>
C13: In every configuration that the main loop reaches, also in runs that never return and
whatever the client sends: flash and the instruction limit are unchanged, the client buffer
stays within its array, replies are only appended, fewer instructions than the limit were
executed, a replay has not passed its end, and no skip is pending.
\<close>

theorem loop_invariant:
  assumes "reaches T des (c, g) (c', h)"
  shows "session_frame g h \<and> (limit_ok (mach g) \<and> replay_ok (mach g) \<longrightarrow> limit_ok (mach h) \<and> replay_ok (mach h))"
  by (rule reaches_keeps [OF assms])

text \<open>So a run that returns keeps the frame too.\<close>

lemma ends_keeps:
  assumes "loop_ends T des (c, g) (Inr h)"
  shows "session_frame g h"
  using assms
proof (cases rule: loop_ends.cases)
  case (Done k m)
  then have "session_frame k h"
    using emulate1_kept [of des "mach k" m] by (auto intro: session_frame_mach simp: outside_def)
  then show ?thesis using session_frame_trans [OF hook_session] Done by blast
qed (auto intro: hook_session)

lemma session_keeps: "emulate T des c g = Some (Inr h) \<Longrightarrow> session_frame g h"
proof -
  assume "emulate T des c g = Some (Inr h)"
  then obtain s where s: "reaches T des (c, g) s" "loop_ends T des s (Inr h)" using emulate_reaches by blast
  then show ?thesis
    using reaches_keeps [of T des c g "fst s" "snd s"] ends_keeps [of T des "fst s" "snd s" h] session_frame_trans
    by (simp, blast)
qed

section \<open>The limit under the debugger\<close>

lemma ends_limit:
  assumes "loop_ends T des (c, g) (Inr h)" "limit_ok (mach g)" "replay_ok (mach g)" "insnlimit (mach g) \<noteq> 0"
  shows "insns (mach h) \<le> insnlimit (mach g)"
  using assms(1)
proof (cases rule: loop_ends.cases)
  case Off
  then show ?thesis using hook_ok [of T g h] assms by (simp add: limit_ok_def)
next
  case (Done k m)
  have "insns (mach k) < insnlimit (mach g)" "\<not> skip_next_instruction (mach k)"
    using hook_ok [OF Done(3) assms(3) Done(4)] assms by (simp_all add: limit_ok_def)
  then show ?thesis using Done emulate1_kept [OF Done(6)] inc_le by simp
qed

text \<open>
C15: A program run with an instruction limit that returns has counted at most that many
instructions and has the image in flash, also under a debugger that steps, goes backwards and
replays in any way.
\<close>

theorem main_bounded:
  assumes "main_program net T des c opts (Some (Some bs)) g = Some (Inr h)"
    and "main_opts opts False (mach g) = Inr (w, m)" "insnlimit m \<noteq> 0" "\<not> replay_mode m"
  shows "insns (mach h) \<le> insnlimit m \<and> flash (mach h) = flash (load_image bs m)"
proof -
  let ?m = "load_image bs (init m)"
  have m: "?m\<lparr>pc := 0\<rparr> = ?m" "flash ?m = flash (load_image bs m)" "insnlimit ?m = insnlimit m"
    "limit_ok ?m" "replay_ok ?m"
    using assms(3,4) by (simp_all add: load_image_def init_def limit_ok_def replay_ok_def word_neq_0_conv cong: if_cong)
  note run = assms(1) [unfolded main_program_def assms(2) sum.case prod.case option.case Let_def m(1)]
  obtain k where k: "(if w then gdbstub_init net T (g\<lparr>mach := ?m\<rparr>) else Inr (g\<lparr>mach := ?m\<rparr>)) = Inr k"
    using run by (auto split: sum.splits)
  then have u: "mach k = ?m \<or> mach k = ?m\<lparr>stepone := True\<rparr>"
    by (auto simp: gdbstub_init_cases split: if_splits)
  obtain l where l: "emulate T des c k = Some (Inr l)" "h = gdbstub_stopped l"
    using run [unfolded k sum.case] by (auto split: sum.splits option.splits)
  obtain d v where s: "reaches T des (c, k) (d, v)" "loop_ends T des (d, v) (Inr l)"
    using emulate_reaches [OF l(1)] by auto
  have "limit_ok (mach k) \<and> replay_ok (mach k) \<and> insnlimit (mach k) = insnlimit m"
    using u m by (auto simp: limit_ok_def replay_ok_def)
  then have "insns (mach l) \<le> insnlimit m"
    using reaches_keeps [OF s(1)] ends_limit [OF s(2)] assms(3) by (auto simp: session_frame_def)
  moreover have "flash (mach l) = flash (load_image bs m)"
    using session_keeps [OF l(1)] u m(2) by (auto simp: session_frame_def)
  ultimately show ?thesis by (simp add: l(2) gdbstub_stopped_def)
qed

end
