(* ===== verification/Gdb_Stream.thy ===== *)
theory Gdb_Stream
  imports Gdb_Client
begin

text \<open>
  The interactive loop on whole packets: a specification that works on the list of packets of a
  conversation instead of positions in a buffer, and the proof that the loops of the stub
  implement it.
\<close>

unbundle bit_operations_syntax

section \<open>A conversation\<close>

text \<open>What a client sends: acknowledgements (plus or minus) and packets.\<close>

datatype item = Ack bool | Packet "u8 list"

primrec wire :: "item \<Rightarrow> u8 list" where
  "wire (Ack p) = [if p then 43 else 45]"
| "wire (Packet s) = framed s"

definition wires :: "item list \<Rightarrow> u8 list" where
  "wires is = concat (map wire is)"

primrec item_ok :: "item \<Rightarrow> bool" where
  "item_ok (Ack p) = True"
| "item_ok (Packet s) = (0 \<notin> set s \<and> 35 \<notin> set s \<and> length s < 2 ^ 32)"

text \<open>What a packet looks like in the buffer once its pound sign is overwritten.\<close>

definition served :: "u8 list \<Rightarrow> u8 list" where
  "served s = 36 # s @ 0 # hex2 (sum_list s)"

text \<open>
  The specification: every item in turn, an acknowledgement is dropped, a packet is acknowledged
  and dispatched, and the first command that resumes execution ends it. The result is the number
  of bytes consumed and the stub. The bytes behind a packet are still in the buffer while it is
  dispatched.
\<close>

fun serve :: "'h table \<Rightarrow> u8 list \<Rightarrow> item list \<Rightarrow> u8 list \<Rightarrow> 'h stub \<Rightarrow> stop + (nat \<times> 'h stub)" where
  "serve T pre [] tail g = Inr (length pre, g)"
| "serve T pre (Ack p # is) tail g = serve T (pre @ wire (Ack p)) is tail (g\<lparr>cblen := cblen g - 1\<rparr>)"
| "serve T pre (Packet s # is) tail g =
     (let rest = wires is @ tail
      in bindR (dispatch T (s @ 0 # hex2 (sum_list s) @ rest)
            (reply (bytes ''+'') (g\<lparr>clientbuf := pre @ served s @ rest\<rparr>))) (\<lambda>g'.
         if execute g' then Inr (length pre + length s + 4, g')
         else serve T (pre @ served s) is tail g'))"

lemma wires_simps [simp]: "wires [] = []" "wires (i # is) = wire i @ wires is"
  by (simp_all add: wires_def)

lemma length_served [simp]: "length (served s) = length s + 4"
  by (simp add: served_def)

text \<open>The inner loop on a buffer that holds whole items from \<open>bp\<close> to \<open>ep\<close>.\<close>

lemma packets_serve_from:
  assumes "list_all item_ok is" "link_ok g" "clientbuf g = pre @ wires is @ tail"
  shows "packets T (length pre) (length pre + length (wires is)) pa g =
    Some (map_sum id (\<lambda>(bp, h). (bp, pa \<or> is \<noteq> [], h)) (serve T pre is tail g))"
  using assms
proof (induction T pre "is" tail g arbitrary: pa rule: serve.induct)
  case (1 T pre tail g)
  then show ?case by (subst packets.simps) simp
next
  case (2 T pre p "is" tail g)
  have "packets T (length pre + 1) (length pre + 1 + length (wires is)) True (g\<lparr>cblen := cblen g - 1\<rparr>) =
      Some (map_sum id (\<lambda>(bp, h). (bp, True, h)) (serve T (pre @ wire (Ack p)) is tail (g\<lparr>cblen := cblen g - 1\<rparr>)))"
    using 2(1) [of True] 2(2-4) by (simp add: id_def)
  moreover have "clientbuf g ! length pre = (if p then 43 else 45)" using 2(4) by (simp add: nth_append)
  ultimately show ?case by (subst packets.simps) (simp add: id_def)
next
  case (3 T pre s "is" tail g)
  let ?rest = "wires is @ tail" and ?ep = "length pre + length (wires (Packet s # is))"
  let ?k = "reply (bytes ''+'') (g\<lparr>clientbuf := pre @ served s @ ?rest\<rparr>)"
  have s: "0 \<notin> set s" "35 \<notin> set s" "length s < 2 ^ 32" using 3(2) by simp_all
  have buf: "clientbuf g = pre @ framed s @ ?rest" using 3(4) by simp
  have f: "framed s = 36 # s @ 35 # hex2 (sum_list s)" by (simp add: framed_def bytes_def)
  have c: "clientbuf g ! length pre = 36" using buf f by (simp add: nth_append)
  have "memchr 35 (?ep - length pre) ((36 # s) @ 35 # hex2 (sum_list s) @ ?rest) = Some (length s + 1)"
    using memchr_first [of 35 "36 # s" "?ep - length pre"] s(2) by simp
  then have m: "memchr 35 (length s + (4 + length (wires is))) (drop (length pre) (clientbuf g)) = Some (length s + 1)"
    using buf f by (simp add: add.left_commute)
  have cmd: "gdb_cmd T (length pre) (length pre + (length s + 1)) g =
      dispatch T (s @ 0 # hex2 (sum_list s) @ ?rest) ?k"
    using cmd_framed [OF buf s(1,3) 3(3), of T] by (simp add: served_def add.assoc)
  have step: "packets T (length pre) ?ep pa g =
      (case dispatch T (s @ 0 # hex2 (sum_list s) @ ?rest) ?k of
         Inl e \<Rightarrow> Some (Inl e)
       | Inr g' \<Rightarrow> if execute g' then Some (Inr (length pre + length s + 4, True, g'))
           else packets T (length pre + length s + 4) ?ep True g')"
    using cmd by (subst packets.simps) (simp add: c m add.assoc split: sum.split, simp only: ac_simps, simp)
  show ?case
  proof (cases "dispatch T (s @ 0 # hex2 (sum_list s) @ ?rest) ?k")
    case (Inl e)
    then show ?thesis using step by simp
  next
    case (Inr g')
    show ?thesis
    proof (cases "execute g'")
      case False
      have fr: "stub_frame ?k g'" by (rule dispatch_frame [OF Inr])
      then have "link_ok g'" using 3(3) by (intro stub_frame_link [OF fr]) simp
      moreover have "clientbuf g' = (pre @ served s) @ ?rest" using fr by (simp add: stub_frame_def)
      ultimately show ?thesis
        using 3(1) [OF refl False, of True] 3(2) step Inr False by (simp add: add.assoc)
    qed (use step Inr in simp)
  qed
qed

section \<open>Turns of whole items\<close>

text \<open>The items that a turn brings into an empty buffer.\<close>

definition brings :: "turn \<Rightarrow> item list \<Rightarrow> bool" where
  "brings t is \<longleftrightarrow> poll_ok t \<and> recv_out t = Received (wires is) \<and> is \<noteq> [] \<and> list_all item_ok is \<and>
     length (wires is) \<le> PKT_BUF_MAX"

definition loaded :: "item list \<Rightarrow> turn list \<Rightarrow> 'h stub \<Rightarrow> 'h stub" where
  "loaded is rest g = g\<lparr>clientbuf := wires is @ drop (length (wires is)) (clientbuf g),
     cblen := length (wires is), turns := rest\<rparr>"

text \<open>
  The conversation as a whole: turn by turn until a command resumes execution; the bytes that come
  after it stay in the buffer. A client that stops talking leaves the stub waiting.
\<close>

fun converse :: "'h table \<Rightarrow> item list list \<Rightarrow> 'h stub \<Rightarrow> (stop + 'h stub) option" where
  "converse T [] g = None"
| "converse T (is # iss) g =
     (case serve T [] is (drop (length (wires is)) (clientbuf g)) (loaded is (drop 1 (turns g)) g) of
        Inl e \<Rightarrow> Some (Inl e)
      | Inr (bp, h) \<Rightarrow>
          let h = compact bp (length (wires is)) h
          in if execute h then Some (Inr h) else converse T iss h)"

lemma wire_nonempty: "wire i \<noteq> []"
  by (cases i) (simp_all add: framed_def bytes_def)

lemma wires_nonempty: "is \<noteq> [] \<Longrightarrow> wires is \<noteq> []"
  by (cases "is") (simp_all add: wire_nonempty)

text \<open>When no command resumes, all items are consumed and the buffer is empty again.\<close>

lemma serve_frame:
  assumes "serve T pre is tail g = Inr (bp, h)" "link_ok g" "clientbuf g = pre @ wires is @ tail"
  shows "link_ok h \<and> turns h = turns g \<and> length (clientbuf h) = length (clientbuf g) \<and>
    prefix (sent g) (sent h) \<and> (execute h \<or> is = [] \<or> bp = length pre + length (wires is))"
  using assms
proof (induction T pre "is" tail g arbitrary: bp h rule: serve.induct)
  case (2 T pre p "is" tail g)
  then show ?case by (cases "is") fastforce+
next
  case (3 T pre s "is" tail g)
  let ?rest = "wires is @ tail"
  let ?k = "reply (bytes ''+'') (g\<lparr>clientbuf := pre @ served s @ ?rest\<rparr>)"
  obtain g' where g': "dispatch T (s @ 0 # hex2 (sum_list s) @ ?rest) ?k = Inr g'"
    "(if execute g' then Inr (length pre + length s + 4, g') else serve T (pre @ served s) is tail g') = Inr (bp, h)"
    using 3(2) by (auto simp: Let_def elim!: bindR_InrE)
  note fr = dispatch_frame [OF g'(1)]
  have l: "link_ok g'" using 3(3) by (intro stub_frame_link [OF fr]) simp
  have b: "clientbuf g' = (pre @ served s) @ ?rest" "turns g' = turns g" "prefix (sent g) (sent g')"
    using fr by (auto simp: stub_frame_def prefix_def)
  show ?case
  proof (cases "execute g'")
    case True
    then show ?thesis using g'(2) l b 3(4) by simp
  next
    case False
    then have "serve T (pre @ served s) is tail g' = Inr (bp, h)" using g'(2) by simp
    from 3(1) [OF refl False this l] b
    have "link_ok h \<and> turns h = turns g' \<and> length (clientbuf h) = length (clientbuf g') \<and>
        prefix (sent g') (sent h) \<and> (execute h \<or> is = [] \<or> bp = length (pre @ served s) + length (wires is))"
      by simp
    moreover have "is = [] \<Longrightarrow> bp = length pre + length s + 4"
      using \<open>serve T (pre @ served s) is tail g' = Inr (bp, h)\<close> by simp
    ultimately show ?thesis using b 3(4) prefix_order.trans by (auto simp: add.assoc)
  qed
qed simp

lemma interact_turn:
  assumes "brings t is" "link_ok g" "cblen g = 0" "turns g = t # rest"
  shows "interact T pa g = (case serve T [] is (drop (length (wires is)) (clientbuf g)) (loaded is rest g) of
      Inl e \<Rightarrow> Some (Inl e)
    | Inr (bp, h) \<Rightarrow> let h = compact bp (length (wires is)) h
        in if execute h then Some (Inr h) else interact T True h)"
proof -
  have w: "wires is \<noteq> []" "length (wires is) \<le> PKT_BUF_MAX" "list_all item_ok is" "is \<noteq> []"
    using assms(1) wires_nonempty by (auto simp: brings_def)
  have r: "receive pa g = Some (Inr (loaded is rest g))"
    using assms w by (simp add: receive_def brings_def loaded_def Let_def)
  have "packets T 0 (cblen (loaded is rest g)) False (loaded is rest g) =
      Some (map_sum id (\<lambda>(bp, h). (bp, True, h))
        (serve T [] is (drop (length (wires is)) (clientbuf g)) (loaded is rest g)))"
    using packets_serve_from [of "is" "loaded is rest g" "[]" _ T False] w assms(2)
    by (simp add: loaded_def)
  then show ?thesis
    using r by (simp add: interact.simps [of T pa g] loaded_def split: sum.splits prod.splits)
qed

lemma interact_converse:
  assumes "list_all2 brings ts iss" "turns g = ts" "link_ok g" "cblen g = 0"
  shows "interact T pa g = converse T iss g"
  using assms
proof (induction ts iss arbitrary: g pa rule: list_all2_induct)
  case Nil
  then show ?case by (simp add: interact.simps receive_def)
next
  case (Cons t ts "is" iss)
  let ?s = "serve T [] is (drop (length (wires is)) (clientbuf g)) (loaded is ts g)"
  note turn = interact_turn [OF Cons(1) Cons(5,6,4), of T pa]
  show ?case
  proof (cases ?s)
    case (Inl e)
    then show ?thesis using turn Cons(4) by simp
  next
    case (Inr r)
    obtain bp h where r: "?s = Inr (bp, h)" using Inr by (cases r) simp
    have "is \<noteq> []" using Cons(1) by (simp add: brings_def)
    then have h: "link_ok h" "turns h = ts" "execute h \<or> bp = length (wires is)"
      using serve_frame [OF r] Cons(5) by (auto simp: loaded_def)
    show ?thesis
    proof (cases "execute h")
      case True
      then show ?thesis using turn r Cons(4) by (simp add: compact_def Let_def)
    next
      case False
      then have "link_ok (compact bp (length (wires is)) h)" "turns (compact bp (length (wires is)) h) = ts"
        "cblen (compact bp (length (wires is)) h) = 0" "\<not> execute (compact bp (length (wires is)) h)"
        using h wires_nonempty [OF \<open>is \<noteq> []\<close>] by (simp_all add: compact_def)
      then show ?thesis using turn r Cons by simp
    qed
  qed
qed

text \<open>
C10: When every received chunk holds whole packets and acknowledgements, the interactive loop
over positions in the client buffer computes what a specification over lists of packets does:
each packet acknowledged and dispatched in order, until one resumes execution.
\<close>

theorem interactive_converse:
  assumes "list_all2 brings (turns g) iss" "link_ok g" "cblen g = 0"
  shows "gdbstub_interactive T g = converse T iss (g\<lparr>execute := False\<rparr>)"
  using interact_converse [of "turns g" iss "g\<lparr>execute := False\<rparr>" T True] assms
  by (simp add: gdbstub_interactive_def link_ok_def)

end
