(* ===== verification/Gdb_Examples.thy ===== *)
theory Gdb_Examples
  imports Loop_Steps Gdb_Stream
begin

text \<open>
  The theorems on the debugger stub and the main loop at concrete packets: each lemma applies one
  of them to a client that is connected, with all its hypotheses discharged.
\<close>

unbundle bit_operations_syntax

section \<open>Concrete instances\<close>

definition idle :: machine where
  "idle = boot (\<lambda>_. 0) (\<lambda>_. 0)"

lemma client_link [simp]: "link_ok (client_stub m buf ts)"
  by (simp add: link_ok_def client_stub_def)

lemma client_sel [simp]:
  "mach (client_stub m buf ts) = m" "csock (client_stub m buf ts)" "cblen (client_stub m buf ts) = 0"
  "clientbuf (client_stub m buf ts) = buf" "turns (client_stub m buf ts) = ts"
  by (simp_all add: client_stub_def)

lemma send_frame_witness:
  "gdb_sendstr (bytes ''OK'' @ [0]) (client_stub idle [] []) =
     Inr (reply (framed (bytes ''OK'')) (client_stub idle [] []))"
  using send_frame [of "client_stub idle [] []" "bytes ''OK''" "[]"] by (simp add: bytes_def)

lemma packet_checked_witness:
  "gdb_cmd list_table 0 2 (client_stub idle (bytes ''$c#63'') []) =
     dispatch list_table (bytes ''c'' @ 0 # bytes ''63'')
       (reply (bytes ''+'') ((client_stub idle (bytes ''$c#63'') [])\<lparr>clientbuf := 36 # bytes ''c'' @ 0 # bytes ''63''\<rparr>))"
  using packet_checked [of "client_stub idle (bytes ''$c#63'') []" "[]" "bytes ''c''" 54 51 "[]" 6 3 list_table]
  by (simp add: bytes_def hex_val_def flip: numeral_2_eq_2)


lemma readmem_answers_witness:
  "gdb_readmem (bytes ''m0,2'' @ [0]) None (client_stub idle [] []) =
     Inr (reply (framed (bytes ''0000'')) (client_stub idle [] []))"
  using readmem_answers [of "client_stub idle [] []" "bytes ''0''" 0 "bytes ''2''" 2 "[]" None]
  by (simp add: bytes_def hex_number_def hex_val_def digits_value_def idle_def boot_def rom_byte_def
      upt_rec hex2_def hex_digit_def lo_byte_def hi_byte_def Let_def)

lemma writemem_writes_witness:
  "gdb_writemem (bytes ''M10,1:ff'' @ [0]) None (client_stub idle [] []) =
     Inr (reply (framed (bytes ''OK''))
       (on_mach (\<lambda>m. m\<lparr>memory := poke 16 [0xff] (memory m)\<rparr>) (client_stub idle [] [])))"
  using writemem_writes [of "client_stub idle [] []" "bytes ''10''" 16 "bytes ''1''" "[0xff]" "[]" None]
  by (simp add: bytes_def hex_number_def hex_val_def digits_value_def hex2_def hex_digit_def)

lemma list_table_laws: "hash_laws list_table"
  by (auto simp: hash_laws_def list_table_def)

lemma breakpoints_witness:
  "\<exists>g'. gdb_addbreak list_table (bytes ''Z0,1f'' @ [0]) None (client_stub idle [] []) = Inr g' \<and>
     sent g' = framed (bytes ''OK'')"
  using breakpoints [of list_table "client_stub idle [] []" "bytes ''1f''" 31 0 True "[]" None] list_table_laws
  by (simp add: bytes_def hex_number_def hex_val_def digits_value_def idle_def boot_def Let_def)
    (auto simp: client_stub_def)

lemma split_packet_hangs_witness:
  "gdbstub_interactive list_table (client_stub idle (replicate PKT_BUF_MAX 0)
     [\<lparr>poll_ok = True, recv_out = Received (bytes ''$s'')\<rparr>, \<lparr>poll_ok = True, recv_out = Received (bytes ''#73'')\<rparr>]) = None"
proof -
  have "take 2 (framed (bytes ''s'')) = bytes ''$s''" by (simp add: framed_def bytes_def)
  then show ?thesis
    using split_packet_hangs [of "client_stub idle (replicate PKT_BUF_MAX 0)
      [\<lparr>poll_ok = True, recv_out = Received (bytes ''$s'')\<rparr>, \<lparr>poll_ok = True, recv_out = Received (bytes ''#73'')\<rparr>]"
      "\<lparr>poll_ok = True, recv_out = Received (bytes ''$s'')\<rparr>" _ 2 "bytes ''s''" list_table]
    by (simp add: bytes_def)
qed



lemma interactive_keeps_witness:
  "\<exists>g'. gdbstub_interactive list_table (client_stub idle (replicate PKT_BUF_MAX 0)
     [\<lparr>poll_ok = True, recv_out = Received (bytes ''+$s#73'')\<rparr>]) = Some (Inr g') \<and> buffer_ok g'"
proof -
  let ?g = "client_stub idle (replicate PKT_BUF_MAX 0)
      [\<lparr>poll_ok = True, recv_out = Received (bytes ''+$s#73'')\<rparr>]"
  have "replicate 1 43 @ framed (bytes ''s'') = bytes ''+$s#73''"
    by (simp add: framed_def bytes_def hex2_def hex_digit_def)
  then obtain g' where "gdbstub_interactive list_table ?g = Some (Inr g')"
    using resume_exec [of ?g "\<lparr>poll_ok = True, recv_out = Received (bytes ''+$s#73'')\<rparr>" "[]" 1 "''s''" list_table]
    by auto
  then show ?thesis
    using interactive_keeps [of list_table ?g g'] by (auto simp: buffer_ok_def)
qed

lemma atoll_1: "atoll (bytes ''1'') = Inr 1"
  by (simp add: atoll_def bytes_def is_space_def number_value_def)

lemma limit_option_witness:
  "main_opts [Opt_l (fmt_u 12)] False idle = Inr (False, idle\<lparr>insnlimit := 12\<rparr>)"
  using limit_option [of 12 False idle] by simp

lemma main_limit_witness:
  "\<exists>m'. main_program net_up list_table des_xor [] [Opt_l (bytes ''1'')] (Some (Some [0, 0]))
       ((client_stub idle [] [])\<lparr>csock := False\<rparr>) =
     Some (Inr ((client_stub idle [] [])\<lparr>csock := False, mach := m'\<rparr>)) \<and> insns m' = 1"
proof -
  let ?g = "(client_stub idle [] [])\<lparr>csock := False\<rparr>"
  let ?m = "load_image [0, 0] (init (idle\<lparr>insnlimit := 1\<rparr>))"
  have "ready ?m 0"
    by (simp add: ready_def idle_def boot_def load_image_def init_def le_word_def)
  then obtain m' where "emulate1 des_xor ?m = Inr m'"
    using emulate1_one [of ?m 0 _ des_xor, OF _ lookup_nop]
    by (simp add: plain_def skips_def instr_nop_def)
  then have "emulate1s des_xor (unat (insnlimit (idle\<lparr>insnlimit := 1\<rparr>))) ?m = Inr m'"
    by simp
  then show ?thesis
    using main_limit [of "[Opt_l (bytes ''1'')]" ?g "idle\<lparr>insnlimit := 1\<rparr>" net_up list_table des_xor "[0, 0]"]
    by (intro exI [of _ m']) (simp add: atoll_1 idle_def boot_def)
qed


lemma nop_step:
  assumes "ready m 0"
  shows "\<exists>m'. emulate1 des m = Inr m'"
  using emulate1_one [of m 0 _ des, OF assms lookup_nop] by (simp add: plain_def skips_def instr_nop_def)


lemma loop_invariant_witness:
  "\<exists>h. reaches list_table des_xor
       ([], (client_stub (idle\<lparr>insnlimit := 2\<rparr>) (replicate PKT_BUF_MAX 0) [])\<lparr>csock := False\<rparr>) ([], h) \<and>
     insns (mach h) = 1 \<and> buffer_ok h \<and> limit_ok (mach h) \<and> replay_ok (mach h)"
proof -
  let ?g = "(client_stub (idle\<lparr>insnlimit := 2\<rparr>) (replicate PKT_BUF_MAX 0) [])\<lparr>csock := False\<rparr>"
  have "ready (mach ?g) 0" by (simp add: ready_def idle_def boot_def)
  then obtain m' where m': "emulate1 des_xor (mach ?g) = Inr m'" using nop_step by blast
  have i: "insns m' = 1" "insnlimit m' = 2" "\<not> off m'"
    using emulate1_kept [OF m'] by (simp_all add: outside_def idle_def boot_def)
  have "loop_step list_table des_xor ([], ?g) (tl [], ?g\<lparr>mach := m'\<rparr>)"
    by (rule loop_step.Execute [OF _ _ _ _ m'])
      (simp_all add: interrupted_def hook_def end_replay_def gdbstub_intr_def rewinds_def at_limit_def i,
        simp_all add: idle_def boot_def word_le_nat_alt)
  then have r: "reaches list_table des_xor ([], ?g) ([], ?g\<lparr>mach := m'\<rparr>)" by auto
  show ?thesis
    using loop_invariant [OF r] r i
    by (intro exI [of _ "?g\<lparr>mach := m'\<rparr>"])
      (simp add: session_frame_def buffer_ok_def limit_ok_def replay_ok_def, simp add: idle_def boot_def)
qed

lemma continue_transparent_witness:
  "map_option (map_sum id mach) (main_program net_up list_table des_xor [] [Opt_g, Opt_l (bytes ''1'')] (Some (Some [0, 0]))
     ((client_stub idle (replicate PKT_BUF_MAX 0) [\<lparr>poll_ok = True, recv_out = Received (framed (bytes ''c''))\<rparr>])\<lparr>csock := False\<rparr>)) =
   map_option (map_sum id mach) (main_program net_up list_table des_xor [] [Opt_l (bytes ''1'')] (Some (Some [0, 0]))
     ((client_stub idle (replicate PKT_BUF_MAX 0) [\<lparr>poll_ok = True, recv_out = Received (framed (bytes ''c''))\<rparr>])\<lparr>csock := False\<rparr>))"
  using continue_transparent [of list_table net_up
      "(client_stub idle (replicate PKT_BUF_MAX 0) [\<lparr>poll_ok = True, recv_out = Received (framed (bytes ''c''))\<rparr>])\<lparr>csock := False\<rparr>"
      "\<lparr>poll_ok = True, recv_out = Received (framed (bytes ''c''))\<rparr>" "[]" 0 "[Opt_l (bytes ''1'')]" "idle\<lparr>insnlimit := 1\<rparr>"
      "[Opt_g, Opt_l (bytes ''1'')]" des_xor "[]" "[0, 0]"] list_table_laws
  by (simp add: net_up_def atoll_1 idle_def boot_def client_stub_def)

lemma interactive_converse_witness:
  "\<exists>h. gdbstub_interactive list_table (client_stub idle (replicate PKT_BUF_MAX 0)
      [\<lparr>poll_ok = True, recv_out = Received (bytes ''+$?#3f$c#63'')\<rparr>]) = Some (Inr h) \<and>
     execute h \<and> cblen h = 0 \<and> sent h = bytes ''+$S05#b8+''"
proof -
  let ?is = "[Ack True, Packet (bytes ''?''), Packet (bytes ''c'')]"
  let ?g = "client_stub idle (replicate PKT_BUF_MAX 0) [\<lparr>poll_ok = True, recv_out = Received (bytes ''+$?#3f$c#63'')\<rparr>]"
  have w: "wires ?is = bytes ''+$?#3f$c#63''"
    by (simp add: framed_def bytes_def hex2_def hex_digit_def)
  have b: "list_all2 brings (turns ?g) [?is]"
    unfolding client_sel list_all2_Cons list_all2_Nil brings_def turn.simps w by (simp add: bytes_def)
  have find: "find_cmd (bytes ''?'' @ 0 # r) = Some (disp ''?'' (Some ''S05'') (Some Conststring) False)"
    "find_cmd (bytes ''c'' @ 0 # r) = Some (disp ''c'' None None True)" for r
    by (simp_all add: find_cmd_def gdb_disp_def disp_def startswith_def bytes_def)
  have d: "dispatch list_table (bytes ''?'' @ 0 # r) k = Inr (reply (framed (bytes ''S05'')) (k\<lparr>execute := False\<rparr>))"
    "dispatch list_table (bytes ''c'' @ 0 # r) k = Inr (k\<lparr>execute := True\<rparr>)" if "link_ok k" for r and k :: "u32 list stub"
    using that by (simp_all add: dispatch_def find disp_def gdb_conststring_def sendstr_S05)
  have f: "framed (bytes ''S05'') = bytes ''$S05#b8''"
    by (simp add: framed_def bytes_def hex2_def hex_digit_def)
  show ?thesis
    using interactive_converse [OF b, of list_table]
    by (simp add: loaded_def d f) (simp add: bytes_def compact_def client_stub_def)
qed

lemma main_bounded_witness:
  "\<exists>h. main_program net_up list_table des_xor [] [Opt_l (bytes ''1'')] (Some (Some [0, 0]))
       ((client_stub idle [] [])\<lparr>csock := False\<rparr>) = Some (Inr h) \<and> insns (mach h) \<le> 1 \<and> flash (mach h) 0 = 0"
proof -
  let ?g = "(client_stub idle [] [])\<lparr>csock := False\<rparr>"
  let ?m = "load_image [0, 0] (init (idle\<lparr>insnlimit := 1\<rparr>))"
  have m: "?m\<lparr>pc := 0\<rparr> = ?m" "insns ?m = 0" "insnlimit ?m = 1" "\<not> replay_mode ?m" "\<not> off ?m" "\<not> skip_next_instruction ?m"
    by (simp_all add: load_image_def init_def idle_def boot_def)
  have "ready ?m 0" by (simp add: ready_def idle_def boot_def load_image_def init_def le_word_def)
  then obtain m' where "emulate1 des_xor ?m = Inr m'" using nop_step by blast
  then have "emulate list_table des_xor [] (?g\<lparr>mach := ?m\<rparr>) = Some (Inr (?g\<lparr>mach := m'\<rparr>))"
    using emulate_limit [of "?g\<lparr>mach := ?m\<rparr>" list_table des_xor] m by simp
  then have r: "main_program net_up list_table des_xor [] [Opt_l (bytes ''1'')] (Some (Some [0, 0])) ?g =
      Some (Inr (?g\<lparr>mach := m'\<rparr>))"
    by (simp add: main_program_def atoll_1 m(1) gdbstub_stopped_def)
  show ?thesis
    using main_bounded [OF r, of False "idle\<lparr>insnlimit := 1\<rparr>"] r
    by (intro exI [of _ "?g\<lparr>mach := m'\<rparr>"])
      (simp add: atoll_1 load_image_def, simp add: le_word_def idle_def boot_def)
qed

end
