(* ===== verification/Check_Base.thy ===== *)
theory Check_Base
  imports Emulate
begin

text \<open>
  The vocabulary of the unit tests in \<open>check_instr.c\<close>: a test is a list of steps, each of
  which changes the machine, runs one instruction or checks a value. A failed check and an abort
  of the emulator end the test.
\<close>

unbundle bit_operations_syntax

section \<open>Steps\<close>

datatype test_stop = Check_failed | Aborted fault

type_synonym test_step = "des_ecb \<Rightarrow> machine \<Rightarrow> test_stop + machine"

primrec run_steps :: "des_ecb \<Rightarrow> test_step list \<Rightarrow> machine \<Rightarrow> test_stop + machine" where
  "run_steps des [] m = Inr m"
| "run_steps des (t # ts) m = bindR (t des m) (run_steps des ts)"

definition lift_fault :: "fault + 'a \<Rightarrow> test_stop + 'a" where
  "lift_fault r = (case r of Inl f \<Rightarrow> Inl (Aborted f) | Inr x \<Rightarrow> Inr x)"

definition install_words :: "u16 list \<Rightarrow> nat \<Rightarrow> test_step" where
  "install_words ws addr des m =
     Inr (m\<lparr>flash := (\<lambda>i. if addr \<le> i \<and> i < addr + length ws then ws ! (i - addr) else flash m i)\<rparr>)"

text \<open>Assignments to memory, \<open>memset\<close> on memory, and the other assignments.\<close>

definition store :: "nat \<Rightarrow> u8 \<Rightarrow> test_step" where
  "store a v des m = Inr (mem_upd a v m)"

definition modify :: "nat \<Rightarrow> (u8 \<Rightarrow> u8) \<Rightarrow> test_step" where
  "modify a f des m = Inr (mem_upd a (f (memory m a)) m)"

definition fill :: "nat \<Rightarrow> u8 \<Rightarrow> nat \<Rightarrow> test_step" where
  "fill a v n des m = Inr (m\<lparr>memory := (\<lambda>i. if a \<le> i \<and> i < a + n then v else memory m i)\<rparr>)"

definition store_word :: "u32 \<Rightarrow> u16 \<Rightarrow> test_step" where
  "store_word a w des m = lift_fault (memwriteword a w m)"

definition set_sp :: "u16 \<Rightarrow> test_step" where
  "set_sp w des m = Inr (setsp w m)"

definition set_pc_to :: "u32 \<Rightarrow> test_step" where
  "set_pc_to p des m = Inr (m\<lparr>pc := p\<rparr>)"

definition run_one :: test_step where
  "run_one des m = lift_fault (emulate1 des m)"

definition check :: "bool \<Rightarrow> machine \<Rightarrow> test_stop + machine" where
  "check b m = (if b then Inr m else Inl Check_failed)"

definition check_pc :: "u32 \<Rightarrow> test_step" where
  "check_pc p des m = check (pc m = p) m"

definition check_insns :: "u64 \<Rightarrow> test_step" where
  "check_insns n des m = check (insns m = n) m"

definition check_sp :: "u16 \<Rightarrow> test_step" where
  "check_sp w des m = check (getsp m = w) m"

definition check_mem :: "nat \<Rightarrow> u8 \<Rightarrow> test_step" where
  "check_mem a v des m = check (memory m a = v) m"

definition check_same :: "nat \<Rightarrow> nat \<Rightarrow> test_step" where
  "check_same a b des m = check (memory m a = memory m b) m"

definition check_word :: "u32 \<Rightarrow> u16 \<Rightarrow> test_step" where
  "check_word a w des m = bindR (lift_fault (memword a m)) (\<lambda>v. check (v = w) m)"

section \<open>Fixtures\<close>

text \<open>
  Every test runs in a process of its own, whose globals are zero before the fixture.
\<close>

definition zeroed :: machine where
  "zeroed = \<lparr>pc = 0, pc_start = 0, instr_size = 0, skip_next_instruction = False,
     memory = (\<lambda>_. 0), flash = (\<lambda>_. 0), pc22 = False, pc_mem_max_64k = False,
     pc_mem_max_256b = False, insns = 0, insnlimit = 0, insnreplaylim = 0, off = False,
     replay_mode = False, stepone = False, tracehex = False, tracefile = None\<rparr>"

definition setup_machine :: "machine \<Rightarrow> machine" where
  "setup_machine m = init m"

definition setup_machine22 :: "machine \<Rightarrow> machine" where
  "setup_machine22 m = (init m)\<lparr>pc22 := True\<rparr>"

definition setup_machine64 :: "machine \<Rightarrow> machine" where
  "setup_machine64 m = (init m)\<lparr>pc_mem_max_64k := True\<rparr>"

definition setup_machine256 :: "machine \<Rightarrow> machine" where
  "setup_machine256 m = (init m)\<lparr>pc_mem_max_64k := True, pc_mem_max_256b := True\<rparr>"

definition passes :: "des_ecb \<Rightarrow> (machine \<Rightarrow> machine) \<Rightarrow> test_step list \<Rightarrow> bool" where
  "passes des setup t = (\<not> isl (run_steps des t (setup zeroed)))"

section \<open>Evaluation\<close>

text \<open>The equations that run a test by rewriting: the steps, one instruction, the handlers.\<close>

lemmas step_eqs = passes_def zeroed_def setup_machine_def setup_machine22_def setup_machine64_def
  setup_machine256_def init_def Let_def install_words_def store_def modify_def fill_def
  store_word_def set_sp_def set_pc_to_def run_one_def check_def check_pc_def check_insns_def
  check_sp_def check_mem_def check_same_def check_word_def lift_fault_def getsp_def setsp_def
  memword_def memwriteword_def membyte_def mem_at_def mem_put_def romword_def mem_upd_def

lemmas instruction_eqs = emulate1.simps emulate1_pass_def fetch_def lookup_def avr_instr_def
  matches_def plain_def decode_fields_def decode_ddddd_def decode_rrrrr_def decode_imm_u8_def
  bits_def retire_def trace_step_def sreg_after_def update_flags_def put_flag_def

lemmas handler_run_eqs =
  instr_adc_def instr_adiw_def instr_cpc_def instr_cpi_def sbiw_flags16_def instr_sbiw_def
  neg_flags8_def instr_neg_def instr_inc_def instr_dec_def instr_and_def instr_andi_def
  instr_or_def instr_ori_def instr_xor_def com_flags8_def instr_com_def instr_asr_def
  instr_lsr_def instr_ror_def instr_swap_def instr_ldi_def instr_mov_def instr_movw_def
  instr_nop_def instr_mul_def instr_muls_def instr_mulsu_def instr_fmul_def instr_fmulsu_def
  instr_bclrset_def instr_bld_def instr_bst_def instr_unimp_def instr_brb_def instr_cpse_def
  instr_sbics_def instr_sbrcs_def long_target_def instr_call_def instr_jmp_def
  instr_eicalljump_def instr_rcalljmp_def instr_ret_common_def instr_ret_def instr_reti_def
  instr_cbisbi_def instr_in_def instr_out_def instr_pop_def instr_push_def instr_lds_def
  instr_sts_def ldst_addr_def ldst_writeback_def instr_ldst_common_def yz_mode_def
  yz_displace_def instr_ldx_def instr_stx_def instr_ldyz_def instr_styz_def instr_elpm_def
  instr_elpmz_def instr_xch_def flags_differ_def asr_flags8_def logic_flags8_def mul_flags16_def
  fmul_flags16_def adc_flags8_def adiw_flags16_def sub_flags8_def sreg_after_def popbyte_def
  pushbyte_def push_pc_def pop_pc_def

lemmas run_eqs = step_eqs instruction_eqs handler_run_eqs

end
