(* ===== verification/Check_Data.thy ===== *)
theory Check_Data
  imports Check_Base
begin

text \<open>
  The unit tests of the cases "nop", "basic" and "regpairs" of \<open>check_instr.c\<close>, each as
  the steps of its C function, and the fact that the model passes it.
\<close>

unbundle bit_operations_syntax

section \<open>Tests\<close>

definition test_nop :: "test_step list" where
  "test_nop =
    (let code = [0x0000, 0x0000]
     in [install_words code 0,
         run_one, check_pc 1,
         run_one, check_pc 2])"

definition test_mov :: "test_step list" where
  "test_mov =
    (let code = [0x2c00 OR 0x20f OR 0x1e0, 0x2c00 OR 0x20e OR 0x50, 0x2c00 OR 0x005 OR 0x000]
     in [install_words code 0, store 31 0xab, check_mem 30 0,
         run_one, check_pc 1, check_mem 30 0xab, check_mem 5 0,
         run_one, check_pc 2, check_mem 5 0xab, check_mem 0 0,
         run_one, check_pc 3, check_mem 0 0xab])"

definition test_or :: "test_step list" where
  "test_or =
    (let code = [0x2800 OR 0x20f OR 0x1e0, 0x2800 OR 0x20d OR 0x50, 0x2800 OR 0x005 OR 0x000]
     in [install_words code 0, store 31 0x0, store 30 0x0, store 29 0xaa, store 5 0x55,
         store 0 0xff,
         run_one, check_pc 1, check_mem 30 0x0, check_mem SREG SREG_Z,
         run_one, check_pc 2, check_mem 5 0xff, check_mem SREG (SREG_N OR SREG_S),
         run_one, check_pc 3, check_mem 0 0xff, check_mem SREG (SREG_N OR SREG_S)])"

definition test_ori :: "test_step list" where
  "test_ori =
    (let code = [0x6000 OR 0xf0f OR 0x00, 0x6000 OR 0x000 OR 0x50, 0x6000 OR 0xa0a OR 0xf0]
     in [install_words code 0, store 31 0x55,
         run_one, check_pc 1, check_mem 16 0xff, check_mem SREG (SREG_N OR SREG_S),
         run_one, check_pc 2, check_mem 21 0, check_mem SREG SREG_Z,
         run_one, check_pc 3, check_mem 31 0xff, check_mem SREG (SREG_N OR SREG_S)])"

definition test_out :: "test_step list" where
  "test_out =
    (let code = [0xb800 OR 0x60e OR 0x1f0]
     in [install_words code 0, store 31 0xab,
         run_one, check_pc 1, check_mem 0x5e 0xab])"

definition test_in :: "test_step list" where
  "test_in =
    (let code = [0xb000 OR 0x60e OR 0x1f0]
     in [install_words code 0, store 0x5e 0xab,
         run_one, check_pc 1, check_mem 31 0xab])"

definition test_push :: "test_step list" where
  "test_push =
    (let code = [0x920f OR 0x1f0]
     in [install_words code 0, store 31 0xab, set_sp 0xffff,
         run_one, check_pc 1, check_sp 0xfffe, check_mem 0xffff 0xab])"

definition test_movw :: "test_step list" where
  "test_movw =
    (let code = [0x100 OR 0xe0 OR 0xf]
     in [install_words code 0, store 31 0xab, store 30 0xcd,
         run_one, check_pc 1, check_same 29 31, check_same 28 30])"

definition test_call :: "test_step list" where
  "test_call =
    (let code = [0x940e OR 0x1f1, 0xdead]
     in [install_words code 0, set_sp 0xffff,
         run_one, check_pc 0xdead, check_sp 0xfffd, check_mem 0xffff 2, check_mem 0xfffe 0])"

definition test_and :: "test_step list" where
  "test_and =
    (let code = [0x2000 OR 0x01, 0x2000 OR 0x45];
         sreg_start = (SREG_I OR SREG_T OR SREG_H OR SREG_C)
     in [install_words code 0, store 1 0xff, store 0 0xff, store SREG sreg_start,
         run_one, check_pc 1, check_mem 0 0xff,
         check_mem SREG (sreg_start OR SREG_N OR SREG_S), store 4 0xff, store 5 0,
         run_one, check_pc 2, check_mem 4 0, check_mem SREG (sreg_start OR SREG_Z)])"

definition test_andi :: "test_step list" where
  "test_andi =
    (let code = [0x7000 OR 0x00 OR 0xf0f, 0x7000 OR 0x40 OR 0];
         sreg_start = (SREG_I OR SREG_T OR SREG_H OR SREG_C)
     in [install_words code 0, store 16 0xff, store SREG sreg_start,
         run_one, check_pc 1, check_mem 16 0xff,
         check_mem SREG (sreg_start OR SREG_N OR SREG_S), store 20 0xff,
         run_one, check_pc 2, check_mem 20 0, check_mem SREG (sreg_start OR SREG_Z)])"

definition test_bclr :: "test_step list" where
  "test_bclr =
    (let code = [0x9488 OR 0x70, 0x9488 OR 0x10];
         sreg_start = 0xff
     in [install_words code 0, store SREG sreg_start,
         run_one, check_pc 1, check_mem SREG (sreg_start AND NOT SREG_I),
         run_one, check_pc 2, check_mem SREG (sreg_start AND NOT (SREG_I OR SREG_Z))])"

definition test_bset :: "test_step list" where
  "test_bset =
    (let code = [0x9408 OR 0x60, 0x9408 OR 0x30]
     in [install_words code 0, store SREG 0,
         run_one, check_pc 1, check_mem SREG SREG_T,
         run_one, check_pc 2, check_mem SREG (SREG_T OR SREG_V)])"

definition test_bld :: "test_step list" where
  "test_bld =
    (let code = [0xf800 OR 0x1f0 OR 0x4, 0xf800 OR 0x1f0 OR 0x4]
     in [install_words code 0, store SREG SREG_T,
         run_one, check_pc 1, check_mem 31 0x10, store SREG 0,
         run_one, check_pc 2, check_mem 31 0])"

definition test_bst :: "test_step list" where
  "test_bst =
    (let code = [0xfa00 OR 0x1f0 OR 0x4, 0xfa00 OR 0x1f0 OR 0x4]
     in [install_words code 0, store SREG 0, store 31 0x10,
         run_one, check_pc 1, check_mem SREG SREG_T, store 31 0,
         run_one, check_pc 2, check_mem SREG 0])"

definition test_cbisbi :: "test_step list" where
  "test_cbisbi =
    (let code = [0x9800 OR 0xa8 OR 0x3, 0x9a00 OR 0xa8 OR 0x3]
     in [install_words code 0, store 0x35 0xff,
         run_one, check_pc 1, check_mem 0x35 0xf7,
         run_one, check_pc 2, check_mem 0x35 0xff])"

definition test_elpm :: "test_step list" where
  "test_elpm =
    (let code = [0x95c8, 0x95d8, 0x9004 OR 0x1d0, 0x9006 OR 0x1d0, 0x9005 OR 0x1d0, 0x9007 OR 0x1d0]
     in [install_words code 0, store_word (ucast REGP_Z) 0,
         run_one, check_pc 1, check_mem 0 0xc8, check_word (ucast REGP_Z) 0,
         store (unat RAMPZ) 1, install_words [code ! 1] 0x8000,
         run_one, check_pc 2, check_mem 0 0xd8, store_word (ucast REGP_Z) 4,
         run_one, check_pc 3, check_mem 29 0xd4, check_word (ucast REGP_Z) 4,
         store (unat RAMPZ) 0,
         run_one, check_pc 4, check_mem 29 0xd4, store (unat RAMPZ) 0x3f,
         run_one, check_pc 5, check_mem 29 0xd4, check_word (ucast REGP_Z) 0x5,
         store (unat RAMPZ) 0x3e, store_word (ucast REGP_Z) 0xffff,
         install_words [0xb5b5] 0x1f7fff,
         run_one, check_pc 6, check_mem 29 0xb5, check_word (ucast REGP_Z) 0,
         check_mem (unat RAMPZ) 0x3e, install_words [0] 0x1f7fff])"

definition test_xor :: "test_step list" where
  "test_xor =
    (let code = [0x2400 OR 0x20f OR 0x1e0, 0x2400 OR 0x20d OR 0x50, 0x2400 OR 0x005 OR 0x000];
         sreg_start = (SREG_I OR SREG_T OR SREG_H OR SREG_C)
     in [install_words code 0, store 31 0x0, store 30 0x0, store 29 0xaa, store 5 0x55,
         store 0 0xff, store SREG (sreg_start OR SREG_V),
         run_one, check_pc 1, check_mem 30 0x0, check_mem SREG (sreg_start OR SREG_Z),
         run_one, check_pc 2, check_mem 5 0xff, check_mem SREG (sreg_start OR SREG_N OR SREG_S),
         run_one, check_pc 3, check_mem 0 0, check_mem SREG (sreg_start OR SREG_Z)])"

definition test_jmp :: "test_step list" where
  "test_jmp =
    (let code = [0x940c OR 0x1f1, 0xdead]
     in [install_words code 0, set_sp 0xffff,
         run_one, check_pc 0xdead, check_sp 0xffff])"

definition test_ldx :: "test_step list" where
  "test_ldx =
    (let code = [0x900c OR 0x50, 0x900d OR 0x50, 0x900e OR 0x50]
     in [install_words code 0, fill 0x100 0xaa 1, store_word (ucast REGP_X) 0x100,
         run_one, check_pc 1, check_word (ucast REGP_X) 0x100, check_mem 5 0xaa,
         run_one, check_pc 2, check_word (ucast REGP_X) 0x101, check_mem 5 0xaa,
         store (unat RAMPX) 0x3f, store_word (ucast REGP_X) 0, fill 0x3effff 0x55 1,
         run_one, check_pc 3, check_word (ucast REGP_X) 0xffff, check_mem (unat RAMPX) 0x3e,
         check_mem 5 0x55, fill 0x3effff 0 1, fill 0x100 0 1])"

definition test_ldy :: "test_step list" where
  "test_ldy =
    (let code = [0x8008 OR 0x50, 0x9009 OR 0x50, 0x900a OR 0x50, 0x8008 OR 0x457]
     in [install_words code 0, fill 0x100 0xaa 1, store_word (ucast REGP_Y) 0x100,
         run_one, check_pc 1, check_word (ucast REGP_Y) 0x100, check_mem 5 0xaa,
         run_one, check_pc 2, check_word (ucast REGP_Y) 0x101, check_mem 5 0xaa,
         store (unat RAMPY) 0x3f, store_word (ucast REGP_Y) 0, fill 0x3effff 0x55 1,
         run_one, check_pc 3, check_word (ucast REGP_Y) 0xffff, check_mem (unat RAMPY) 0x3e,
         check_mem 5 0x55, store (unat RAMPY) 0, store_word (ucast REGP_Y) 0xfff1,
         fill 0x10000 0xba 1,
         run_one, check_pc 4, check_word (ucast REGP_Y) 0xfff1, check_mem (unat RAMPY) 0,
         check_mem 5 0xba, fill 0x3effff 0 1, fill 0x100 0 1])"

definition test_ldz :: "test_step list" where
  "test_ldz =
    (let code = [0x8000 OR 0x50, 0x9001 OR 0x50, 0x9002 OR 0x50, 0x8000 OR 0x457]
     in [install_words code 0, fill 0x100 0xaa 1, store_word (ucast REGP_Z) 0x100,
         run_one, check_pc 1, check_word (ucast REGP_Z) 0x100, check_mem 5 0xaa,
         run_one, check_pc 2, check_word (ucast REGP_Z) 0x101, check_mem 5 0xaa,
         store (unat RAMPZ) 0x3f, store_word (ucast REGP_Z) 0, fill 0x3effff 0x55 1,
         run_one, check_pc 3, check_word (ucast REGP_Z) 0xffff, check_mem (unat RAMPZ) 0x3e,
         check_mem 5 0x55, store (unat RAMPZ) 0, store_word (ucast REGP_Z) 0xfff1,
         store 0x10000 0xba,
         run_one, check_pc 4, check_word (ucast REGP_Z) 0xfff1, check_mem (unat RAMPZ) 0,
         check_mem 5 0xba, fill 0x3effff 0 1, fill 0x100 0 1])"

definition test_ldi :: "test_step list" where
  "test_ldi =
    (let code = [0xe000 OR 0xf0f OR 0x10]
     in [install_words code 0,
         run_one, check_pc 1, check_mem 17 0xff])"

definition test_lds :: "test_step list" where
  "test_lds =
    (let code = [0x9000 OR 0x10, 0xbeef]
     in [install_words code 0, store RAMPD 0x1, fill 0x1beef 0xc0 1,
         run_one, check_pc 2, check_mem 1 0xc0, fill 0x1beef 0 1])"

definition test_pop :: "test_step list" where
  "test_pop =
    (let code = [0x900f OR 0x1f0]
     in [install_words code 0, store 0xffff 0xbe, set_sp 0xfffe,
         run_one, check_pc 1, check_sp 0xffff, check_mem 31 0xbe])"

definition test_ret :: "test_step list" where
  "test_ret =
    (let code = [0x9508]
     in [install_words code 0, set_sp 0xfffd, store 0xfffe 0xab, store 0xffff 0xcd,
         run_one, check_pc 0xabcd, check_sp 0xffff])"

definition test_reti :: "test_step list" where
  "test_reti =
    (let code = [0x9518]
     in [install_words code 0, set_sp 0xfffd, store 0xfffe 0xab, store 0xffff 0xcd,
         store SREG 0,
         run_one, check_pc 0xabcd, check_mem SREG SREG_I, check_sp 0xffff])"

definition test_stx :: "test_step list" where
  "test_stx =
    (let code = [0x920c OR 0x50, 0x920d OR 0x50, 0x920e OR 0x50]
     in [install_words code 0, store 5 0xaa, store_word (ucast REGP_X) 0x100,
         run_one, check_pc 1, check_word (ucast REGP_X) 0x100, check_mem 0x100 0xaa,
         run_one, check_pc 2, check_word (ucast REGP_X) 0x101, store (unat RAMPX) 0x3f,
         store_word (ucast REGP_X) 0, store 5 0x55,
         run_one, check_pc 3, check_word (ucast REGP_X) 0xffff, check_mem (unat RAMPX) 0x3e,
         check_mem 0x3effff 0x55, store 0x3effff 0, store 0x100 0])"

definition test_sty :: "test_step list" where
  "test_sty =
    (let code = [0x8208 OR 0x50, 0x9209 OR 0x50, 0x920a OR 0x50, 0x8208 OR 0x2c07 OR 0x1f0]
     in [install_words code 0, store 5 0xaa, store (unat RAMPY) 0,
         store_word (ucast REGP_Y) 0x100,
         run_one, check_pc 1, check_word (ucast REGP_Y) 0x100, check_mem 0x100 0xaa,
         run_one, check_pc 2, check_word (ucast REGP_Y) 0x101, store (unat RAMPY) 0x3f,
         store_word (ucast REGP_Y) 0, store 5 0x55,
         run_one, check_pc 3, check_word (ucast REGP_Y) 0xffff, check_mem (unat RAMPY) 0x3e,
         check_mem 0x3effff 0x55, store (unat RAMPY) 0xff, store_word (ucast REGP_Y) 0xffff,
         store 31 0x55,
         run_one, check_pc 4, check_word (ucast REGP_Y) 0xffff, check_mem (unat RAMPY) 0xff,
         check_mem 0x3e 0x55, store 0x3e 0, store 0x3effff 0, store 0x100 0])"

definition test_sts :: "test_step list" where
  "test_sts =
    (let code = [0x9200 OR 0x1f0, 0x2345]
     in [install_words code 0, store RAMPD 0x1, store 31 0x1b,
         run_one, check_pc 2, check_mem 0x12345 0x1b, store 0x12345 0])"

definition test_swap :: "test_step list" where
  "test_swap =
    (let code = [0x9402 OR 0x1f0]
     in [install_words code 0, store 31 0xa5,
         run_one, check_pc 1, check_mem 31 0x5a])"

definition test_xch :: "test_step list" where
  "test_xch =
    (let code = [0x9204 OR 0x1d0, 0x9205 OR 0x1d0, 0x9206 OR 0x1d0, 0x9207 OR 0x1d0]
     in [install_words code 0, store_word (ucast REGP_Z) 0xabcd, store 0xabcd 0xfe,
         store 29 0x12,
         run_one, check_pc 1, check_mem 29 0xfe, check_mem 0xabcd 0x12, store 0xabcd 0xa5,
         store 29 0x5a,
         run_one, check_pc 2, check_mem 29 0xa5, check_mem 0xabcd 0xff, store 29 0xa5,
         run_one, check_pc 3, check_mem 29 0xff, check_mem 0xabcd 0x5a, store 29 0xd2,
         store 0xabcd 0x3c,
         run_one, check_pc 4, check_mem 29 0x3c, check_mem 0xabcd 0xee, store 0xabcd 0])"

section \<open>Outcomes\<close>

lemma test_nop_passes: "passes des setup_machine test_nop"
  by (simp add: test_nop_def run_eqs)

lemma test_mov_passes: "passes des setup_machine test_mov"
  by (simp add: test_mov_def run_eqs)

lemma test_or_passes: "passes des setup_machine test_or"
  by (simp add: test_or_def run_eqs)

lemma test_ori_passes: "passes des setup_machine test_ori"
  by (simp add: test_ori_def run_eqs)

lemma test_out_passes: "passes des setup_machine test_out"
  by (simp add: test_out_def run_eqs)

lemma test_in_passes: "passes des setup_machine test_in"
  by (simp add: test_in_def run_eqs)

lemma test_push_passes: "passes des setup_machine test_push"
  by (simp add: test_push_def run_eqs)

lemma test_movw_passes: "passes des setup_machine test_movw"
  by (simp add: test_movw_def run_eqs)

lemma test_call_passes: "passes des setup_machine test_call"
  by (simp add: test_call_def run_eqs)

lemma test_and_passes: "passes des setup_machine test_and"
  by (simp add: test_and_def run_eqs)

lemma test_andi_passes: "passes des setup_machine test_andi"
  by (simp add: test_andi_def run_eqs)

lemma test_bclr_passes: "passes des setup_machine test_bclr"
  by (simp add: test_bclr_def run_eqs)

lemma test_bset_passes: "passes des setup_machine test_bset"
  by (simp add: test_bset_def run_eqs)

lemma test_bld_passes: "passes des setup_machine test_bld"
  by (simp add: test_bld_def run_eqs)

lemma test_bst_passes: "passes des setup_machine test_bst"
  by (simp add: test_bst_def run_eqs)

lemma test_cbisbi_passes: "passes des setup_machine test_cbisbi"
  by (simp add: test_cbisbi_def run_eqs)

lemma test_elpm_passes: "passes des setup_machine test_elpm"
  by (simp add: test_elpm_def run_eqs)

lemma test_xor_passes: "passes des setup_machine test_xor"
  by (simp add: test_xor_def run_eqs)

lemma test_jmp_passes: "passes des setup_machine test_jmp"
  by (simp add: test_jmp_def run_eqs)

lemma test_ldx_passes: "passes des setup_machine test_ldx"
  by (simp add: test_ldx_def run_eqs)

lemma test_ldy_passes: "passes des setup_machine test_ldy"
  by (simp add: test_ldy_def run_eqs)

lemma test_ldz_passes: "passes des setup_machine test_ldz"
  by (simp add: test_ldz_def run_eqs)

lemma test_ldi_passes: "passes des setup_machine test_ldi"
  by (simp add: test_ldi_def run_eqs)

lemma test_lds_passes: "passes des setup_machine test_lds"
  by (simp add: test_lds_def run_eqs)

lemma test_pop_passes: "passes des setup_machine test_pop"
  by (simp add: test_pop_def run_eqs)

lemma test_ret_passes: "passes des setup_machine test_ret"
  by (simp add: test_ret_def run_eqs)

lemma test_reti_passes: "passes des setup_machine test_reti"
  by (simp add: test_reti_def run_eqs)

lemma test_stx_passes: "passes des setup_machine test_stx"
  by (simp add: test_stx_def run_eqs)

lemma test_sty_passes: "passes des setup_machine test_sty"
  by (simp add: test_sty_def run_eqs)

lemma test_sts_passes: "passes des setup_machine test_sts"
  by (simp add: test_sts_def run_eqs)

lemma test_swap_passes: "passes des setup_machine test_swap"
  by (simp add: test_swap_def run_eqs)

lemma test_xch_passes: "passes des setup_machine test_xch"
  by (simp add: test_xch_def run_eqs)

end
