(* ===== verification/Check_Wide.thy ===== *)
theory Check_Wide
  imports Check_Base
begin

text \<open>
  The unit tests of the cases "22-bit pc", "256 byte RAM" and "64 kB RAM" of
  \<open>check_instr.c\<close>, each as the steps of its C function, and the fact that the model passes it.
\<close>

unbundle bit_operations_syntax

section \<open>Tests\<close>

definition test_call22 :: "test_step list" where
  "test_call22 =
    (let code = [0x940e OR 0x1f1, 0xbeef]
     in [install_words code 0, set_sp 0xffff,
         run_one, check_pc 0x3fbeef, check_sp 0xfffc, check_mem 0xffff 2, check_mem 0xfffe 0,
         check_mem 0xfffd 0])"

definition test_eicall22 :: "test_step list" where
  "test_eicall22 =
    (let code = [0x9509, 0x9519]
     in [install_words code 0, set_sp 0xffff, store EIND 0x3f, store_word (ucast REGP_Z) 1,
         run_one, check_sp 0xfffc, check_mem 0xffff 1, check_mem 0xfffe 0, check_mem 0xfffd 0,
         check_pc 1, store EIND 0x5, store_word (ucast REGP_Z) 0,
         run_one, check_sp 0xfff9, check_mem 0xfffc 2, check_mem 0xfffb 0, check_mem 0xfffa 0,
         check_pc 0x50000])"

definition test_eijump22 :: "test_step list" where
  "test_eijump22 =
    (let code = [0x9409, 0x9419]
     in [install_words code 0, set_sp 0xffff, store EIND 0x3f, store_word (ucast REGP_Z) 1,
         run_one, check_sp 0xffff, check_pc 1, store EIND 0x5, store_word (ucast REGP_Z) 0x1234,
         run_one, check_sp 0xffff, check_pc 0x51234])"

definition test_jmp22 :: "test_step list" where
  "test_jmp22 =
    (let code = [0x940c OR 0x1f1, 0xbeef]
     in [install_words code 0, set_sp 0xffff,
         run_one, check_pc 0x3fbeef, check_sp 0xffff])"

definition test_ldx64 :: "test_step list" where
  "test_ldx64 =
    (let code = [0x900c OR 0x50, 0x900d OR 0x50, 0x900e OR 0x50]
     in [install_words code 0, fill 0x100 0xaa 1, store_word (ucast REGP_X) 0x100,
         run_one, check_pc 1, check_word (ucast REGP_X) 0x100, check_mem 5 0xaa,
         run_one, check_pc 2, check_word (ucast REGP_X) 0x101, check_mem 5 0xaa,
         store (unat RAMPX) 0x3f, store_word (ucast REGP_X) 0, fill 0xffff 0x55 1,
         run_one, check_pc 3, check_word (ucast REGP_X) 0xffff, check_mem (unat RAMPX) 0x3f,
         check_mem 5 0x55, fill 0x3effff 0 1, fill 0x100 0 1, fill (unat RAMPX) 0 1])"

definition test_ldx256 :: "test_step list" where
  "test_ldx256 =
    (let code = [0x900c OR 0x50, 0x900d OR 0x50, 0x900e OR 0x50]
     in [install_words code 0, fill 0 0xaa 1, store_word (ucast REGP_X) 0x100,
         run_one, check_pc 1, check_word (ucast REGP_X) 0x100, check_mem 5 0xaa,
         store_word (ucast REGP_X) 0x1ff, fill 0xff 0xbb 1,
         run_one, check_pc 2, check_word (ucast REGP_X) 0x100, check_mem 5 0xbb,
         store (unat RAMPX) 0x3f, store_word (ucast REGP_X) 0,
         run_one, check_pc 3, check_word (ucast REGP_X) 0x00ff, check_mem (unat RAMPX) 0x3f,
         check_mem 5 0xbb, fill 0xff 0 1, fill (unat RAMPX) 0 1])"

definition test_ldy64 :: "test_step list" where
  "test_ldy64 =
    (let code = [0x8008 OR 0x50, 0x9009 OR 0x50, 0x900a OR 0x50, 0x8008 OR 0x457]
     in [install_words code 0, fill 0x100 0xaa 1, store_word (ucast REGP_Y) 0x100,
         run_one, check_pc 1, check_word (ucast REGP_Y) 0x100, check_mem 5 0xaa,
         run_one, check_pc 2, check_word (ucast REGP_Y) 0x101, check_mem 5 0xaa,
         store (unat RAMPY) 0x3f, store_word (ucast REGP_Y) 0, fill 0xffff 0x55 1,
         run_one, check_pc 3, check_word (ucast REGP_Y) 0xffff, check_mem (unat RAMPY) 0x3f,
         check_mem 5 0x55, store (unat RAMPY) 0, store_word (ucast REGP_Y) 0xfff1,
         fill 0 0xba 1,
         run_one, check_pc 4, check_word (ucast REGP_Y) 0xfff1, check_mem (unat RAMPY) 0,
         check_mem 5 0xba, fill 0x3effff 0 1, fill 0x100 0 1, fill (unat RAMPY) 0 1])"

definition test_ldy256 :: "test_step list" where
  "test_ldy256 =
    (let code = [0x8008 OR 0x50, 0x9009 OR 0x50, 0x900a OR 0x50, 0x8008 OR 0x457]
     in [install_words code 0, fill 0 0xaa 1, store_word (ucast REGP_Y) 0x100,
         run_one, check_pc 1, check_word (ucast REGP_Y) 0x100, check_mem 5 0xaa,
         store_word (ucast REGP_Y) 0x1ff, fill 0xff 0xbb 1,
         run_one, check_pc 2, check_word (ucast REGP_Y) 0x100, check_mem 5 0xbb,
         store (unat RAMPY) 0x3f, store_word (ucast REGP_Y) 0,
         run_one, check_pc 3, check_word (ucast REGP_Y) 0x00ff, check_mem (unat RAMPY) 0x3f,
         check_mem 5 0xbb, store_word (ucast REGP_Y) 0x5f1, fill 0 0xba 1,
         run_one, check_pc 4, check_word (ucast REGP_Y) 0x5f1, check_mem 5 0xba, fill 0xff 0 1,
         fill (unat RAMPY) 0 1])"

definition test_ldz64 :: "test_step list" where
  "test_ldz64 =
    (let code = [0x8000 OR 0x50, 0x9001 OR 0x50, 0x9002 OR 0x50, 0x8000 OR 0x457]
     in [install_words code 0, fill 0x100 0xaa 1, store_word (ucast REGP_Z) 0x100,
         run_one, check_pc 1, check_word (ucast REGP_Z) 0x100, check_mem 5 0xaa,
         run_one, check_pc 2, check_word (ucast REGP_Z) 0x101, check_mem 5 0xaa,
         store (unat RAMPZ) 0x3f, store_word (ucast REGP_Z) 0, fill 0xffff 0x55 1,
         run_one, check_pc 3, check_word (ucast REGP_Z) 0xffff, check_mem (unat RAMPZ) 0x3f,
         check_mem 5 0x55, store (unat RAMPZ) 0, store_word (ucast REGP_Z) 0xfff1, store 0 0xba,
         run_one, check_pc 4, check_word (ucast REGP_Z) 0xfff1, check_mem (unat RAMPZ) 0,
         check_mem 5 0xba, fill 0x3effff 0 1, fill 0x100 0 1, fill (unat RAMPZ) 0 1])"

definition test_ldz256 :: "test_step list" where
  "test_ldz256 =
    (let code = [0x8000 OR 0x50, 0x9001 OR 0x50, 0x9002 OR 0x50, 0x8000 OR 0x457]
     in [install_words code 0, fill 0 0xaa 1, store_word (ucast REGP_Z) 0x100,
         run_one, check_pc 1, check_word (ucast REGP_Z) 0x100, check_mem 5 0xaa,
         store_word (ucast REGP_Z) 0x1ff, fill 0xff 0xbb 1,
         run_one, check_pc 2, check_word (ucast REGP_Z) 0x100, check_mem 5 0xbb,
         store (unat RAMPZ) 0x3f, store_word (ucast REGP_Z) 0,
         run_one, check_pc 3, check_word (ucast REGP_Z) 0x00ff, check_mem (unat RAMPZ) 0x3f,
         check_mem 5 0xbb, store (unat RAMPZ) 0, store_word (ucast REGP_Z) 0x3ff1, store 0 0xba,
         run_one, check_pc 4, check_word (ucast REGP_Z) 0x3ff1, check_mem (unat RAMPZ) 0,
         check_mem 5 0xba, fill 0xff 0 1, fill (unat RAMPZ) 0 1])"

definition test_lds64 :: "test_step list" where
  "test_lds64 =
    (let code = [0x9000 OR 0x10, 0xbeef]
     in [install_words code 0, store RAMPD 0x1, fill 0xbeef 0xc0 1,
         run_one, check_pc 2, check_mem 1 0xc0, fill 0xbeef 0 1])"

definition test_rcall22 :: "test_step list" where
  "test_rcall22 =
    (let code = [0xd000 OR 0x7ff, 0xd000 OR 0xfff]
     in [install_words code 0, set_sp 0xffff,
         run_one, check_pc 0x800, check_sp 0xfffc, check_mem 0xffff 1, check_mem 0xfffe 0,
         check_mem 0xfffd 0, set_pc_to 1,
         run_one, check_pc 1, check_sp 0xfff9, check_mem 0xfffc 2, check_mem 0xfffb 0,
         check_mem 0xfffa 0])"

definition test_ret22 :: "test_step list" where
  "test_ret22 =
    (let code = [0x9508]
     in [install_words code 0, set_sp 0xfffc, store 0xfffd 0xf0, store 0xfffe 0xab,
         store 0xffff 0xcd,
         run_one, check_pc 0x30abcd, check_sp 0xffff])"

definition test_reti22 :: "test_step list" where
  "test_reti22 =
    (let code = [0x9518]
     in [install_words code 0, set_sp 0xfffc, store 0xfffd 0xf0, store 0xfffe 0xab,
         store 0xffff 0xcd, store SREG 0,
         run_one, check_pc 0x30abcd, check_mem SREG SREG_I, check_sp 0xffff])"

definition test_stx64 :: "test_step list" where
  "test_stx64 =
    (let code = [0x920e OR 0x50]
     in [install_words code 0, store (unat RAMPX) 0x1, store_word (ucast REGP_X) 0,
         store 5 0x55,
         run_one, check_pc 1, check_word (ucast REGP_X) 0xffff, check_mem (unat RAMPX) 0x1,
         check_mem 0xffff 0x55, store 0xffff 0])"

definition test_stx256 :: "test_step list" where
  "test_stx256 =
    (let code = [0x920e OR 0x50]
     in [install_words code 0, store (unat RAMPX) 0x12, store_word (ucast REGP_X) 0x3400,
         store 5 0x55,
         run_one, check_pc 1, check_word (ucast REGP_X) 0x34ff, check_mem (unat RAMPX) 0x12,
         check_mem 0xff 0x55, store 0xff 0])"

definition test_sty64 :: "test_step list" where
  "test_sty64 =
    (let code = [0x9209 OR 0x50, 0x8208 OR 0x2c07 OR 0x1f0]
     in [install_words code 0, store 5 0xaa, store (unat RAMPY) 1,
         store_word (ucast REGP_Y) 0xffff,
         run_one, check_pc 1, check_mem 0xffff 0xaa, check_word (ucast REGP_Y) 0,
         store (unat RAMPY) 5, store_word (ucast REGP_Y) 0xffff, store 31 0x55,
         run_one, check_pc 2, check_word (ucast REGP_Y) 0xffff, check_mem 0x3e 0x55,
         store 0x3e 0, store 0xffff 0])"

definition test_styz256 :: "test_step list" where
  "test_styz256 =
    (let code = [0x920a OR 0x50, 0x8208 OR 0x2c07 OR 0x1f0, 0x9202 OR 0x50, 0x8200 OR 0x2c07 OR 0x1d0]
     in [install_words code 0, store (unat RAMPY) 0x1, store_word (ucast REGP_Y) 0,
         store 5 0x55,
         run_one, check_pc 1, check_word (ucast REGP_Y) 0x00ff, check_mem (unat RAMPY) 0x1,
         check_mem 0xff 0x55, store_word (ucast REGP_Y) 0x1ff, store 31 0x55,
         run_one, check_pc 2, check_word (ucast REGP_Y) 0x1ff, check_mem 0x3e 0x55,
         store (unat RAMPZ) 0x1, store_word (ucast REGP_Z) 0, store 5 0x44,
         run_one, check_pc 3, check_word (ucast REGP_Z) 0x00ff, check_mem (unat RAMPZ) 0x1,
         check_mem 0xff 0x44, store_word (ucast REGP_Z) 0x1ff, store 29 0x66,
         run_one, check_pc 4, check_word (ucast REGP_Z) 0x1ff, check_mem 0x3e 0x66,
         store 0x3e 0, store 0xff 0])"

definition test_sts64 :: "test_step list" where
  "test_sts64 =
    (let code = [0x9200 OR 0x1f0, 0x2345]
     in [install_words code 0, store RAMPD 0x1, store 31 0x1b,
         run_one, check_pc 2, check_mem 0x2345 0x1b, store 0x2345 0])"

definition test_sts256 :: "test_step list" where
  "test_sts256 =
    (let code = [0x9200 OR 0x1f0, 0x2345]
     in [install_words code 0, store 31 0x1b,
         run_one, check_pc 2, check_mem 0x45 0x1b, store 0x45 0])"

section \<open>Outcomes\<close>

lemma test_call22_passes: "passes des setup_machine22 test_call22"
  by (simp add: test_call22_def run_eqs)

lemma test_eicall22_passes: "passes des setup_machine22 test_eicall22"
  by (simp add: test_eicall22_def run_eqs)

lemma test_eijump22_passes: "passes des setup_machine22 test_eijump22"
  by (simp add: test_eijump22_def run_eqs)

lemma test_jmp22_passes: "passes des setup_machine22 test_jmp22"
  by (simp add: test_jmp22_def run_eqs)

lemma test_ldx64_passes: "passes des setup_machine64 test_ldx64"
  by (simp add: test_ldx64_def run_eqs)

lemma test_ldx256_passes: "passes des setup_machine256 test_ldx256"
  by (simp add: test_ldx256_def run_eqs)

lemma test_ldy64_passes: "passes des setup_machine64 test_ldy64"
  by (simp add: test_ldy64_def run_eqs)

lemma test_ldy256_passes: "passes des setup_machine256 test_ldy256"
  by (simp add: test_ldy256_def run_eqs)

lemma test_ldz64_passes: "passes des setup_machine64 test_ldz64"
  by (simp add: test_ldz64_def run_eqs)

lemma test_ldz256_passes: "passes des setup_machine256 test_ldz256"
  by (simp add: test_ldz256_def run_eqs)

lemma test_lds64_passes: "passes des setup_machine64 test_lds64"
  by (simp add: test_lds64_def run_eqs)

lemma test_rcall22_passes: "passes des setup_machine22 test_rcall22"
  by (simp add: test_rcall22_def run_eqs)

lemma test_ret22_passes: "passes des setup_machine22 test_ret22"
  by (simp add: test_ret22_def run_eqs)

lemma test_reti22_passes: "passes des setup_machine22 test_reti22"
  by (simp add: test_reti22_def run_eqs)

lemma test_stx64_passes: "passes des setup_machine64 test_stx64"
  by (simp add: test_stx64_def run_eqs)

lemma test_stx256_passes: "passes des setup_machine256 test_stx256"
  by (simp add: test_stx256_def run_eqs)

lemma test_sty64_passes: "passes des setup_machine64 test_sty64"
  by (simp add: test_sty64_def run_eqs)

lemma test_styz256_passes: "passes des setup_machine256 test_styz256"
  by (simp add: test_styz256_def run_eqs)

lemma test_sts64_passes: "passes des setup_machine64 test_sts64"
  by (simp add: test_sts64_def run_eqs)

lemma test_sts256_passes: "passes des setup_machine256 test_sts256"
  by (simp add: test_sts256_def run_eqs)

end
