(* ===== verification/Check_Math.thy ===== *)
theory Check_Math
  imports Check_Base
begin

text \<open>
  The unit tests of the case "math" of \<open>check_instr.c\<close> (but for DES, whose cipher is not
  modelled), each as the steps of its C function, and the fact that the model passes it.
\<close>

unbundle bit_operations_syntax

section \<open>Tests\<close>

definition test_mul :: "test_step list" where
  "test_mul =
    (let code = [0x9c00 OR 0x3fe, 0x9c00 OR 0x001, 0x9c00 OR 0x45];
         sreg_start = (0xff AND NOT (SREG_Z OR SREG_C))
     in [install_words code 0, store 31 0xff, store 30 0xff, store 4 0x15,
         store SREG sreg_start,
         run_one, check_pc 1, check_word 0 0xfe01, check_mem SREG (sreg_start OR SREG_C),
         run_one, check_pc 2, check_word 0 0xfe, check_mem SREG sreg_start,
         run_one, check_pc 3, check_word 0 0, check_mem SREG (sreg_start OR SREG_Z)])"

definition test_muls :: "test_step list" where
  "test_muls =
    (let code = [0x200 OR 0xfe, 0x200 OR 0x45];
         sreg_start = (0xff AND NOT (SREG_Z OR SREG_C))
     in [install_words code 0, store 31 0xff, store 30 0x2, store 20 0x15,
         store SREG sreg_start,
         run_one, check_pc 1, check_word 0 0xfffe, check_mem SREG (sreg_start OR SREG_C),
         run_one, check_pc 2, check_word 0 0, check_mem SREG (sreg_start OR SREG_Z)])"

definition test_mulsu :: "test_step list" where
  "test_mulsu =
    (let code = [0x300 OR 0x76, 0x300 OR 0x45];
         sreg_start = (0xff AND NOT (SREG_Z OR SREG_C))
     in [install_words code 0, store 23 0xff, store 22 0xff, store 20 0x15,
         store SREG sreg_start,
         run_one, check_pc 1, check_word 0 0xff01, check_mem SREG (sreg_start OR SREG_C),
         run_one, check_pc 2, check_word 0 0, check_mem SREG (sreg_start OR SREG_Z)])"

definition test_adc :: "test_step list" where
  "test_adc =
    (let code = [0x1c00 OR 0x01, 0x1c00 OR 0x23, 0x1c00 OR 0x45];
         sreg_start = (SREG_I OR SREG_T)
     in [install_words code 0, store 0 0xf0, store 1 0x0f, store SREG (sreg_start OR SREG_C),
         run_one, check_pc 1, check_mem 0 0,
         check_mem SREG (sreg_start OR SREG_C OR SREG_Z OR SREG_H), store 2 0x40, store 3 0x40,
         run_one, check_pc 2, check_mem 2 0x81,
         check_mem SREG (sreg_start OR SREG_V OR SREG_N), store 4 0xff, store 5 0,
         run_one, check_pc 3, check_mem 4 0xff, check_mem SREG (sreg_start OR SREG_N OR SREG_S)])"

definition test_add :: "test_step list" where
  "test_add =
    (let code = [0xc00 OR 0x01, 0xc00 OR 0x23, 0xc00 OR 0x45];
         sreg_start = (SREG_I OR SREG_T)
     in [install_words code 0, store 0 0xf1, store 1 0x0f, store SREG sreg_start,
         run_one, check_pc 1, check_mem 0 0,
         check_mem SREG (sreg_start OR SREG_C OR SREG_Z OR SREG_H), store 2 0x40, store 3 0x40,
         run_one, check_pc 2, check_mem 2 0x80,
         check_mem SREG (sreg_start OR SREG_V OR SREG_N), store 4 0xff, store 5 0,
         run_one, check_pc 3, check_mem 4 0xff, check_mem SREG (sreg_start OR SREG_N OR SREG_S)])"

definition test_adiw :: "test_step list" where
  "test_adiw =
    (let code = [0x9600 OR 0x00 OR 0x5, 0x9600 OR 0x30 OR 0xcf];
         sreg_start = (SREG_I OR SREG_T OR SREG_H)
     in [install_words code 0, store 24 0xfb, store 25 0xff, store SREG sreg_start,
         run_one, check_pc 1, check_mem 24 0, check_mem 25 0,
         check_mem SREG (sreg_start OR SREG_C OR SREG_Z), store 30 0xff, store 31 0x7f,
         run_one, check_pc 2, check_mem 30 0x3e, check_mem 31 0x80,
         check_mem SREG (sreg_start OR SREG_V OR SREG_N)])"

definition test_com :: "test_step list" where
  "test_com =
    (let code = [0x9400 OR 0x1f0, 0x9400 OR 0x1f0];
         sreg_start = (SREG_I OR SREG_T OR SREG_H OR SREG_V)
     in [install_words code 0, store SREG sreg_start, store 31 0x55,
         run_one, check_pc 1, check_mem 31 0xaa,
         check_mem SREG ((sreg_start OR SREG_C OR SREG_N OR SREG_S) AND NOT SREG_V),
         store 31 0xff,
         run_one, check_pc 2, check_mem 31 0,
         check_mem SREG ((sreg_start OR SREG_C OR SREG_Z) AND NOT SREG_V)])"

definition test_cpc :: "test_step list" where
  "test_cpc =
    (let code = [0x1400 OR 0x01, 0x400 OR 0x23, 0x1400 OR 0x45];
         sreg_start = (SREG_I OR SREG_T)
     in [install_words code 0, store 0 0xf1, store 1 0x0f, store SREG sreg_start,
         run_one, check_pc 1, check_mem 0 0xf1,
         check_mem SREG (sreg_start OR SREG_H OR SREG_N OR SREG_S), store 2 0x80, store 3 0x7f,
         modify SREG (\<lambda>v. v OR SREG_C),
         run_one, check_pc 2, check_mem 2 0x80,
         check_mem SREG (sreg_start OR SREG_V OR SREG_S OR SREG_H), store 4 0x0, store 5 0xff,
         modify SREG (\<lambda>v. v OR SREG_Z),
         run_one, check_pc 3, check_mem 4 0, check_mem SREG (sreg_start OR SREG_H OR SREG_C)])"

definition test_cpi :: "test_step list" where
  "test_cpi =
    (let code = [0x3000 OR 0x70f OR 0x10];
         sreg_start = (SREG_I OR SREG_T)
     in [install_words code 0, store 17 0x80, store SREG sreg_start,
         run_one, check_pc 1, check_mem 17 0x80,
         check_mem SREG (sreg_start OR SREG_V OR SREG_S OR SREG_H)])"

definition test_dec :: "test_step list" where
  "test_dec =
    (let code = [0x940a OR 0x00, 0x940a OR 0x00, 0x940a OR 0x00];
         sreg_start = (SREG_I OR SREG_T OR SREG_H OR SREG_C)
     in [install_words code 0, store SREG sreg_start, store 0 0x81,
         run_one, check_pc 1, check_mem 0 0x80, check_mem SREG (sreg_start OR SREG_N OR SREG_S),
         run_one, check_pc 2, check_mem 0 0x7f,
         check_mem SREG (sreg_start OR SREG_V OR SREG_S), store 0 0x1,
         run_one, check_pc 3, check_mem 0 0, check_mem SREG (sreg_start OR SREG_Z)])"

definition test_fmul :: "test_step list" where
  "test_fmul =
    (let code = [0x308 OR 0x76, 0x308 OR 0x01, 0x308 OR 0x45];
         sreg_start = (0xff AND NOT (SREG_Z OR SREG_C))
     in [install_words code 0, store 23 0xff, store 22 0xff, store SREG sreg_start,
         run_one, check_pc 1, check_word 0 0xfc02, check_mem SREG (sreg_start OR SREG_C),
         store 16 0x80, store 17 0x80,
         run_one, check_pc 2, check_word 0 0x8000, check_mem SREG sreg_start, store 20 0x15,
         store 21 0,
         run_one, check_pc 3, check_word 0 0, check_mem SREG (sreg_start OR SREG_Z)])"

definition test_fmuls :: "test_step list" where
  "test_fmuls =
    (let code = [0x380 OR 0x76, 0x380 OR 0x45, 0x380 OR 0x45];
         sreg_start = (0xff AND NOT (SREG_Z OR SREG_C))
     in [install_words code 0, store 23 0xff, store 22 0x2, store SREG sreg_start,
         run_one, check_pc 1, check_word 0 0xfffc, check_mem SREG (sreg_start OR SREG_C),
         store 20 0x80, store 21 0x80,
         run_one, check_pc 2, check_word 0 0x8000, check_mem SREG sreg_start, store 21 0,
         run_one, check_pc 3, check_word 0 0, check_mem SREG (sreg_start OR SREG_Z)])"

definition test_fmulsu :: "test_step list" where
  "test_fmulsu =
    (let code = [0x388 OR 0x76, 0x388 OR 0x45];
         sreg_start = (0xff AND NOT (SREG_Z OR SREG_C))
     in [install_words code 0, store 23 0xff, store 22 0xff, store SREG sreg_start,
         run_one, check_pc 1, check_word 0 0xfe02, check_mem SREG (sreg_start OR SREG_C),
         store 20 0x15, store 21 0,
         run_one, check_pc 2, check_word 0 0, check_mem SREG (sreg_start OR SREG_Z)])"

definition test_inc :: "test_step list" where
  "test_inc =
    (let code = [0x9403 OR 0x00, 0x9403 OR 0x00, 0x9403 OR 0x00];
         sreg_start = (SREG_I OR SREG_T OR SREG_H OR SREG_C)
     in [install_words code 0, store SREG sreg_start, store 0 0x7f,
         run_one, check_pc 1, check_mem 0 0x80, check_mem SREG (sreg_start OR SREG_N OR SREG_V),
         run_one, check_pc 2, check_mem 0 0x81,
         check_mem SREG (sreg_start OR SREG_N OR SREG_S), store 0 0xff,
         run_one, check_pc 3, check_mem 0 0, check_mem SREG (sreg_start OR SREG_Z)])"

definition test_neg :: "test_step list" where
  "test_neg =
    (let code = [0x9401 OR 0x1f0, 0x9401 OR 0x1f0, 0x9401 OR 0x1f0];
         sreg_start = (SREG_I OR SREG_T)
     in [install_words code 0, store SREG sreg_start, store 31 0x55,
         run_one, check_pc 1, check_mem 31 0xab,
         check_mem SREG (sreg_start OR SREG_C OR SREG_N OR SREG_S OR SREG_H), store 31 0x80,
         run_one, check_pc 2, check_mem 31 0x80,
         check_mem SREG (sreg_start OR SREG_C OR SREG_N OR SREG_V), store 31 0,
         run_one, check_pc 3, check_mem 31 0, check_mem SREG (sreg_start OR SREG_Z)])"

definition test_sbc :: "test_step list" where
  "test_sbc =
    (let code = [0x800 OR 0x54, 0x800 OR 0x54, 0x800 OR 0x54, 0x800 OR 0x54];
         sreg_start = (SREG_I OR SREG_T)
     in [install_words code 0, store SREG sreg_start, store 5 0, store 4 0,
         run_one, check_pc 1, check_mem 5 0, check_mem SREG sreg_start,
         store SREG (sreg_start OR SREG_Z OR SREG_C), store 5 1, store 4 0,
         run_one, check_pc 2, check_mem 5 0, check_mem SREG (sreg_start OR SREG_Z),
         store SREG sreg_start, store 5 0, store 4 0xfe,
         run_one, check_pc 3, check_mem 5 2, check_mem SREG (sreg_start OR SREG_H OR SREG_C),
         store SREG sreg_start, store 5 0x80, store 4 1,
         run_one, check_pc 4, check_mem 5 0x7f,
         check_mem SREG (sreg_start OR SREG_H OR SREG_V OR SREG_S)])"

definition test_sbci :: "test_step list" where
  "test_sbci =
    (let code = [0x4000 OR 0xf0f OR 0x10];
         sreg_start = (SREG_I OR SREG_T)
     in [install_words code 0, store 17 0, store SREG (sreg_start OR SREG_C),
         run_one, check_pc 1, check_mem 17 0,
         check_mem SREG (sreg_start OR SREG_Z OR SREG_C OR SREG_H)])"

definition test_subi :: "test_step list" where
  "test_subi =
    (let code = [0x5000 OR 0x70f OR 0x10];
         sreg_start = (SREG_I OR SREG_T)
     in [install_words code 0, store 17 0x80, store SREG sreg_start,
         run_one, check_pc 1, check_mem 17 1,
         check_mem SREG (sreg_start OR SREG_V OR SREG_S OR SREG_H)])"

definition test_sbiw :: "test_step list" where
  "test_sbiw =
    (let code = [0x9700 OR 0xcf OR 0x30];
         sreg_start = (SREG_I OR SREG_T OR SREG_H)
     in [install_words code 0, store 31 0xff, store 30 0x3e, store SREG sreg_start,
         run_one, check_pc 1, check_mem 30 0xff, check_mem 31 0xfe,
         check_mem SREG (sreg_start OR SREG_S OR SREG_N)])"

section \<open>Outcomes\<close>

lemma test_mul_passes: "passes des setup_machine test_mul"
  by (simp add: test_mul_def run_eqs)

lemma test_muls_passes: "passes des setup_machine test_muls"
  by (simp add: test_muls_def run_eqs)

lemma test_mulsu_passes: "passes des setup_machine test_mulsu"
  by (simp add: test_mulsu_def run_eqs)

lemma test_adc_passes: "passes des setup_machine test_adc"
  by (simp add: test_adc_def run_eqs)

lemma test_add_passes: "passes des setup_machine test_add"
  by (simp add: test_add_def run_eqs)

lemma test_adiw_passes: "passes des setup_machine test_adiw"
  by (simp add: test_adiw_def run_eqs)

lemma test_com_passes: "passes des setup_machine test_com"
  by (simp add: test_com_def run_eqs)

lemma test_cpc_passes: "passes des setup_machine test_cpc"
  by (simp add: test_cpc_def run_eqs)

lemma test_cpi_passes: "passes des setup_machine test_cpi"
  by (simp add: test_cpi_def run_eqs)

lemma test_dec_passes: "passes des setup_machine test_dec"
  by (simp add: test_dec_def run_eqs)

lemma test_fmul_passes: "passes des setup_machine test_fmul"
  by (simp add: test_fmul_def run_eqs)

lemma test_fmuls_passes: "passes des setup_machine test_fmuls"
  by (simp add: test_fmuls_def run_eqs)

lemma test_fmulsu_passes: "passes des setup_machine test_fmulsu"
  by (simp add: test_fmulsu_def run_eqs)

lemma test_inc_passes: "passes des setup_machine test_inc"
  by (simp add: test_inc_def run_eqs)

lemma test_neg_passes: "passes des setup_machine test_neg"
  by (simp add: test_neg_def run_eqs)

lemma test_sbc_passes: "passes des setup_machine test_sbc"
  by (simp add: test_sbc_def run_eqs)

lemma test_sbci_passes: "passes des setup_machine test_sbci"
  by (simp add: test_sbci_def run_eqs)

lemma test_subi_passes: "passes des setup_machine test_subi"
  by (simp add: test_subi_def run_eqs)

lemma test_sbiw_passes: "passes des setup_machine test_sbiw"
  by (simp add: test_sbiw_def run_eqs)

end
