(* ===== verification/Check_Control.thy ===== *)
theory Check_Control
  imports Check_Base
begin

text \<open>
  The unit tests of the cases "shifts" and "branches" of \<open>check_instr.c\<close>, each as the steps
  of its C function, and the fact that the model passes it.
\<close>

unbundle bit_operations_syntax

section \<open>Tests\<close>

definition test_asr :: "test_step list" where
  "test_asr =
    (let code = [0x9405 OR 0x1f0, 0x9405 OR 0x1f0, 0x9405 OR 0x1f0, 0x9405 OR 0x1f0, 0x9405 OR 0x1f0];
         sreg_start = (SREG_I OR SREG_T OR SREG_H)
     in [install_words code 0, store 31 0xff, store SREG sreg_start,
         run_one, check_pc 1, check_mem 31 0xff,
         check_mem SREG (sreg_start OR SREG_N OR SREG_C OR SREG_S), store 31 0x81,
         run_one, check_pc 2, check_mem 31 0xc0,
         check_mem SREG (sreg_start OR SREG_N OR SREG_C OR SREG_S), store 31 0x7f,
         run_one, check_pc 3, check_mem 31 0x3f,
         check_mem SREG (sreg_start OR SREG_C OR SREG_V OR SREG_S), store 31 0x70,
         run_one, check_pc 4, check_mem 31 0x38, check_mem SREG sreg_start, store 31 0x1,
         run_one, check_pc 5, check_mem 31 0,
         check_mem SREG (sreg_start OR SREG_C OR SREG_Z OR SREG_V OR SREG_S)])"

definition test_brb :: "test_step list" where
  "test_brb =
    (let code = [0xf400 OR 0x10 OR 0x7, 0, 0xf000 OR 0x1f8 OR 0x0, 0xf000 OR 0x3f0 OR 0x6]
     in [install_words code 0, store SREG (SREG_T OR SREG_C),
         run_one, check_pc 3,
         run_one, check_pc 2,
         run_one, check_pc 0x42])"

definition test_cpse :: "test_step list" where
  "test_cpse =
    (let code = [0x1000 OR 0x01, 0x1000 OR 0x02, 0x940e OR 0x1f1, 0xbeef, 0x1000 OR 0x02, 0, 0]
     in [install_words code 0, store 1 1,
         run_one, check_pc 1, check_mem 0 0, check_insns 1,
         run_one, check_pc 4, check_mem 0 0, check_insns 2,
         run_one, check_pc 6, check_insns 3,
         run_one, check_pc 7, check_insns 4])"

definition test_icall :: "test_step list" where
  "test_icall =
    (let code = [0x9509]
     in [install_words code 0, set_sp 0xffff, store_word (ucast REGP_Z) 0xffee,
         run_one, check_sp 0xfffd, check_mem 0xffff 1, check_mem 0xfffe 0, check_pc 0xffee])"

definition test_ijump :: "test_step list" where
  "test_ijump =
    (let code = [0x9409]
     in [install_words code 0, set_sp 0xffff, store_word (ucast REGP_Z) 0xffee,
         run_one, check_sp 0xffff, check_pc 0xffee])"

definition test_lsr :: "test_step list" where
  "test_lsr =
    (let code = [0x9406 OR 0x10, 0x9406 OR 0x10, 0x9406 OR 0x10];
         sreg_start = (SREG_I OR SREG_T OR SREG_H)
     in [install_words code 0, store SREG (sreg_start OR SREG_N), store 1 0xff,
         run_one, check_pc 1, check_mem 1 0x7f,
         check_mem SREG (sreg_start OR SREG_C OR SREG_V OR SREG_S), store 1 0x1,
         run_one, check_pc 2, check_mem 1 0,
         check_mem SREG (sreg_start OR SREG_C OR SREG_Z OR SREG_V OR SREG_S), store 1 0,
         run_one, check_pc 3, check_mem 1 0, check_mem SREG (sreg_start OR SREG_Z)])"

definition test_rcall :: "test_step list" where
  "test_rcall =
    (let code = [0xd000 OR 0x7ff, 0xd000 OR 0xfff]
     in [install_words code 0, set_sp 0xffff,
         run_one, check_pc 0x800, check_sp 0xfffd, check_mem 0xffff 1, check_mem 0xfffe 0,
         set_pc_to 1,
         run_one, check_pc 1, check_sp 0xfffb, check_mem 0xfffd 2, check_mem 0xfffc 0])"

definition test_rjmp :: "test_step list" where
  "test_rjmp =
    (let code = [0xc000 OR 0x7ff, 0xc000 OR 0xfff]
     in [install_words code 0, set_sp 0xffff,
         run_one, check_pc 0x800, check_sp 0xffff, set_pc_to 1,
         run_one, check_pc 1, check_sp 0xffff])"

definition test_ror :: "test_step list" where
  "test_ror =
    (let code = [0x9407 OR 0x50, 0x9407 OR 0x50, 0x9407 OR 0x50];
         sreg_start = (SREG_I OR SREG_T OR SREG_H)
     in [install_words code 0, store SREG sreg_start, store 5 0,
         run_one, check_pc 1, check_mem 5 0, check_mem SREG (sreg_start OR SREG_Z),
         store 5 0xf1, store SREG (sreg_start OR SREG_C),
         run_one, check_pc 2, check_mem 5 0xf8,
         check_mem SREG (sreg_start OR SREG_C OR SREG_N OR SREG_S), store 5 1,
         store SREG sreg_start,
         run_one, check_pc 3, check_mem 5 0,
         check_mem SREG (sreg_start OR SREG_C OR SREG_Z OR SREG_V OR SREG_S)])"

definition test_sbic :: "test_step list" where
  "test_sbic =
    (let code = [0x9900 OR 0xf8 OR 0x7, 0x9900 OR 0xf0 OR 0x5, 0x940e OR 0x1f1, 0xbeef, 0x9900, 0, 0]
     in [install_words code 0, store 0x3f 0x80,
         run_one, check_pc 1, check_insns 1, store 0x3e 0xdf,
         run_one, check_pc 4, check_insns 2, store 0x20 0xfe,
         run_one, check_pc 6, check_insns 3,
         run_one, check_pc 7, check_insns 4])"

definition test_sbis :: "test_step list" where
  "test_sbis =
    (let code = [0x9b00, 0]
     in [install_words code 0, store 0x20 1,
         run_one, check_pc 2, check_insns 1])"

definition test_sbrc :: "test_step list" where
  "test_sbrc =
    (let code = [0xfc00 OR 0x1f0 OR 0x7, 0xfc00 OR 0x1e0 OR 0x5, 0x940e OR 0x1f1, 0xbeef, 0xfc00, 0, 0]
     in [install_words code 0, store 31 0x80,
         run_one, check_pc 1, check_insns 1, store 30 0xdf,
         run_one, check_pc 4, check_insns 2, store 0 0xfe,
         run_one, check_pc 6, check_insns 3,
         run_one, check_pc 7, check_insns 4])"

definition test_sbrs :: "test_step list" where
  "test_sbrs =
    (let code = [0xfe00, 0]
     in [install_words code 0, store 0 1,
         run_one, check_pc 2, check_insns 1])"

section \<open>Outcomes\<close>

lemma test_asr_passes: "passes des setup_machine test_asr"
  by (simp add: test_asr_def run_eqs)

lemma test_brb_passes: "passes des setup_machine test_brb"
  by (simp add: test_brb_def run_eqs)

lemma test_cpse_passes: "passes des setup_machine test_cpse"
  by (simp add: test_cpse_def run_eqs)

lemma test_icall_passes: "passes des setup_machine test_icall"
  by (simp add: test_icall_def run_eqs)

lemma test_ijump_passes: "passes des setup_machine test_ijump"
  by (simp add: test_ijump_def run_eqs)

lemma test_lsr_passes: "passes des setup_machine test_lsr"
  by (simp add: test_lsr_def run_eqs)

lemma test_rcall_passes: "passes des setup_machine test_rcall"
  by (simp add: test_rcall_def run_eqs)

lemma test_rjmp_passes: "passes des setup_machine test_rjmp"
  by (simp add: test_rjmp_def run_eqs)

lemma test_ror_passes: "passes des setup_machine test_ror"
  by (simp add: test_ror_def run_eqs)

lemma test_sbic_passes: "passes des setup_machine test_sbic"
  by (simp add: test_sbic_def run_eqs)

lemma test_sbis_passes: "passes des setup_machine test_sbis"
  by (simp add: test_sbis_def run_eqs)

lemma test_sbrc_passes: "passes des setup_machine test_sbrc"
  by (simp add: test_sbrc_def run_eqs)

lemma test_sbrs_passes: "passes des setup_machine test_sbrs"
  by (simp add: test_sbrs_def run_eqs)

end
