(* ===== verification/Check_Des.thy ===== *)
theory Check_Des
  imports Check_Base Data_Spec
begin

text \<open>
  The unit test of the DES instructions. Its expected values come from OpenSSL's cipher, which is a
  parameter of the model: the test passes with every cipher that gives these sixteen values.
\<close>

unbundle bit_operations_syntax

section \<open>The test\<close>

record des_trial =
  enc :: bool
  key :: "u8 list"
  inp :: "u8 list"
  exp_out :: "u8 list"

definition des_cases :: "des_trial list" where
  "des_cases =
    [\<lparr>enc = True, key = [0x07, 0x6e, 0xb0, 0x8a, 0x16, 0xec, 0x37, 0xce],
      inp = [0x1f, 0x40, 0xec, 0xd7, 0x46, 0x8e, 0xb3, 0x23],
      exp_out = [0xc3, 0x83, 0x83, 0xf7, 0x0f, 0x86, 0xa4, 0xe1]\<rparr>,
     \<lparr>enc = True, key = [0xf1, 0x10, 0xfe, 0xc1, 0x5d, 0x62, 0x7c, 0xd3],
      inp = [0xf9, 0xa6, 0xab, 0x9b, 0x0b, 0xc6, 0x76, 0x7a],
      exp_out = [0x94, 0xda, 0x96, 0xd1, 0xc2, 0xf2, 0xb6, 0x94]\<rparr>,
     \<lparr>enc = True, key = [0x6d, 0xc7, 0x4a, 0xd5, 0x16, 0xa7, 0x1a, 0x1a],
      inp = [0x3f, 0x4e, 0xe4, 0x13, 0xc6, 0x20, 0x98, 0x89],
      exp_out = [0x68, 0xc1, 0xe5, 0x18, 0x0c, 0x60, 0x5f, 0x49]\<rparr>,
     \<lparr>enc = True, key = [0xb0, 0x64, 0x67, 0xd3, 0xdf, 0x7a, 0xb9, 0xd0],
      inp = [0x3c, 0x28, 0x83, 0x1b, 0xf2, 0x7b, 0xb6, 0xa3],
      exp_out = [0x11, 0x83, 0x95, 0xd1, 0x55, 0x87, 0x06, 0x7c]\<rparr>,
     \<lparr>enc = True, key = [0x98, 0x86, 0xa4, 0xe6, 0xa7, 0xa8, 0xc2, 0x20],
      inp = [0xf4, 0x49, 0x53, 0x50, 0xb1, 0x46, 0x16, 0x4b],
      exp_out = [0xc8, 0xc8, 0xf6, 0x91, 0x5f, 0xb7, 0x27, 0xed]\<rparr>,
     \<lparr>enc = True, key = [0x92, 0x64, 0xd9, 0xb0, 0xf4, 0x10, 0x4a, 0xce],
      inp = [0xa6, 0x58, 0x5c, 0x6f, 0x20, 0x51, 0xfb, 0xec],
      exp_out = [0x46, 0xe7, 0x54, 0x01, 0x81, 0xec, 0x64, 0x4c]\<rparr>,
     \<lparr>enc = True, key = [0x7a, 0x02, 0x89, 0xae, 0x1f, 0x5d, 0xf4, 0x32],
      inp = [0xa4, 0xd3, 0xeb, 0x27, 0x5e, 0xd9, 0x48, 0x66],
      exp_out = [0x72, 0xcb, 0x22, 0x2a, 0xe2, 0x62, 0xf2, 0x2e]\<rparr>,
     \<lparr>enc = True, key = [0x0b, 0xea, 0x9e, 0x52, 0x26, 0xa4, 0x57, 0x40],
      inp = [0x64, 0xb3, 0x32, 0x39, 0x86, 0xeb, 0x1e, 0x8b],
      exp_out = [0xbd, 0xc1, 0xdf, 0x35, 0x78, 0x75, 0x61, 0x25]\<rparr>,
     \<lparr>enc = False, key = [0xda, 0x98, 0xa1, 0xc7, 0x3b, 0xea, 0x45, 0xad],
      inp = [0xac, 0xc3, 0xd6, 0x88, 0x17, 0x4c, 0x75, 0xe1],
      exp_out = [0x54, 0x16, 0x69, 0x44, 0xea, 0x93, 0x0f, 0x1a]\<rparr>,
     \<lparr>enc = False, key = [0x1c, 0x26, 0xb9, 0xb9, 0xf7, 0xef, 0xc2, 0x40],
      inp = [0x91, 0x05, 0x89, 0xae, 0xc9, 0xe5, 0x26, 0x2f],
      exp_out = [0x8f, 0x31, 0xf5, 0xdc, 0xa8, 0x44, 0xca, 0x3f]\<rparr>,
     \<lparr>enc = False, key = [0x94, 0xdf, 0x1a, 0x32, 0xf2, 0x31, 0x6b, 0xbf],
      inp = [0xff, 0x75, 0x50, 0x3e, 0xee, 0xf9, 0xf2, 0xde],
      exp_out = [0x0d, 0xd4, 0xf3, 0xe8, 0x50, 0xb9, 0x4e, 0x83]\<rparr>,
     \<lparr>enc = False, key = [0x89, 0xbf, 0xe9, 0xc4, 0x10, 0x3d, 0xc1, 0xe6],
      inp = [0x3c, 0x1e, 0xd0, 0xbd, 0x88, 0xda, 0xc6, 0xc0],
      exp_out = [0x88, 0x12, 0xf7, 0x85, 0x09, 0xb9, 0x99, 0x75]\<rparr>,
     \<lparr>enc = False, key = [0x76, 0x6d, 0x16, 0x43, 0x25, 0x64, 0x43, 0x6e],
      inp = [0x48, 0x8c, 0x07, 0xb3, 0x06, 0xb9, 0xee, 0x7f],
      exp_out = [0xf9, 0xa1, 0x5c, 0x3b, 0xdf, 0x32, 0xca, 0x19]\<rparr>,
     \<lparr>enc = False, key = [0xa4, 0x76, 0x76, 0xb9, 0x37, 0x91, 0xa7, 0x3b],
      inp = [0x32, 0xf1, 0x51, 0x3c, 0x87, 0x53, 0xb1, 0xf3],
      exp_out = [0xd7, 0x27, 0x1e, 0x0f, 0xbf, 0xb2, 0xaa, 0xee]\<rparr>,
     \<lparr>enc = False, key = [0xf2, 0x16, 0xf8, 0xc1, 0xce, 0x8a, 0x37, 0xc7],
      inp = [0xac, 0x5e, 0xb1, 0x68, 0xf9, 0x46, 0xba, 0x12],
      exp_out = [0xc8, 0x79, 0x9b, 0xb8, 0xed, 0x32, 0xf3, 0x02]\<rparr>,
     \<lparr>enc = False, key = [0xd0, 0xa7, 0xdc, 0xdc, 0xf2, 0xc1, 0x20, 0x4a],
      inp = [0x50, 0x75, 0x0b, 0x81, 0x76, 0x40, 0xde, 0x01],
      exp_out = [0x0b, 0x3f, 0x6a, 0xca, 0xb6, 0xcd, 0x40, 0x73]\<rparr>]"

definition des_code :: "u16 list" where
  "des_code =
    [0x940b OR 0x00, 0x940b OR 0x10, 0x940b OR 0x20, 0x940b OR 0x30, 0x940b OR 0x40,
      0x940b OR 0x50, 0x940b OR 0x60, 0x940b OR 0x70, 0x940b OR 0x80, 0x940b OR 0x90,
      0x940b OR 0xa0, 0x940b OR 0xb0, 0x940b OR 0xc0, 0x940b OR 0xd0, 0x940b OR 0xe0,
      0x940b OR 0xf0]"

text \<open>\<open>memcpy\<close> into memory, and \<open>memcmp\<close> of the start of memory.\<close>

definition copy_in :: "nat \<Rightarrow> u8 list \<Rightarrow> test_step" where
  "copy_in a bs des m =
     Inr (m\<lparr>memory := (\<lambda>i. if a \<le> i \<and> i < a + length bs then bs ! (i - a) else memory m i)\<rparr>)"

definition check_start :: "u8 list \<Rightarrow> test_step" where
  "check_start bs des m = check (map (memory m) [0..<length bs] = bs) m"

definition des_trial_steps :: "des_trial \<Rightarrow> test_step list" where
  "des_trial_steps c =
     [copy_in 0 (inp c), copy_in 8 (key c),
      modify SREG (if enc c then (\<lambda>v. v AND NOT SREG_H) else (\<lambda>v. v OR SREG_H)),
      set_pc_to 0] @ replicate 16 run_one @ [check_start (exp_out c)]"

definition test_des :: "test_step list" where
  "test_des = install_words des_code 0 # concat (map des_trial_steps des_cases)"

section \<open>The cipher\<close>

definition block_of :: "u8 list \<Rightarrow> des_cblock" where
  "block_of bs = (\<lambda>i. if i < 8 then bs ! i else 0)"

definition des_known :: "des_ecb \<Rightarrow> bool" where
  "des_known des = list_all (\<lambda>c.
     map (des (if enc c then DES_ENCRYPT else DES_DECRYPT) (block_of (key c)) (block_of (inp c))) [0..<8] = exp_out c)
     des_cases"

section \<open>Sixteen rounds\<close>

text \<open>Before round \<open>k\<close>: the code is in flash and the program counter at its word.\<close>

definition at_round :: "nat \<Rightarrow> machine \<Rightarrow> bool" where
  "at_round k m \<longleftrightarrow> \<not> skip_next_instruction m \<and> pc m = of_nat k \<and> (\<forall>i < 16. flash m i = des_code ! i)"

lemma round_ready: "at_round k m \<Longrightarrow> k < 16 \<Longrightarrow> ready m (des_code ! k)"
  by (auto simp: at_round_def ready_def unat_of_nat)

lemma after_round: "at_round k m \<Longrightarrow> at_round (Suc k) (after m 1 f (pc m + 1))"
  by (auto simp: at_round_def after_def)

lemma des_code_words: "k < 16 \<Longrightarrow> des_code ! k = 0x940b + of_nat (16 * k)"
proof -
  assume "k < 16"
  then have "k \<in> {0, 1, 2, 3, 4, 5, 6, 7, 8, 9, 10, 11, 12, 13, 14, 15}" unfolding insert_iff empty_iff by presburger
  then show ?thesis by (auto simp: des_code_def)
qed

lemma idle_round:
  assumes "at_round k m" "k < 15"
  shows "emulate1 des m = Inr (after m 1 (memory m) (pc m + 1))"
proof -
  let ?e = "(plain 0x940b 0xff0f Instr_des)\<lparr>dddd74 := True\<rparr>"
  have "k \<in> {0, 1, 2, 3, 4, 5, 6, 7, 8, 9, 10, 11, 12, 13, 14}" using assms(2) unfolding insert_iff empty_iff by presburger
  then have w: "des_code ! k AND 0xff0f = 0x940b" "decode_ddddd ?e (des_code ! k) - 16 < 15"
    by (auto simp: des_code_words decode_ddddd_def plain_def)
  have l: "lookup (des_code ! k) = Some ?e"
    by (rule lookup_masked [OF w(1)]) (simp_all add: avr_instr_def plain_def)
  have "ready m (des_code ! k)" using assms round_ready by simp
  from emulate1_one [OF this l, of des] w(2) show ?thesis
    by (simp add: plain_def skips_def instr_des_def decode_fields_def flagged_def idc_flags_def sreg_after_def)
qed

lemma idle_rounds:
  assumes "at_round k m" "k + n \<le> 15"
  shows "\<exists>m'. run_steps des (replicate n run_one) m = Inr m' \<and> at_round (k + n) m' \<and> memory m' = memory m"
  using assms
proof (induction n arbitrary: k m)
  case (Suc n)
  let ?m = "after m 1 (memory m) (pc m + 1)"
  have "emulate1 des m = Inr ?m" using Suc.prems by (intro idle_round [of k]) simp_all
  moreover have "at_round (Suc k) ?m" using Suc.prems by (intro after_round) simp_all
  ultimately show ?case
    using Suc.IH [of "Suc k" ?m] Suc.prems(2) by (simp add: run_one_def lift_fault_def after_def)
qed simp

lemma run_steps_append:
  "run_steps des (xs @ ys) m = bindR (run_steps des xs m) (run_steps des ys)"
proof (induction xs arbitrary: m)
  case (Cons x xs)
  then show ?case by (cases "x des m") simp_all
qed simp

lemma sixteen_rounds:
  assumes "at_round 0 m"
  shows "\<exists>m'. run_steps des (replicate 16 run_one) m = Inr m' \<and> at_round 16 m' \<and>
    memory m' = (\<lambda>i. if i < 8 then
      des (if fH (status_of (memory m SREG)) then DES_DECRYPT else DES_ENCRYPT) (des_block m 8) (des_block m 0) i
      else memory m i)"
proof -
  obtain u where u: "run_steps des (replicate 15 run_one) m = Inr u" "at_round 15 u" "memory u = memory m"
    using idle_rounds [OF assms, of 15 des] by auto
  have "ready u 0x94fb" using round_ready [OF u(2)] by (simp add: des_code_words)
  note e = des_exec [OF this, of des]
  have b: "des_block u a = des_block m a" for a by (simp add: des_block_def u(3) cong: if_cong)
  have "replicate 16 run_one = replicate 15 run_one @ [run_one]"
    by (simp add: numeral_eq_Suc)
  then show ?thesis
    using u e after_round [OF u(2)] by (simp add: run_steps_append run_one_def lift_fault_def after_def b cong: if_cong)
qed

section \<open>The test passes\<close>

definition des_input :: "des_trial \<Rightarrow> machine \<Rightarrow> machine" where
  "des_input c m = (let f = (\<lambda>i. if i < 8 then inp c ! i else if i < 16 then key c ! (i - 8) else memory m i)
     in m\<lparr>memory := f(SREG := if enc c then f SREG AND NOT SREG_H else f SREG OR SREG_H), pc := 0\<rparr>)"

lemma trial_passes:
  assumes "\<not> skip_next_instruction m" "\<forall>i < 16. flash m i = des_code ! i"
    and "length (inp c) = 8" "length (key c) = 8"
    and c: "map (des (if enc c then DES_ENCRYPT else DES_DECRYPT) (block_of (key c)) (block_of (inp c))) [0..<8] = exp_out c"
  shows "\<exists>m'. run_steps des (des_trial_steps c) m = Inr m' \<and> \<not> skip_next_instruction m' \<and>
    (\<forall>i < 16. flash m' i = des_code ! i)"
proof -
  let ?m = "des_input c m"
  have "at_round 0 ?m" using assms(1,2) by (simp add: at_round_def des_input_def Let_def)
  then obtain u where u: "run_steps des (replicate 16 run_one) ?m = Inr u" "at_round 16 u"
    "memory u = (\<lambda>i. if i < 8 then
      des (if fH (status_of (memory ?m SREG)) then DES_DECRYPT else DES_ENCRYPT) (des_block ?m 8) (des_block ?m 0) i
      else memory ?m i)"
    using sixteen_rounds by blast
  have b: "des_block ?m 8 = block_of (key c)" "des_block ?m 0 = block_of (inp c)"
    by (auto simp: des_block_def block_of_def des_input_def fun_eq_iff)
  have d: "fH (status_of (memory ?m SREG)) \<longleftrightarrow> \<not> enc c"
    by (simp add: des_input_def status_of_def bit_simps)
  have "map (memory u) [0..<length (exp_out c)] = exp_out c"
    unfolding c [symmetric] u(3) b d by (auto intro!: nth_equalityI)
  moreover have "run_steps des (des_trial_steps c) m =
      run_steps des (replicate 16 run_one @ [check_start (exp_out c)]) ?m"
  proof -
    have "memory (m\<lparr>memory := (\<lambda>i. if 8 \<le> i \<and> i < 16 then key c ! (i - 8) else if i < 8 then inp c ! i else memory m i)\<rparr>) =
        (\<lambda>i. if i < 8 then inp c ! i else if i < 16 then key c ! (i - 8) else memory m i)"
      by (auto simp: fun_eq_iff)
    then show ?thesis
      using assms(3,4) by (simp add: des_trial_steps_def copy_in_def modify_def set_pc_to_def mem_upd_def
        des_input_def Let_def cong: if_cong)
  qed
  ultimately show ?thesis
    using u(1,2) by (simp add: run_steps_append check_start_def check_def at_round_def)
qed

lemma des_cases_length: "c \<in> set des_cases \<Longrightarrow> length (inp c) = 8 \<and> length (key c) = 8"
  by (auto simp: des_cases_def)

lemma trials_pass:
  assumes "set cs \<subseteq> set des_cases" "des_known des"
    and "\<not> skip_next_instruction m" "\<forall>i < 16. flash m i = des_code ! i"
  shows "\<not> isl (run_steps des (concat (map des_trial_steps cs)) m)"
  using assms(1,3,4)
proof (induction cs arbitrary: m)
  case (Cons c cs)
  then have "c \<in> set des_cases" by simp
  then obtain u where "run_steps des (des_trial_steps c) m = Inr u" "\<not> skip_next_instruction u"
    "\<forall>i < 16. flash u i = des_code ! i"
    using trial_passes [OF Cons.prems(2,3), of c des] des_cases_length assms(2)
    by (auto simp: des_known_def list_all_iff)
  then show ?case using Cons.IH [of u] Cons.prems(1) by (simp add: run_steps_append)
qed simp

lemma test_des_passes:
  assumes "des_known des"
  shows "passes des setup_machine test_des"
proof -
  let ?m = "(setup_machine zeroed)\<lparr>flash := (\<lambda>i. if i < 16 then des_code ! i else 0)\<rparr>"
  have l: "length des_code = 16" by (simp add: des_code_def)
  have "\<not> isl (run_steps des (concat (map des_trial_steps des_cases)) ?m)"
    using assms by (intro trials_pass) (simp_all add: setup_machine_def init_def zeroed_def)
  then show ?thesis
    by (simp add: passes_def test_des_def install_words_def l setup_machine_def init_def zeroed_def cong: if_cong)
qed

text \<open>A cipher that knows exactly the sixteen answers, told apart by the first byte of the key.\<close>

definition des_recorded :: des_ecb where
  "des_recorded dir k x =
     (case find (\<lambda>c. hd (key c) = k 0) des_cases of None \<Rightarrow> (\<lambda>_. 0) | Some c \<Rightarrow> block_of (exp_out c))"

lemma find_distinct:
  "distinct (map f cs) \<Longrightarrow> c \<in> set cs \<Longrightarrow> find (\<lambda>d. f d = f c) cs = Some c"
  by (induction cs) (auto simp: image_iff)

lemma des_recorded_known: "des_known des_recorded"
proof -
  have d: "distinct (map (\<lambda>c. hd (key c)) des_cases)" by (simp add: des_cases_def)
  have e: "list_all (\<lambda>c. length (exp_out c) = 8) des_cases" by (simp add: des_cases_def)
  show ?thesis
    unfolding des_known_def list_all_iff
  proof
    fix c
    assume c: "c \<in> set des_cases"
    then have "length (key c) = 8" using des_cases_length by simp
    then have k: "block_of (key c) 0 = hd (key c)" by (cases "key c") (simp_all add: block_of_def)
    have "map (block_of (exp_out c)) [0..<8] = exp_out c"
      using c e by (auto simp: block_of_def list_all_iff intro!: nth_equalityI)
    then show "map (des_recorded (if enc c then DES_ENCRYPT else DES_DECRYPT) (block_of (key c))
        (block_of (inp c))) [0..<8] = exp_out c"
      unfolding des_recorded_def k find_distinct [OF d c] by simp
  qed
qed

end
