(* ===== verification/Check_Suite.thy ===== *)
theory Check_Suite
  imports Check_Data Check_Wide Check_Math Check_Control Check_Des Main_Program
begin

text \<open>
  The unit tests of the repository as a suite: \<open>suite_instr\<close> with the fixture of each test
  case, in the order in which they are registered, and the trace test of \<open>check_emu.c\<close>.
\<close>

unbundle bit_operations_syntax

definition suite_instr :: "((machine \<Rightarrow> machine) \<times> test_step list) list" where
  "suite_instr =
    [(setup_machine, test_nop), (setup_machine, test_and), (setup_machine, test_andi),
     (setup_machine, test_bclr), (setup_machine, test_bld), (setup_machine, test_bset),
     (setup_machine, test_bst), (setup_machine, test_call), (setup_machine, test_cbisbi),
     (setup_machine, test_in), (setup_machine, test_jmp), (setup_machine, test_ldi),
     (setup_machine, test_lds), (setup_machine, test_mov), (setup_machine, test_or),
     (setup_machine, test_ori), (setup_machine, test_out), (setup_machine, test_pop),
     (setup_machine, test_push), (setup_machine, test_elpm), (setup_machine, test_ldx),
     (setup_machine, test_ldy), (setup_machine, test_ldz), (setup_machine, test_ret),
     (setup_machine, test_reti), (setup_machine, test_stx), (setup_machine, test_sty),
     (setup_machine, test_sts), (setup_machine, test_swap), (setup_machine, test_xch),
     (setup_machine, test_xor), (setup_machine, test_movw), (setup_machine22, test_call22),
     (setup_machine22, test_eicall22), (setup_machine22, test_eijump22),
     (setup_machine22, test_jmp22), (setup_machine22, test_rcall22),
     (setup_machine22, test_ret22), (setup_machine22, test_reti22),
     (setup_machine256, test_ldx256), (setup_machine256, test_ldy256),
     (setup_machine256, test_ldz256), (setup_machine256, test_sts256),
     (setup_machine256, test_stx256), (setup_machine256, test_styz256),
     (setup_machine64, test_lds64), (setup_machine64, test_ldx64), (setup_machine64, test_ldy64),
     (setup_machine64, test_ldz64), (setup_machine64, test_sts64), (setup_machine64, test_stx64),
     (setup_machine64, test_sty64), (setup_machine, test_adc), (setup_machine, test_add),
     (setup_machine, test_adiw), (setup_machine, test_com), (setup_machine, test_cpc),
     (setup_machine, test_cpi), (setup_machine, test_dec),
     (setup_machine, test_des), (setup_machine, test_fmul),
     (setup_machine, test_fmuls), (setup_machine, test_fmulsu), (setup_machine, test_inc),
     (setup_machine, test_mul), (setup_machine, test_muls), (setup_machine, test_mulsu),
     (setup_machine, test_neg), (setup_machine, test_sbc), (setup_machine, test_sbci),
     (setup_machine, test_subi), (setup_machine, test_sbiw), (setup_machine, test_asr),
     (setup_machine, test_lsr), (setup_machine, test_ror), (setup_machine, test_brb),
     (setup_machine, test_cpse), (setup_machine, test_icall), (setup_machine, test_ijump),
     (setup_machine, test_rcall), (setup_machine, test_rjmp), (setup_machine, test_sbic),
     (setup_machine, test_sbis), (setup_machine, test_sbrc), (setup_machine, test_sbrs)]"

text \<open>
  The command line \<open>-l 3 -t nop3.trace -x testfiles/nop3.bin\<close>, with the six zero bytes of
  that image, and the contents that the trace file must have.
\<close>

definition test_nop_trace :: "des_ecb \<Rightarrow> bool" where
  "test_nop_trace des =
     (case main_program net_up list_table des [] [Opt_l (bytes ''3''), Opt_t True, Opt_x] (Some (Some [0, 0, 0, 0, 0, 0]))
             ((client_stub zeroed [] [])\<lparr>csock := False\<rparr>) of
        Some (Inr g) \<Rightarrow> tracefile (mach g) = Some
          (bytes ''0000 '' @ [10] @ bytes ''0000 '' @ [10] @ bytes ''0000 '' @ [10])
      | _ \<Rightarrow> False)"

lemmas test_outcomes =
  test_nop_passes test_and_passes test_andi_passes test_bclr_passes test_bld_passes
  test_bset_passes test_bst_passes test_call_passes test_cbisbi_passes test_in_passes
  test_jmp_passes test_ldi_passes test_lds_passes test_mov_passes test_or_passes test_ori_passes
  test_out_passes test_pop_passes test_push_passes test_elpm_passes test_ldx_passes
  test_ldy_passes test_ldz_passes test_ret_passes test_reti_passes test_stx_passes
  test_sty_passes test_sts_passes test_swap_passes test_xch_passes test_xor_passes
  test_movw_passes test_call22_passes test_eicall22_passes test_eijump22_passes
  test_jmp22_passes test_rcall22_passes test_ret22_passes test_reti22_passes test_ldx256_passes
  test_ldy256_passes test_ldz256_passes test_sts256_passes test_stx256_passes
  test_styz256_passes test_lds64_passes test_ldx64_passes test_ldy64_passes test_ldz64_passes
  test_sts64_passes test_stx64_passes test_sty64_passes test_adc_passes test_add_passes
  test_adiw_passes test_com_passes test_cpc_passes test_cpi_passes test_dec_passes
  test_fmul_passes test_fmuls_passes test_fmulsu_passes test_inc_passes test_mul_passes
  test_muls_passes test_mulsu_passes test_neg_passes test_sbc_passes test_sbci_passes
  test_subi_passes test_sbiw_passes test_asr_passes test_lsr_passes test_ror_passes
  test_brb_passes test_cpse_passes test_icall_passes test_ijump_passes test_rcall_passes
  test_rjmp_passes test_sbic_passes test_sbis_passes test_sbrc_passes test_sbrs_passes

lemma nop_trace: "test_nop_trace des"
  by (simp add: test_nop_trace_def main_program_def client_stub_def load_image_def emulate.simps
      end_replay_def gdbstub_intr_def gdbstub_stopped_def trace_word_def hex4_def hex_digit_def
      bytes_def le_word_def atoll_def is_space_def number_value_def run_eqs)
    (simp add: word_le_nat_alt)

definition suite_emu :: "(des_ecb \<Rightarrow> bool) list" where
  "suite_emu = [test_nop_trace]"



end
