(* ===== verification/Spec2Isabelle.thy ===== *)
theory Spec2Isabelle
  imports Data_Spec Mem_Spec Step_Spec Manual Input_Spec Gdb_Examples Check_Suite
begin

text \<open>
  A verification library for avr-emu, an emulator of the AVR eight-bit microcontroller in C with a
  stub for the remote protocol of GDB.

  \<^bold>\<open>The program.\<close> \<open>main.c\<close> holds the machine (registers, 16 MB of data memory with
  the registers and I/O ports at its start, 16 MB of flash, program counter, counters), the table
  \<open>avr_instr\<close> that decodes an instruction word, and \<open>emulate1\<close>, which fetches, decodes
  and runs one instruction: the handler, a function of \<open>instr.c\<close>, changes memory and collects
  the status flags to set and to clear, and \<open>emulate1\<close> applies them, advances the program
  counter, writes the trace and counts. A skip instruction sets a flag that makes \<open>emulate1\<close>
  go round once more to decode, but not run, the next instruction. \<open>emulate\<close> repeats
  \<open>emulate1\<close>; before each instruction it calls the hook of \<open>gdbstub.c\<close>, which may enter an
  interactive loop that receives packets, checks them and dispatches the commands; a backward
  step makes \<open>emulate\<close> run the program again from the start.

  \<^bold>\<open>Theories that model the code.\<close>
  \<^item> \<open>Prelude\<close>: results that may end in a fault (\<open>Inl\<close>), word lemmas, bytes of words; no code.
  \<^item> \<open>Machine\<close>: \<open>emu.h\<close> and the globals of \<open>main.c\<close> (record \<open>machine\<close>), its
    accessors with their \<open>ASSERT\<close>s, \<open>init\<close>, the reports \<open>_illins\<close> and
    \<open>_unhandled\<close>. An array is a function of the index with the bound written out; reading or
    writing past it is the fault \<open>Array_bounds\<close>.
  \<^item> \<open>Flags\<close>: the flag helpers of \<open>instr.c\<close>, on the pair of masks.
  \<^item> \<open>Handler\<close>: \<open>struct instr_decode_common\<close>, the type of a handler, the contract of
    all handlers (locale \<open>instr_handler\<close>).
  \<^item> \<open>Instr_Alu\<close>, \<open>Stack\<close>, \<open>Instr_Flow\<close>, \<open>Instr_Mem\<close>: the handlers,
    one definition for each C function, under its name.
  \<^item> \<open>Decode\<close>: the table, in the order of the code, the search and the operand fields.
  \<^item> \<open>Emulate\<close>: \<open>emulate1\<close> and the trace.
  \<^item> \<open>Gdb_Wire\<close>, \<open>Gdb_Cmd\<close>, \<open>Gdb_Loop\<close>: \<open>gdbstub.c\<close>. The record \<open>stub\<close>
    holds its globals, the machine, the bytes sent, and what the kernel will return from
    \<open>send\<close>, \<open>poll\<close> and \<open>recv\<close>. A C string is the rest of its array from the pointer on.
    \<open>Gdb_Loop\<close> also has \<open>gdbstub_init\<close>, which opens the socket and waits for the client, with
    the system calls that succeed as an argument, and \<open>emulate\<close>.
  \<^item> \<open>Console\<close>: what \<open>main.c\<close> prints: the clock and the rate (\<open>now\<close>, \<open>print_ips\<close>), the
    text of the aborting reports, the dumps of data memory and the usage message.
  \<^item> \<open>Input\<close>: the recorded console input (\<open>getsn\<close>, \<open>ins_inprec\<close>), with the terminal as lists
    of bytes and the table of records, the allocator and uninitialised memory as arguments.
  \<^item> \<open>Main_Program\<close>: \<open>main\<close>, with what \<open>getopt\<close> and \<open>fopen\<close> return as arguments, and
    \<open>atoll\<close> on the text of the limit.
  \<^item> \<open>Check_Base\<close>, \<open>Check_Data\<close>, \<open>Check_Wide\<close>, \<open>Check_Math\<close>, \<open>Check_Control\<close>,
    \<open>Check_Des\<close>, \<open>Check_Suite\<close>: the unit tests of \<open>check_instr.c\<close> and \<open>check_emu.c\<close> as scenarios.

  \<^bold>\<open>Theories that say what the code does.\<close>
  \<^item> \<open>Execute\<close>: one run of \<open>emulate1\<close> on a word at the program counter, as a rule that the
    specifications share; the operand fields as arithmetic on the word.
  \<^item> \<open>Alu_Spec\<close>, \<open>Data_Spec\<close>, \<open>Flow_Spec\<close>, \<open>Mem_Spec\<close>: for every implemented
    instruction the result, the status register and the program counter as integer arithmetic,
    errors included. \<open>Flow_Spec\<close> has the round trip of a call and its return, and the stack as
    a refinement of a list (locale \<open>byte_stack\<close> of \<open>Stack\<close>).
  \<^item> \<open>Step_Spec\<close>: what holds of every instruction: \<open>emulate1\<close> stops only for an illegal or
    unimplemented instruction, never for an \<open>ASSERT\<close> or a bad index; the table is unambiguous;
    what a step leaves alone; what it traces.
  \<^item> \<open>Manual\<close>: the instruction-set manual, one entry of text with a bit pattern of sixteen letters
    for each mnemonic, and the equivalence of the table search with it: every encoded word goes to
    the routine of its entry with the operands that the letters spell, every other word is
    undefined; the kinds of operands that the routines receive.
  \<^item> \<open>Gdb_Spec\<close>: packets, checksums and the commands on registers and memory;
    \<open>Gdb_Frame\<close>: the contract of the commands (locale \<open>gdb_command\<close>) and the invariant of
    the client buffer; \<open>Gdb_Client\<close>: breakpoints, a packet in two pieces, packets that resume;
    \<open>Gdb_Stream\<close>: the loops over the buffer as a refinement of a conversation in whole packets.
  \<^item> \<open>Loop_Spec\<close>, \<open>Main_Program\<close>: the end of a run with an instruction limit, the
    replay of a backward step, the option that sets the limit.
  \<^item> \<open>Gdb_Session\<close>: a debugger that only continues changes nothing.
  \<^item> \<open>Loop_Steps\<close>: the turns of \<open>emulate\<close> as a step relation, the equivalence of the partial
    function with it, non-termination included, the invariants of every reachable configuration,
    and the bound that the limit sets for a run of the program under any debugger.
  \<^item> \<open>Input_Spec\<close>: replaying a recorded line, lines that are too long, what a call can change.
  \<^item> \<open>Gdb_Examples\<close>: the theorems on the stub at concrete packets.

  \<^bold>\<open>Termination.\<close> \<open>emulate1\<close> is total: the second round of a skip leaves the flag
  clear. The loop of \<open>gdb_sendraw\<close> is total because \<open>send\<close> takes at least one byte or fails.
  The loops of \<open>gdbstub_interactive\<close> and \<open>emulate\<close> need not end; they are partial
  functions whose value is \<open>None\<close> for a run that does not return. No fuel is used.

  \<^bold>\<open>Parameters.\<close> OpenSSL's DES is a function of direction, key block and input block; the test
  of the DES instructions passes for every such function that gives the sixteen answers recorded
  in it (\<open>des_known\<close>). GLib's hash tables are records of their operations, of which the theorems on
  breakpoints and on the input records assume the laws of a finite set or map. The scanning of
  numbers by \<open>sscanf\<close> follows the C standard: a number too large for its variable, and \<open>0x\<close>
  without digits, are treated as the standard has them, which older C libraries do not always do.

  \<^bold>\<open>Not modelled.\<close> The bodies of the system calls, of which only the results are arguments;
  the signal handler (the flag it sets is an argument of \<open>emulate\<close>); the progress messages of
  \<open>main\<close>, \<open>emulate\<close> and the stub on the terminal; failing writes to the trace file. \<open>printreg\<close> and
  the body of \<open>print_regs\<close> are compiled out. The width of C's \<open>int\<close> is 32 bits, of
  \<open>size_t\<close> 64, and the host is little-endian.
\<close>

end
